theory Spec2Isabelle
  imports Main "HOL-Library.AList" "HOL-Library.Multiset"
begin

section \<open>JavaScript values\<close>

text \<open>
  The catalog data-access layer reads and writes untyped documents. A value is one of the
  JSON-like shapes below; an object is an association list of its own enumerable
  properties (keys are distinct in every object the store hands out). Numbers are
  integers, as \<open>index\<close> fields and time values are; fractions are not modelled.
  Strings are lists of 8-bit characters read as Latin-1 code points.
\<close>

datatype jsval =
    Undefined
  | Null
  | Bool bool
  | Num int
  | Str string
  | Arr "jsval list"
  | Obj "(string \<times> jsval) list"

type_synonym obj = "(string \<times> jsval) list"

datatype error = TypeError | InvalidArgument

text \<open>What the language runtime contributes and the repository does not define: the time
  value of \<open>new Date(v).getTime()\<close> and the numeric coercion of strings, arrays and objects
  (\<open>None\<close> is NaN).\<close>

record runtime =
  dateTime :: "jsval \<Rightarrow> int option"
  coerce :: "jsval \<Rightarrow> int option"

definition truthy :: "jsval \<Rightarrow> bool" where
  "truthy v = (case v of
       Undefined \<Rightarrow> False
     | Null \<Rightarrow> False
     | Bool b \<Rightarrow> b
     | Num n \<Rightarrow> n \<noteq> 0
     | Str s \<Rightarrow> s \<noteq> []
     | Arr xs \<Rightarrow> True
     | Obj kvs \<Rightarrow> True)"

definition keys :: "obj \<Rightarrow> string list" where
  "keys kvs = map fst kvs"

definition getOwn :: "obj \<Rightarrow> string \<Rightarrow> jsval" where
  \<comment> \<open>\<open>o[k]\<close> on an object for a key that is not inherited: the own value or \<open>undefined\<close>\<close>
  "getOwn kvs k = (case map_of kvs k of Some v \<Rightarrow> v | None \<Rightarrow> Undefined)"

definition getp :: "jsval \<Rightarrow> string \<Rightarrow> error + jsval" where
  \<comment> \<open>\<open>v.k\<close>: reading a property of \<open>undefined\<close> or \<open>null\<close> throws; the keys this code reads
      are not defined on primitives or arrays\<close>
  "getp v k = (case v of
       Undefined \<Rightarrow> Inl TypeError
     | Null \<Rightarrow> Inl TypeError
     | Obj kvs \<Rightarrow> Inr (getOwn kvs k)
     | _ \<Rightarrow> Inr Undefined)"

definition objectPrototypeKeys :: "string list" where
  \<comment> \<open>the properties every plain object inherits from \<open>Object.prototype\<close>\<close>
  "objectPrototypeKeys =
     [''constructor'', ''hasOwnProperty'', ''isPrototypeOf'', ''propertyIsEnumerable'',
      ''toLocaleString'', ''toString'', ''valueOf'', ''__proto__'',
      ''__defineGetter__'', ''__defineSetter__'', ''__lookupGetter__'', ''__lookupSetter__'']"

definition inOp :: "string \<Rightarrow> obj \<Rightarrow> bool" where
  \<comment> \<open>\<open>k in o\<close>: own or inherited\<close>
  "inOp k kvs = (k \<in> set (keys kvs) \<or> k \<in> set objectPrototypeKeys)"

definition hasOwnProperty :: "obj \<Rightarrow> string \<Rightarrow> error + bool" where
  \<comment> \<open>\<open>data.hasOwnProperty(field)\<close>: the method is looked up on \<open>data\<close> itself first, so a
      stored field of that name shadows it and the call throws\<close>
  "hasOwnProperty kvs k =
     (if ''hasOwnProperty'' \<in> set (keys kvs) then Inl TypeError else Inr (k \<in> set (keys kvs)))"

definition spread :: "obj \<Rightarrow> obj \<Rightarrow> obj" where
  \<comment> \<open>\<open>{ ...acc, ...src }\<close>: every property of \<open>src\<close> is set on \<open>acc\<close> in order\<close>
  "spread src acc = fold (\<lambda>(k, v). AList.update k v) src acc"

definition isSpace :: "char \<Rightarrow> bool" where
  \<comment> \<open>TAB, LF, VT, FF, CR, SP, NBSP\<close>
  "isSpace c = (c \<in> set [CHR 0x09, CHR 0x0A, CHR 0x0B, CHR 0x0C, CHR 0x0D, CHR 0x20, CHR 0xA0])"

definition trim :: "string \<Rightarrow> string" where
  "trim s = rev (dropWhile isSpace (rev (dropWhile isSpace s)))"

definition upperChar :: "char \<Rightarrow> char" where
  \<comment> \<open>ASCII letters; the case mapping of other characters is not modelled\<close>
  "upperChar c = (case map_of (zip ''abcdefghijklmnopqrstuvwxyz'' ''ABCDEFGHIJKLMNOPQRSTUVWXYZ'') c of
       Some u \<Rightarrow> u | None \<Rightarrow> c)"

definition toUpperCase :: "string \<Rightarrow> string" where
  "toUpperCase s = map upperChar s"

section \<open>Option sanitizers\<close>

record sanitizedSingle =
  sid :: string
  sfields :: "string list"

record sanitizedMulti =
  mids :: "string list"
  mfields :: "string list"
  mvisibility :: jsval

definition nonBlank :: "jsval \<Rightarrow> bool" where
  \<comment> \<open>\<open>typeof x === "string" && x.trim() !== ""\<close>\<close>
  "nonBlank v = (case v of Str s \<Rightarrow> trim s \<noteq> [] | _ \<Rightarrow> False)"

definition strOf :: "jsval \<Rightarrow> string" where
  "strOf v = (case v of Str s \<Rightarrow> s | _ \<Rightarrow> [])"

definition filterStrings :: "jsval \<Rightarrow> string list" where
  \<comment> \<open>\<open>Array.isArray(x) ? x.filter(...) : []\<close>\<close>
  "filterStrings v = (case v of Arr xs \<Rightarrow> map strOf (filter nonBlank xs) | _ \<Rightarrow> [])"

definition sanitizeSingleItemOptions :: "jsval \<Rightarrow> error + sanitizedSingle" where
  "sanitizeSingleItemOptions options =
     (case getp options ''id'' of
        Inl e \<Rightarrow> Inl e
      | Inr i \<Rightarrow>
         (case i of
            Str s \<Rightarrow>
              (case getp options ''fields'' of
                 Inl e \<Rightarrow> Inl e
               | Inr fs \<Rightarrow> Inr \<lparr>sid = trim s, sfields = filterStrings fs\<rparr>)
          | _ \<Rightarrow> Inl TypeError))"

definition validVisibilityFlags :: "string list" where
  "validVisibilityFlags = [''DRAFT'', ''PUBLISHED'', ''HIDDEN'']"

definition sanitizeMultiItemOptions :: "jsval \<Rightarrow> error + sanitizedMulti" where
  "sanitizeMultiItemOptions options =
     (case getp options ''ids'' of
        Inl e \<Rightarrow> Inl e
      | Inr is \<Rightarrow>
         (case getp options ''fields'' of
            Inl e \<Rightarrow> Inl e
          | Inr fs \<Rightarrow>
             (case getp options ''visibility'' of
                Inl e \<Rightarrow> Inl e
              | Inr vis \<Rightarrow>
                 Inr \<lparr>mids = filterStrings is,
                      mfields = filterStrings fs,
                      mvisibility =
                        (case vis of
                           Str s \<Rightarrow>
                             (if toUpperCase s \<in> set validVisibilityFlags
                              then Str (toUpperCase s) else Undefined)
                         | _ \<Rightarrow> Undefined)\<rparr>)))"

definition sanitizeBaseOptions :: "jsval \<Rightarrow> error + sanitizedMulti" where
  "sanitizeBaseOptions options =
     (case getp options ''fields'' of
        Inl e \<Rightarrow> Inl e
      | Inr fs \<Rightarrow>
         (case getp options ''visibility'' of
            Inl e \<Rightarrow> Inl e
          | Inr vis \<Rightarrow> Inr \<lparr>mids = [], mfields = filterStrings fs, mvisibility = vis\<rparr>))"

section \<open>The document store\<close>

text \<open>
  The collaborator is a document database: named partitions of documents keyed by id.
  The model is a reliable in-memory store (network, quota and permission failures are
  outside it) that records every operation issued, so that "no lookup is issued" is a
  statement about the trace. Query results come in the partition's stored order.
\<close>

datatype queryFilter = WhereEq string jsval | WhereNameIn "string list"

datatype storeOp =
    GetDoc string string
  | GetDocs string "queryFilter list"
  | SetDoc string string obj

record db =
  docs :: "string \<Rightarrow> (string \<times> obj) list"
  trace :: "storeOp list"

definition docRef :: "string \<Rightarrow> jsval \<Rightarrow> error + (string \<times> string)" where
  \<comment> \<open>\<open>doc(database, partition, id)\<close>: the client library rejects an id that is not a
      non-empty string\<close>
  "docRef part i = (case i of
       Str s \<Rightarrow> if s = [] then Inl InvalidArgument else Inr (part, s)
     | _ \<Rightarrow> Inl InvalidArgument)"

definition getDoc :: "string \<times> string \<Rightarrow> db \<Rightarrow> obj option \<times> db" where
  \<comment> \<open>the snapshot: \<open>None\<close> when \<open>exists()\<close> is false, else \<open>data()\<close>\<close>
  "getDoc ref db =
     (map_of (docs db (fst ref)) (snd ref),
      db\<lparr>trace := trace db @ [GetDoc (fst ref) (snd ref)]\<rparr>)"

fun matches :: "string \<times> obj \<Rightarrow> queryFilter \<Rightarrow> bool" where
  "matches (i, d) (WhereEq f v) = (map_of d f = Some v)"
| "matches (i, d) (WhereNameIn is) = (i \<in> set is)"

definition getDocs :: "string \<Rightarrow> queryFilter list \<Rightarrow> db \<Rightarrow> (string \<times> obj) list \<times> db" where
  "getDocs part fs db =
     (filter (\<lambda>d. list_all (matches d) fs) (docs db part),
      db\<lparr>trace := trace db @ [GetDocs part fs]\<rparr>)"

definition setDoc :: "string \<times> string \<Rightarrow> obj \<Rightarrow> db \<Rightarrow> db" where
  \<comment> \<open>full overwrite\<close>
  "setDoc ref data db =
     db\<lparr>docs := (docs db)(fst ref := AList.update (snd ref) data (docs db (fst ref))),
        trace := trace db @ [SetDoc (fst ref) (snd ref) data]\<rparr>"

section \<open>Field projection\<close>

fun selectLoop :: "string list \<Rightarrow> obj \<Rightarrow> obj \<Rightarrow> error + obj" where
  \<comment> \<open>\<open>fields.forEach(field => { if (data.hasOwnProperty(field)) selected[field] = data[field] })\<close>\<close>
  "selectLoop [] data sel = Inr sel"
| "selectLoop (f # fs) data sel =
     (case hasOwnProperty data f of
        Inl e \<Rightarrow> Inl e
      | Inr own \<Rightarrow> selectLoop fs data (if own then AList.update f (getOwn data f) sel else sel))"

definition project :: "string list \<Rightarrow> obj \<Rightarrow> error + obj" where
  \<comment> \<open>\<open>if (fields.length) { ...loop... } else { selectedFields = data }\<close>\<close>
  "project fs data = (if fs \<noteq> [] then selectLoop fs data [] else Inr data)"

fun mapE :: "('a \<Rightarrow> error + 'b) \<Rightarrow> 'a list \<Rightarrow> error + 'b list" where
  \<comment> \<open>a synchronous \<open>map\<close> whose callback may throw\<close>
  "mapE f [] = Inr []"
| "mapE f (x # xs) =
     (case f x of
        Inl e \<Rightarrow> Inl e
      | Inr y \<Rightarrow> (case mapE f xs of Inl e \<Rightarrow> Inl e | Inr ys \<Rightarrow> Inr (y # ys)))"

section \<open>Sorting\<close>

text \<open>
  \<open>Array.prototype.sort\<close> is stable, and a comparator result of NaN counts as 0. For a
  consistent comparator the result is the stable ordering; a stable insertion sort
  computes it. (For an inconsistent comparator the language leaves the order open;
  the theorems about order assume keys for which the comparator is consistent.)
\<close>

fun insertBy :: "('a \<Rightarrow> 'a \<Rightarrow> int) \<Rightarrow> 'a \<Rightarrow> 'a list \<Rightarrow> 'a list" where
  "insertBy cmp x [] = [x]"
| "insertBy cmp x (y # ys) = (if cmp x y \<le> 0 then x # y # ys else y # insertBy cmp x ys)"

definition arraySort :: "('a \<Rightarrow> 'a \<Rightarrow> int) \<Rightarrow> 'a list \<Rightarrow> 'a list" where
  "arraySort cmp xs = foldr (insertBy cmp) xs []"

definition toNumber :: "runtime \<Rightarrow> jsval \<Rightarrow> int option" where
  "toNumber rt v = (case v of
       Num n \<Rightarrow> Some n
     | Undefined \<Rightarrow> None
     | Null \<Rightarrow> Some 0
     | Bool b \<Rightarrow> Some (if b then 1 else 0)
     | _ \<Rightarrow> coerce rt v)"

definition cmpDiff :: "int option \<Rightarrow> int option \<Rightarrow> int" where
  \<comment> \<open>the comparator's \<open>x - y\<close> as the sort reads it: NaN is 0\<close>
  "cmpDiff x y = (case x of None \<Rightarrow> 0 | Some a \<Rightarrow> (case y of None \<Rightarrow> 0 | Some b \<Rightarrow> a - b))"

definition sortItems :: "runtime \<Rightarrow> obj list \<Rightarrow> string \<Rightarrow> bool \<Rightarrow> obj list" where
  "sortItems rt items key isDate =
     arraySort (\<lambda>a b.
        if isDate then cmpDiff (dateTime rt (getOwn b key)) (dateTime rt (getOwn a key))
        else cmpDiff (toNumber rt (getOwn a key)) (toNumber rt (getOwn b key))) items"

section \<open>Products\<close>

definition fetchById :: "string \<Rightarrow> jsval \<Rightarrow> db \<Rightarrow> (error + jsval) \<times> db" where
  \<comment> \<open>the body that \<open>getProduct\<close> and \<open>getCollection\<close> share word for word, the partition apart\<close>
  "fetchById part options db =
     (case sanitizeSingleItemOptions options of
        Inl e \<Rightarrow> (Inl e, db)
      | Inr so \<Rightarrow>
         if sid so = [] then (Inr Null, db)
         else
           (case docRef part (Str (sid so)) of
              Inl e \<Rightarrow> (Inl e, db)
            | Inr ref \<Rightarrow>
               (case getDoc ref db of
                  (None, db1) \<Rightarrow> (Inr Null, db1)
                | (Some data, db1) \<Rightarrow>
                   (case project (sfields so) data of
                      Inl e \<Rightarrow> (Inl e, db1)
                    | Inr sel \<Rightarrow> (Inr (Obj (spread sel [(''id'', Str (snd ref))])), db1)))))"

definition getProduct :: "jsval \<Rightarrow> db \<Rightarrow> (error + jsval) \<times> db" where
  "getProduct options db = fetchById ''products'' options db"

definition productRow :: "string list \<Rightarrow> string \<times> obj \<Rightarrow> error + obj" where
  \<comment> \<open>the callback of \<open>snapshot.docs.map\<close> in \<open>getProducts\<close> and \<open>getProductsByIds\<close>\<close>
  "productRow fs d =
     (case project fs (snd d) of
        Inl e \<Rightarrow> Inl e
      | Inr sel \<Rightarrow>
         Inr (AList.update ''visibility'' (getOwn (snd d) ''visibility'')
               (AList.update ''updatedAt'' (getOwn (snd d) ''updatedAt'')
                 (spread sel [(''id'', Str (fst d))]))))"

definition visibilityFilter :: "jsval \<Rightarrow> queryFilter list" where
  \<comment> \<open>\<open>if (visibility) where("visibility", "==", visibility)\<close>\<close>
  "visibilityFilter vis = (if truthy vis then [WhereEq ''visibility'' vis] else [])"

definition productList :: "runtime \<Rightarrow> string list \<Rightarrow> (string \<times> obj) list \<times> db \<Rightarrow> (error + jsval) \<times> db" where
  \<comment> \<open>from \<open>if (snapshot.empty)\<close> to the end of both product list fetches\<close>
  "productList rt fs r =
     (case r of (snapshot, db1) \<Rightarrow>
        if snapshot = [] then (Inr Null, db1)
        else
          (case mapE (productRow fs) snapshot of
             Inl e \<Rightarrow> (Inl e, db1)
           | Inr products \<Rightarrow> (Inr (Arr (map Obj (sortItems rt products ''updatedAt'' True))), db1)))"

definition getProducts :: "runtime \<Rightarrow> jsval \<Rightarrow> db \<Rightarrow> (error + jsval) \<times> db" where
  "getProducts rt options db =
     (case sanitizeBaseOptions (if options = Undefined then Obj [] else options) of
        Inl e \<Rightarrow> (Inl e, db)
      | Inr so \<Rightarrow>
         productList rt (mfields so) (getDocs ''products'' (visibilityFilter (mvisibility so)) db))"

definition getProductsByIds :: "runtime \<Rightarrow> jsval \<Rightarrow> db \<Rightarrow> (error + jsval) \<times> db" where
  "getProductsByIds rt options db =
     (case sanitizeMultiItemOptions options of
        Inl e \<Rightarrow> (Inl e, db)
      | Inr so \<Rightarrow>
         if mids so = [] then (Inr Null, db)
         else
           productList rt (mfields so)
             (getDocs ''products'' (WhereNameIn (mids so) # visibilityFilter (mvisibility so)) db))"

section \<open>Concurrent point lookups\<close>

text \<open>
  \<open>Promise.all(items.map(async item => ...))\<close>: every callback runs up to its first
  \<open>await\<close> before any continues, so the lookups of all items whose reference is valid are
  issued, in list order, whether or not another item fails. The combined promise then
  holds all values, or rejects if any item failed (the model reports the first failure
  in list order).
\<close>

definition itemRef :: "jsval \<Rightarrow> error + (string \<times> string)" where
  \<comment> \<open>\<open>doc(database, "products", item.id)\<close>\<close>
  "itemRef item = (case getp item ''id'' of Inl e \<Rightarrow> Inl e | Inr i \<Rightarrow> docRef ''products'' i)"

fun issueAll :: "(error + (string \<times> string)) list \<Rightarrow> db \<Rightarrow> (error + obj option) list \<times> db" where
  "issueAll [] db = ([], db)"
| "issueAll (r # rs) db =
     (case r of
        Inl e \<Rightarrow> (case issueAll rs db of (xs, db') \<Rightarrow> (Inl e # xs, db'))
      | Inr ref \<Rightarrow>
         (case getDoc ref db of (snap, db1) \<Rightarrow>
            (case issueAll rs db1 of (xs, db') \<Rightarrow> (Inr snap # xs, db'))))"

fun promiseAll :: "(error + 'a) list \<Rightarrow> error + 'a list" where
  "promiseAll [] = Inr []"
| "promiseAll (r # rs) =
     (case r of
        Inl e \<Rightarrow> Inl e
      | Inr y \<Rightarrow> (case promiseAll rs of Inl e \<Rightarrow> Inl e | Inr ys \<Rightarrow> Inr (y # ys)))"

section \<open>Product with its upsell\<close>

definition upsellItem :: "jsval \<Rightarrow> error + obj option \<Rightarrow> error + jsval" where
  \<comment> \<open>the callback of \<open>upsellData.products.map\<close> after its lookup has settled\<close>
  "upsellItem productItem r =
     (case r of
        Inl e \<Rightarrow> Inl e
      | Inr None \<Rightarrow> Inr Null
      | Inr (Some productData) \<Rightarrow>
         (case getp productItem ''index'' of
            Inl e \<Rightarrow> Inl e
          | Inr ix \<Rightarrow>
             (case getp productItem ''name'' of
                Inl e \<Rightarrow> Inl e
              | Inr nm \<Rightarrow>
                 (case getp (getOwn productData ''images'') ''main'' of
                    Inl e \<Rightarrow> Inl e
                  | Inr mainImage \<Rightarrow>
                     (case getp (getOwn productData ''pricing'') ''basePrice'' of
                        Inl e \<Rightarrow> Inl e
                      | Inr basePrice \<Rightarrow>
                         Inr (Obj [(''index'', ix),
                                   (''name'', nm),
                                   (''id'', getOwn productData ''id''),
                                   (''slug'', getOwn productData ''slug''),
                                   (''mainImage'', mainImage),
                                   (''basePrice'', basePrice)]))))))"

definition resolveUpsell :: "obj \<Rightarrow> obj \<Rightarrow> db \<Rightarrow> (error + jsval) \<times> db" where
  \<comment> \<open>\<open>getProductWithUpsell\<close> from \<open>const upsellData\<close> on\<close>
  "resolveUpsell product upsellData db =
     (case getOwn upsellData ''products'' of
        Arr items \<Rightarrow>
          (case issueAll (map itemRef items) db of (snaps, db1) \<Rightarrow>
             (case promiseAll (map2 upsellItem items snaps) of
                Inl e \<Rightarrow> (Inl e, db1)
              | Inr productsInUpsell \<Rightarrow>
                 (Inr (Obj (AList.update ''upsell''
                              (Obj (AList.update ''products''
                                      (Arr (filter (\<lambda>item. item \<noteq> Null) productsInUpsell))
                                      (spread upsellData [])))
                              (spread product []))),
                  db1)))
      | _ \<Rightarrow> (Inl TypeError, db))"

definition getProductWithUpsell :: "jsval \<Rightarrow> db \<Rightarrow> (error + jsval) \<times> db" where
  "getProductWithUpsell options db =
     (case getProduct options db of
        (Inl e, db1) \<Rightarrow> (Inl e, db1)
      | (Inr (Obj product), db1) \<Rightarrow>
          if \<not> truthy (getOwn product ''upsell'') then (Inr (Obj product), db1)
          else
            (case docRef ''upsells'' (getOwn product ''upsell'') of
               Inl e \<Rightarrow> (Inl e, db1)
             | Inr ref \<Rightarrow>
                (case getDoc ref db1 of
                   (None, db2) \<Rightarrow> (Inr (Obj product), db2)
                 | (Some upsellData, db2) \<Rightarrow> resolveUpsell product upsellData db2))
      | (Inr product, db1) \<Rightarrow> (Inr product, db1))"

section \<open>Collections\<close>

definition getCollection :: "jsval \<Rightarrow> db \<Rightarrow> (error + jsval) \<times> db" where
  "getCollection options db = fetchById ''collections'' options db"

definition mergeRef :: "jsval \<Rightarrow> error + obj option \<Rightarrow> error + jsval" where
  \<comment> \<open>\<open>{ ...productDoc.data(), id: product.id, index: product.index }\<close>; spreading the
      \<open>undefined\<close> data of a missing document adds nothing\<close>
  "mergeRef product r =
     (case r of
        Inl e \<Rightarrow> Inl e
      | Inr snap \<Rightarrow>
         (case getp product ''id'' of
            Inl e \<Rightarrow> Inl e
          | Inr i \<Rightarrow>
             (case getp product ''index'' of
                Inl e \<Rightarrow> Inl e
              | Inr ix \<Rightarrow>
                 Inr (Obj (AList.update ''index'' ix
                            (AList.update ''id'' i
                              (spread (case snap of None \<Rightarrow> [] | Some d \<Rightarrow> d) [])))))))"

definition carried :: "string \<Rightarrow> obj \<Rightarrow> obj \<Rightarrow> obj" where
  \<comment> \<open>the object literal each collection callback returns\<close>
  "carried i data sel =
     AList.update ''collectionType'' (getOwn data ''collectionType'')
       (AList.update ''visibility'' (getOwn data ''visibility'')
         (AList.update ''index'' (getOwn data ''index'')
           (AList.update ''updatedAt'' (getOwn data ''updatedAt'')
             (spread sel [(''id'', Str i)]))))"

definition collectionRow :: "string list \<Rightarrow> string \<times> obj \<Rightarrow> db \<Rightarrow> (error + obj) \<times> db" where
  "collectionRow fs d db =
     (case selectLoop fs (snd d) [] of
        Inl e \<Rightarrow> (Inl e, db)
      | Inr sel \<Rightarrow>
         if ''products'' \<in> set fs then
           (case (if truthy (getOwn (snd d) ''products'') then getOwn (snd d) ''products'' else Arr []) of
              Arr refs \<Rightarrow>
                (case issueAll (map itemRef refs) db of (snaps, db1) \<Rightarrow>
                   (case promiseAll (map2 mergeRef refs snaps) of
                      Inl e \<Rightarrow> (Inl e, db1)
                    | Inr expanded \<Rightarrow>
                       (Inr (carried (fst d) (snd d) (AList.update ''products'' (Arr expanded) sel)), db1)))
            | _ \<Rightarrow> (Inl TypeError, db))
         else (Inr (carried (fst d) (snd d) sel), db))"

fun collectAll :: "('a \<Rightarrow> db \<Rightarrow> (error + 'b) \<times> db) \<Rightarrow> 'a list \<Rightarrow> db \<Rightarrow> (error + 'b) list \<times> db" where
  "collectAll f [] db = ([], db)"
| "collectAll f (x # xs) db =
     (case f x db of (r, db1) \<Rightarrow>
        (case collectAll f xs db1 of (rs, db2) \<Rightarrow> (r # rs, db2)))"

definition getCollections :: "runtime \<Rightarrow> jsval \<Rightarrow> db \<Rightarrow> (error + jsval) \<times> db" where
  "getCollections rt options db =
     (case sanitizeBaseOptions (if options = Undefined then Obj [] else options) of
        Inl e \<Rightarrow> (Inl e, db)
      | Inr so \<Rightarrow>
         (case getDocs ''collections'' (visibilityFilter (mvisibility so)) db of (snapshot, db1) \<Rightarrow>
            if snapshot = [] then (Inr Null, db1)
            else
              (case collectAll (collectionRow (mfields so)) snapshot db1 of (rs, db2) \<Rightarrow>
                 (case promiseAll rs of
                    Inl e \<Rightarrow> (Inl e, db2)
                  | Inr collections \<Rightarrow>
                     (Inr (Arr (map Obj (sortItems rt collections ''index'' False))), db2)))))"

section \<open>Upsells\<close>

definition withId :: "string \<times> obj \<Rightarrow> obj" where
  \<comment> \<open>\<open>{ id: doc.id, ...doc.data() }\<close>\<close>
  "withId d = spread (snd d) [(''id'', Str (fst d))]"

definition getUpsells :: "runtime \<Rightarrow> db \<Rightarrow> (error + jsval) \<times> db" where
  "getUpsells rt db =
     (case getDocs ''upsells'' [] db of (snapshot, db1) \<Rightarrow>
        (Inr (Arr (map Obj (sortItems rt (map withId snapshot) ''updatedAt'' True))), db1))"

text \<open>
  The sort inside \<open>getUpsell\<close> runs on stored values, which need not be objects: the
  comparator \<open>a.index - b.index\<close> throws on \<open>null\<close>, and \<open>sort\<close> moves \<open>undefined\<close>
  entries to the end without comparing them.
\<close>

fun insertByE :: "('a \<Rightarrow> 'a \<Rightarrow> error + int) \<Rightarrow> 'a \<Rightarrow> 'a list \<Rightarrow> error + 'a list" where
  "insertByE cmp x [] = Inr [x]"
| "insertByE cmp x (y # ys) =
     (case cmp x y of
        Inl e \<Rightarrow> Inl e
      | Inr c \<Rightarrow>
         if c \<le> 0 then Inr (x # y # ys)
         else (case insertByE cmp x ys of Inl e \<Rightarrow> Inl e | Inr zs \<Rightarrow> Inr (y # zs)))"

fun sortByE :: "('a \<Rightarrow> 'a \<Rightarrow> error + int) \<Rightarrow> 'a list \<Rightarrow> error + 'a list" where
  "sortByE cmp [] = Inr []"
| "sortByE cmp (x # xs) =
     (case sortByE cmp xs of Inl e \<Rightarrow> Inl e | Inr ys \<Rightarrow> insertByE cmp x ys)"

definition arraySortE :: "(jsval \<Rightarrow> jsval \<Rightarrow> error + int) \<Rightarrow> jsval list \<Rightarrow> error + jsval list" where
  "arraySortE cmp xs =
     (case sortByE cmp (filter (\<lambda>v. v \<noteq> Undefined) xs) of
        Inl e \<Rightarrow> Inl e
      | Inr ys \<Rightarrow> Inr (ys @ filter (\<lambda>v. v = Undefined) xs))"

definition byIndex :: "runtime \<Rightarrow> jsval \<Rightarrow> jsval \<Rightarrow> error + int" where
  \<comment> \<open>\<open>(a, b) => a.index - b.index\<close>\<close>
  "byIndex rt a b =
     (case getp a ''index'' of
        Inl e \<Rightarrow> Inl e
      | Inr x \<Rightarrow>
         (case getp b ''index'' of
            Inl e \<Rightarrow> Inl e
          | Inr y \<Rightarrow> Inr (cmpDiff (toNumber rt x) (toNumber rt y))))"

definition spreadIterable :: "jsval \<Rightarrow> error + jsval list" where
  \<comment> \<open>\<open>[...v]\<close>: arrays and strings are iterable, the other values throw\<close>
  "spreadIterable v = (case v of
       Arr xs \<Rightarrow> Inr xs
     | Str s \<Rightarrow> Inr (map (\<lambda>c. Str [c]) s)
     | _ \<Rightarrow> Inl TypeError)"

definition getUpsell :: "runtime \<Rightarrow> jsval \<Rightarrow> db \<Rightarrow> (error + jsval) \<times> db" where
  "getUpsell rt options db =
     (case getp options ''id'' of
        Inl e \<Rightarrow> (Inl e, db)
      | Inr i \<Rightarrow>
         (case docRef ''upsells'' i of
            Inl e \<Rightarrow> (Inl e, db)
          | Inr ref \<Rightarrow>
             (case getDoc ref db of
                (None, db1) \<Rightarrow> (Inr Null, db1)
              | (Some data, db1) \<Rightarrow>
                 (case (if truthy (getOwn data ''products'')
                        then (case spreadIterable (getOwn data ''products'') of
                                Inl e \<Rightarrow> Inl e
                              | Inr ps \<Rightarrow> arraySortE (byIndex rt) ps)
                        else Inr []) of
                    Inl e \<Rightarrow> (Inl e, db1)
                  | Inr sortedProducts \<Rightarrow>
                     (Inr (Obj (AList.update ''products'' (Arr sortedProducts)
                                  (spread data [(''id'', Str (snd ref))]))),
                      db1)))))"

section \<open>Page hero, categories, settings\<close>

definition defaultPageHero :: obj where
  "defaultPageHero =
     [(''images'', Obj [(''desktop'', Str []), (''mobile'', Str [])]),
      (''title'', Str []),
      (''destinationUrl'', Str []),
      (''visibility'', Str ''HIDDEN'')]"

definition getPageHero :: "db \<Rightarrow> (error + jsval) \<times> db" where
  "getPageHero db =
     (case docRef ''pageHero'' (Str ''homepageHero'') of
        Inl e \<Rightarrow> (Inl e, db)
      | Inr documentRef \<Rightarrow>
         (case getDoc documentRef db of
            (None, db1) \<Rightarrow>
              (Inr (Obj (spread defaultPageHero [(''id'', Str (snd documentRef))])),
               setDoc documentRef defaultPageHero db1)
          | (Some data, db1) \<Rightarrow>
              (Inr (Obj (spread data [(''id'', Str (snd documentRef))])), db1)))"

definition getCategories :: "runtime \<Rightarrow> db \<Rightarrow> (error + jsval) \<times> db" where
  "getCategories rt db =
     (case getDocs ''categories'' [] db of (snapshot, db1) \<Rightarrow>
        if snapshot = [] then (Inr Null, db1)
        else
          (Inr (Arr (map Obj
                  (arraySort (\<lambda>a b. cmpDiff (toNumber rt (getOwn a ''index''))
                                            (toNumber rt (getOwn b ''index'')))
                     (map withId snapshot)))),
           db1))"

definition defaultSettings :: obj where
  "defaultSettings = [(''categorySection'', Obj [(''visibility'', Str ''HIDDEN'')])]"

fun addMissing :: "string list \<Rightarrow> obj \<Rightarrow> obj \<times> bool \<Rightarrow> obj \<times> bool" where
  \<comment> \<open>\<open>for (const key of Object.keys(defaults)) if (!(key in current)) { current[key] = defaults[key]; needsUpdate = true }\<close>\<close>
  "addMissing [] dflt st = st"
| "addMissing (k # ks) dflt st =
     addMissing ks dflt
       (if \<not> inOp k (fst st) then (AList.update k (getOwn dflt k) (fst st), True) else st)"

fun dropExtra :: "string list \<Rightarrow> obj \<Rightarrow> obj \<times> bool \<Rightarrow> obj \<times> bool" where
  \<comment> \<open>\<open>for (const key of Object.keys(current)) if (!(key in defaults)) { delete current[key]; needsUpdate = true }\<close>\<close>
  "dropExtra [] dflt st = st"
| "dropExtra (k # ks) dflt st =
     dropExtra ks dflt
       (if \<not> inOp k dflt then (AList.delete k (fst st), True) else st)"

definition reconcile :: "obj \<Rightarrow> obj \<Rightarrow> obj \<times> bool" where
  \<comment> \<open>both loops, from \<open>needsUpdate = false\<close>\<close>
  "reconcile dflt current =
     (case addMissing (keys dflt) dflt (current, False) of st \<Rightarrow>
        dropExtra (keys (fst st)) dflt st)"

definition getSettings :: "db \<Rightarrow> (error + jsval) \<times> db" where
  "getSettings db =
     (case docRef ''settings'' (Str ''defaultSettings'') of
        Inl e \<Rightarrow> (Inl e, db)
      | Inr documentRef \<Rightarrow>
         (case getDoc documentRef db of
            (None, db1) \<Rightarrow> (Inr (Obj defaultSettings), setDoc documentRef defaultSettings db1)
          | (Some currentSettings, db1) \<Rightarrow>
             (case reconcile defaultSettings currentSettings of (current, needsUpdate) \<Rightarrow>
                (Inr (Obj current),
                 if needsUpdate then setDoc documentRef current db1 else db1))))"

section \<open>Vocabulary of the statements\<close>

text \<open>The definitions below are not code of the repository: they name the conditions and
  the expected results that the theorems speak about.\<close>

definition nullish :: "jsval \<Rightarrow> bool" where
  "nullish v = (v = Undefined \<or> v = Null)"

definition field :: "jsval \<Rightarrow> string \<Rightarrow> jsval" where
  \<comment> \<open>\<open>v.k\<close> read where it does not throw\<close>
  "field v k = (case getp v k of Inr x \<Rightarrow> x | Inl e \<Rightarrow> Undefined)"

definition pick :: "string list \<Rightarrow> obj \<Rightarrow> obj \<Rightarrow> obj" where
  \<comment> \<open>what \<open>selectLoop\<close> builds when \<open>hasOwnProperty\<close> is not shadowed\<close>
  "pick fs data sel =
     fold (\<lambda>f s. if f \<in> set (keys data) then AList.update f (getOwn data f) s else s) fs sel"

definition requested :: "string list \<Rightarrow> obj \<Rightarrow> (string \<rightharpoonup> jsval)" where
  \<comment> \<open>the requested fields that exist on the stored document; the whole document when no
      field is requested\<close>
  "requested fs data = (if fs = [] then map_of data else map_of data |` set fs)"

definition refOk :: "jsval \<Rightarrow> bool" where
  \<comment> \<open>a stored reference: an object whose \<open>id\<close> is a non-empty string\<close>
  "refOk item = (case item of
       Obj kvs \<Rightarrow> (case getOwn kvs ''id'' of Str s \<Rightarrow> s \<noteq> [] | _ \<Rightarrow> False)
     | _ \<Rightarrow> False)"

definition refId :: "jsval \<Rightarrow> string" where
  "refId item = strOf (field item ''id'')"

definition productAt :: "db \<Rightarrow> jsval \<Rightarrow> obj option" where
  \<comment> \<open>the product document a reference points to, if it is stored\<close>
  "productAt db item = map_of (docs db ''products'') (refId item)"

definition productOk :: "obj \<Rightarrow> bool" where
  \<comment> \<open>a stored product has its \<open>images\<close> and \<open>pricing\<close> sections\<close>
  "productOk pd = (\<not> nullish (getOwn pd ''images'') \<and> \<not> nullish (getOwn pd ''pricing''))"

definition resolvable :: "db \<Rightarrow> jsval \<Rightarrow> bool" where
  "resolvable db item =
     (refOk item \<and> (case productAt db item of None \<Rightarrow> True | Some pd \<Rightarrow> productOk pd))"

definition snapshotOf :: "jsval \<Rightarrow> obj \<Rightarrow> jsval" where
  \<comment> \<open>the entry \<open>getProductWithUpsell\<close> builds from an upsell item and its stored product\<close>
  "snapshotOf item pd =
     Obj [(''index'', field item ''index''),
          (''name'', field item ''name''),
          (''id'', getOwn pd ''id''),
          (''slug'', getOwn pd ''slug''),
          (''mainImage'', field (getOwn pd ''images'') ''main''),
          (''basePrice'', field (getOwn pd ''pricing'') ''basePrice'')]"

definition expandOf :: "db \<Rightarrow> jsval \<Rightarrow> jsval" where
  \<comment> \<open>the entry \<open>getCollections\<close> builds from a product reference\<close>
  "expandOf db item =
     Obj (AList.update ''index'' (field item ''index'')
           (AList.update ''id'' (field item ''id'')
             (spread (case productAt db item of None \<Rightarrow> [] | Some d \<Rightarrow> d) [])))"

definition storedRefs :: "obj \<Rightarrow> jsval list option" where
  \<comment> \<open>the product references of a collection document: its \<open>products\<close> array of well-formed
      references, the empty list when the field is missing or falsy\<close>
  "storedRefs data = (case getOwn data ''products'' of
       Arr refs \<Rightarrow> if list_all refOk refs then Some refs else None
     | v \<Rightarrow> if truthy v then None else Some [])"

definition refsOf :: "obj \<Rightarrow> jsval list" where
  "refsOf data = (case storedRefs data of Some refs \<Rightarrow> refs | None \<Rightarrow> [])"

definition productRowOf :: "string list \<Rightarrow> string \<times> obj \<Rightarrow> obj" where
  \<comment> \<open>the value of \<open>productRow\<close> where it does not throw\<close>
  "productRowOf fs d =
     AList.update ''visibility'' (getOwn (snd d) ''visibility'')
       (AList.update ''updatedAt'' (getOwn (snd d) ''updatedAt'')
         (spread (if fs = [] then snd d else pick fs (snd d) []) [(''id'', Str (fst d))]))"

definition collectionRowOf :: "db \<Rightarrow> string list \<Rightarrow> string \<times> obj \<Rightarrow> obj" where
  \<comment> \<open>the value of \<open>collectionRow\<close> where it does not throw\<close>
  "collectionRowOf db fs d =
     carried (fst d) (snd d)
       (if ''products'' \<in> set fs
        then AList.update ''products'' (Arr (map (expandOf db) (refsOf (snd d)))) (pick fs (snd d) [])
        else pick fs (snd d) [])"

definition plainDoc :: "obj \<Rightarrow> bool" where
  \<comment> \<open>a stored document: distinct keys, none of them shadowing \<open>hasOwnProperty\<close>\<close>
  "plainDoc data = (distinct (keys data) \<and> ''hasOwnProperty'' \<notin> set (keys data))"

definition timeOf :: "runtime \<Rightarrow> obj \<Rightarrow> int" where
  \<comment> \<open>the time value of a row's \<open>updatedAt\<close>\<close>
  "timeOf rt row = (case dateTime rt (getOwn row ''updatedAt'') of Some t \<Rightarrow> t | None \<Rightarrow> 0)"

definition indexOf :: "runtime \<Rightarrow> jsval \<Rightarrow> int" where
  \<comment> \<open>the number read from a value's \<open>index\<close>\<close>
  "indexOf rt v = (case toNumber rt (field v ''index'') of Some n \<Rightarrow> n | None \<Rightarrow> 0)"

definition dated :: "runtime \<Rightarrow> obj \<Rightarrow> bool" where
  \<comment> \<open>a stored document whose \<open>updatedAt\<close> is a date the runtime can read\<close>
  "dated rt data = (plainDoc data \<and> dateTime rt (getOwn data ''updatedAt'') \<noteq> None)"

definition indexed :: "runtime \<Rightarrow> jsval \<Rightarrow> bool" where
  \<comment> \<open>an object whose \<open>index\<close> is a number\<close>
  "indexed rt v = (case v of Obj kvs \<Rightarrow> toNumber rt (getOwn kvs ''index'') \<noteq> None | _ \<Rightarrow> False)"

section \<open>An example catalog\<close>

definition shirt :: obj where
  "shirt = [(''id'', Str ''P''), (''name'', Str ''Shirt''), (''slug'', Str ''shirt''),
            (''upsell'', Str ''U''),
            (''images'', Obj [(''main'', Str ''p.png'')]),
            (''pricing'', Obj [(''basePrice'', Num 10)]),
            (''updatedAt'', Str ''2024-01-02''), (''visibility'', Str ''PUBLISHED'')]"

definition cap :: obj where
  "cap = [(''id'', Str ''A''), (''name'', Str ''New''), (''slug'', Str ''new-slug''),
          (''images'', Obj [(''main'', Str ''new.png'')]),
          (''pricing'', Obj [(''basePrice'', Num 2)]),
          (''updatedAt'', Str ''2024-01-03''), (''visibility'', Str ''PUBLISHED'')]"

definition plain :: obj where
  "plain = [(''name'', Str ''Plain''), (''updatedAt'', Str ''2024-01-01''), (''visibility'', Str ''DRAFT'')]"

definition orphan :: obj where
  "orphan = [(''name'', Str ''Orphan''), (''upsell'', Str ''gone'')]"

definition pair_offer :: obj where
  \<comment> \<open>its first item refers to a product that is no longer stored\<close>
  "pair_offer =
     [(''visibility'', Str ''PUBLISHED''), (''updatedAt'', Str ''2024-01-05''),
      (''products'',
       Arr [Obj [(''index'', Num 1), (''id'', Str ''B''), (''name'', Str ''Gone''),
                 (''slug'', Str ''gone''), (''mainImage'', Str ''gone.png''), (''basePrice'', Num 5)],
            Obj [(''index'', Num 0), (''id'', Str ''A''), (''name'', Str ''Old''),
                 (''slug'', Str ''old-slug''), (''mainImage'', Str ''old.png''), (''basePrice'', Num 1)]])]"

definition summer :: obj where
  "summer =
     [(''index'', Num 2), (''title'', Str ''Summer''), (''collectionType'', Str ''FEATURED''),
      (''products'', Arr [Obj [(''id'', Str ''B''), (''index'', Num 0)],
                          Obj [(''id'', Str ''A''), (''index'', Num 1)]]),
      (''visibility'', Str ''PUBLISHED''), (''updatedAt'', Str ''2024-01-04'')]"

definition winter :: obj where
  "winter =
     [(''index'', Num 1), (''title'', Str ''Winter''), (''collectionType'', Str ''BANNER''),
      (''products'', Arr []),
      (''visibility'', Str ''HIDDEN''), (''updatedAt'', Str ''2024-01-06'')]"

definition catalog :: db where
  "catalog =
     \<lparr>docs = (\<lambda>part.
         if part = ''products'' then [(''P'', shirt), (''A'', cap), (''Q'', plain), (''R'', orphan)]
         else if part = ''upsells'' then [(''U'', pair_offer)]
         else if part = ''collections'' then [(''S'', summer), (''W'', winter)]
         else if part = ''categories'' then
           [(''c2'', [(''index'', Num 2), (''name'', Str ''Hats'')]),
            (''c1'', [(''index'', Num 1), (''name'', Str ''Shirts'')])]
         else []),
      trace = []\<rparr>"

definition clock :: runtime where
  \<comment> \<open>a runtime that reads the example's dates as day numbers\<close>
  "clock =
     \<lparr>dateTime = (\<lambda>v. case v of Str s \<Rightarrow> map_of
          [(''2024-01-01'', 1), (''2024-01-02'', 2), (''2024-01-03'', 3),
           (''2024-01-04'', 4), (''2024-01-05'', 5), (''2024-01-06'', 6)] s | _ \<Rightarrow> None),
      coerce = (\<lambda>v. None)\<rparr>"

section \<open>Basic facts about the sanitizers\<close>

lemma nonBlank_iff: "nonBlank v \<longleftrightarrow> (\<exists>s. v = Str s \<and> trim s \<noteq> [])"
  by (cases v) (simp_all add: nonBlank_def)

lemma Str_strOf_filter: "map Str (map strOf (filter nonBlank xs)) = filter nonBlank xs"
  by (induction xs) (auto simp: nonBlank_iff strOf_def)

lemma filterStrings_Arr: "map Str (filterStrings (Arr xs)) = filter nonBlank xs"
  using Str_strOf_filter [of xs] by (simp add: filterStrings_def)

lemma filterStrings_other: "\<forall>xs. v \<noteq> Arr xs \<Longrightarrow> filterStrings v = []"
  by (cases v) (auto simp: filterStrings_def)

lemma not_nullish_field: "\<not> nullish v \<Longrightarrow> getp v k = Inr (field v k)"
  by (cases v) (simp_all add: nullish_def field_def getp_def)

lemma sanitizeMulti_Obj:
  "sanitizeMultiItemOptions (Obj kvs) =
     Inr \<lparr>mids = filterStrings (getOwn kvs ''ids''),
          mfields = filterStrings (getOwn kvs ''fields''),
          mvisibility =
            (case getOwn kvs ''visibility'' of
               Str s \<Rightarrow> (if toUpperCase s \<in> set validVisibilityFlags then Str (toUpperCase s) else Undefined)
             | _ \<Rightarrow> Undefined)\<rparr>"
  by (simp add: sanitizeMultiItemOptions_def getp_def)

section \<open>The multi-item sanitizer\<close>

lemma sanitizeMulti_value:
  assumes "\<not> nullish options"
  shows "sanitizeMultiItemOptions options =
     Inr \<lparr>mids = filterStrings (field options ''ids''),
          mfields = filterStrings (field options ''fields''),
          mvisibility =
            (case field options ''visibility'' of
               Str s \<Rightarrow> (if toUpperCase s \<in> set validVisibilityFlags then Str (toUpperCase s) else Undefined)
             | _ \<Rightarrow> Undefined)\<rparr>"
  by (simp add: sanitizeMultiItemOptions_def not_nullish_field [OF assms])

lemma sanitizeMulti_nullish: "nullish options \<Longrightarrow> sanitizeMultiItemOptions options = Inl TypeError"
  by (auto simp: nullish_def sanitizeMultiItemOptions_def getp_def)

text \<open>
  C8 (as amended). On every options value other than \<open>null\<close> and \<open>undefined\<close>
  \<open>sanitizeMultiItemOptions\<close> returns a result. \<open>ids\<close> and \<open>fields\<close> become
  exactly the entries of the given array that are strings with a non-empty trim, in order
  and with repetitions kept, and the empty list when the input is not an array. A string
  \<open>visibility\<close> is uppercased and kept only when the result is \<open>DRAFT\<close>, \<open>PUBLISHED\<close> or
  \<open>HIDDEN\<close>; any other visibility is dropped.
\<close>

theorem sanitizeMultiItemOptions_filters:
  assumes "\<not> nullish options"
  shows "\<exists>so. sanitizeMultiItemOptions options = Inr so
     \<and> (\<forall>xs. field options ''ids'' = Arr xs \<longrightarrow>
           map Str (mids so) = filter (\<lambda>v. \<exists>s. v = Str s \<and> trim s \<noteq> []) xs)
     \<and> ((\<forall>xs. field options ''ids'' \<noteq> Arr xs) \<longrightarrow> mids so = [])
     \<and> (\<forall>xs. field options ''fields'' = Arr xs \<longrightarrow>
           map Str (mfields so) = filter (\<lambda>v. \<exists>s. v = Str s \<and> trim s \<noteq> []) xs)
     \<and> ((\<forall>xs. field options ''fields'' \<noteq> Arr xs) \<longrightarrow> mfields so = [])
     \<and> (\<forall>s. field options ''visibility'' = Str s \<longrightarrow>
           mvisibility so =
             (if toUpperCase s = ''DRAFT'' \<or> toUpperCase s = ''PUBLISHED'' \<or> toUpperCase s = ''HIDDEN''
              then Str (toUpperCase s) else Undefined))
     \<and> ((\<forall>s. field options ''visibility'' \<noteq> Str s) \<longrightarrow> mvisibility so = Undefined)"
proof -
  have flt: "filter nonBlank xs = filter (\<lambda>v. \<exists>s. v = Str s \<and> trim s \<noteq> []) xs" for xs
    by (rule filter_cong) (simp_all add: nonBlank_iff)
  have vis: "(\<forall>s. v \<noteq> Str s) \<Longrightarrow> (case v of Str s \<Rightarrow> f s | _ \<Rightarrow> Undefined) = Undefined" for v f
    by (cases v) simp_all
  show ?thesis
    unfolding sanitizeMulti_value [OF assms]
    by (auto simp: filterStrings_Arr filterStrings_other flt validVisibilityFlags_def vis)
qed

theorem sanitizeMultiItemOptions_filters_witness:
  "sanitizeMultiItemOptions
     (Obj [(''ids'', Arr [Str ''a'', Num 1, Str '' '', Str ''a'']),
           (''fields'', Arr [Str ''name'', Null, Str []]),
           (''visibility'', Str ''published'')])
   = Inr \<lparr>mids = [''a'', ''a''], mfields = [''name''], mvisibility = Str ''PUBLISHED''\<rparr>
   \<and> sanitizeMultiItemOptions (Obj [(''ids'', Str ''a''), (''visibility'', Str ''bogus'')])
   = Inr \<lparr>mids = [], mfields = [], mvisibility = Undefined\<rparr>
   \<and> sanitizeMultiItemOptions (Num 7)
   = Inr \<lparr>mids = [], mfields = [], mvisibility = Undefined\<rparr>"
proof -
  let ?a = "Obj [(''ids'', Arr [Str ''a'', Num 1, Str '' '', Str ''a'']),
           (''fields'', Arr [Str ''name'', Null, Str []]),
           (''visibility'', Str ''published'')]"
  let ?b = "Obj [(''ids'', Str ''a''), (''visibility'', Str ''bogus'')]"
  let ?c = "Num 7"
  have n: "\<not> nullish ?a" "\<not> nullish ?b" "\<not> nullish ?c"
    by (simp_all add: nullish_def)
  have a: "field ?a ''ids'' = Arr [Str ''a'', Num 1, Str '' '', Str ''a'']"
     "field ?a ''fields'' = Arr [Str ''name'', Null, Str []]"
     "field ?a ''visibility'' = Str ''published''"
    by (simp_all add: field_def getp_def getOwn_def)
  have b: "\<forall>xs. field ?b ''ids'' \<noteq> Arr xs" "\<forall>xs. field ?b ''fields'' \<noteq> Arr xs"
      "field ?b ''visibility'' = Str ''bogus''"
    by (simp_all add: field_def getp_def getOwn_def)
  have c: "\<forall>xs. field ?c ''ids'' \<noteq> Arr xs" "\<forall>xs. field ?c ''fields'' \<noteq> Arr xs"
      "\<forall>s. field ?c ''visibility'' \<noteq> Str s"
    by (simp_all add: field_def getp_def)
  have up: "toUpperCase ''published'' = ''PUBLISHED''" "toUpperCase ''bogus'' = ''BOGUS''"
    by (simp_all add: toUpperCase_def upperChar_def)
  have tr: "trim ''a'' = ''a''" "trim '' '' = []" "trim ''name'' = ''name''" "trim [] = []"
    by (simp_all add: trim_def isSpace_def)
  obtain sa where sa: "sanitizeMultiItemOptions ?a = Inr sa"
      "map Str (mids sa) = [Str ''a'', Str ''a'']" "map Str (mfields sa) = [Str ''name'']"
      "mvisibility sa = Str ''PUBLISHED''"
    using sanitizeMultiItemOptions_filters [OF n(1)] unfolding a by (auto simp: up tr)
  obtain sb where sb: "sanitizeMultiItemOptions ?b = Inr sb"
      "mids sb = []" "mfields sb = []" "mvisibility sb = Undefined"
    using sanitizeMultiItemOptions_filters [OF n(2)] b by (auto simp: up)
  obtain sc where sc: "sanitizeMultiItemOptions ?c = Inr sc"
      "mids sc = []" "mfields sc = []" "mvisibility sc = Undefined"
    using sanitizeMultiItemOptions_filters [OF n(3)] c by auto
  have "mids sa = [''a'', ''a'']" "mfields sa = [''name'']"
    using sa(2,3) by (auto simp: map_eq_Cons_conv)
  then show ?thesis using sa sb sc by simp
qed

text \<open>
  C8 as stated fails in its last clause: given \<open>null\<close> or \<open>undefined\<close> for the options the
  sanitizer throws, since it reads \<open>options.ids\<close> first.
\<close>

theorem sanitizeMultiItemOptions_throws_on_null:
  "sanitizeMultiItemOptions Null = Inl TypeError
   \<and> sanitizeMultiItemOptions Undefined = Inl TypeError"
  by (simp add: sanitizeMultiItemOptions_def getp_def)

section \<open>Objects as association lists\<close>

lemma keys_dom: "set (keys kvs) = dom (map_of kvs)"
  by (simp add: keys_def dom_map_of_conv_image_fst)

lemma map_of_rev_distinct: "distinct (map fst xs) \<Longrightarrow> map_of (rev xs) = map_of xs"
proof (induction xs)
  case Nil
  then show ?case by simp
next
  case (Cons x xs)
  then have "fst x \<notin> dom (map_of xs)" by (simp add: dom_map_of_conv_image_fst)
  then have "[fst x \<mapsto> snd x] ++ map_of xs = (map_of xs)(fst x \<mapsto> snd x)"
    by (intro ext) (auto simp: map_add_def split: option.splits)
  with Cons show ?case by (cases x) (simp add: map_of_append)
qed

lemma map_of_spread_rev: "map_of (spread src acc) = map_of acc ++ map_of (rev src)"
  unfolding spread_def
proof (induction src arbitrary: acc)
  case Nil
  then show ?case by simp
next
  case (Cons x xs)
  show ?case
    by (cases x) (simp add: Cons.IH AList.update_conv' map_of_append map_add_assoc [symmetric] map_add_upd_left del: map_add_assoc; simp add: map_add_def fun_eq_iff split: option.splits)
qed

lemma map_of_spread: "distinct (keys src) \<Longrightarrow> map_of (spread src acc) = map_of acc ++ map_of src"
  by (simp add: map_of_spread_rev map_of_rev_distinct keys_def)

lemma distinct_spread: "distinct (keys acc) \<Longrightarrow> distinct (keys (spread src acc))"
  unfolding spread_def keys_def
  by (induction src arbitrary: acc) (auto simp: AList.distinct_update)

lemma keys_spread: "set (keys (spread src acc)) = set (keys acc) \<union> set (keys src)"
  by (auto simp: keys_dom map_of_spread_rev dom_map_of_conv_image_fst)

section \<open>Empty result sets\<close>

text \<open>
  C2. \<open>getUpsells\<close> on a store whose \<open>upsells\<close> partition is empty returns the empty list,
  not \<open>null\<close>: it has no \<open>snapshot.empty\<close> test. \<open>getCategories\<close>, which has the test,
  returns \<open>null\<close> on the same store.
\<close>

theorem getUpsells_empty_not_null:
  "fst (getUpsells rt \<lparr>docs = (\<lambda>p. []), trace = []\<rparr>) = Inr (Arr [])
   \<and> fst (getCategories rt \<lparr>docs = (\<lambda>p. []), trace = []\<rparr>) = Inr Null"
  by (simp add: getUpsells_def getCategories_def getDocs_def sortItems_def arraySort_def)

text \<open>The four guarded list reads return \<open>null\<close> when the store returns no document.\<close>

lemma getProducts_empty:
  assumes "sanitizeBaseOptions (if options = Undefined then Obj [] else options) = Inr so"
    and "fst (getDocs ''products'' (visibilityFilter (mvisibility so)) db) = []"
  shows "fst (getProducts rt options db) = Inr Null"
  using assms
  by (cases "getDocs ''products'' (visibilityFilter (mvisibility so)) db")
     (simp add: getProducts_def productList_def)

lemma getProductsByIds_empty:
  assumes "sanitizeMultiItemOptions options = Inr so"
    and "mids so \<noteq> [] \<longrightarrow>
           fst (getDocs ''products'' (WhereNameIn (mids so) # visibilityFilter (mvisibility so)) db) = []"
  shows "fst (getProductsByIds rt options db) = Inr Null"
  using assms
  by (cases "getDocs ''products'' (WhereNameIn (mids so) # visibilityFilter (mvisibility so)) db")
     (simp add: getProductsByIds_def productList_def)

lemma getCollections_empty:
  assumes "sanitizeBaseOptions (if options = Undefined then Obj [] else options) = Inr so"
    and "fst (getDocs ''collections'' (visibilityFilter (mvisibility so)) db) = []"
  shows "fst (getCollections rt options db) = Inr Null"
  using assms
  by (cases "getDocs ''collections'' (visibilityFilter (mvisibility so)) db")
     (simp add: getCollections_def)

lemma getCategories_empty: "docs db ''categories'' = [] \<Longrightarrow> fst (getCategories rt db) = Inr Null"
  by (simp add: getCategories_def getDocs_def)

section \<open>Blank ids\<close>

text \<open>
  C3. \<open>getUpsell\<close> does not trim or test its id: for the id \<open>" "\<close>, whose trim is empty, it
  issues the point lookup and returns the document stored under that id.
\<close>

theorem getUpsell_blank_id_looks_up:
  "trim '' '' = []
   \<and> getUpsell rt (Obj [(''id'', Str '' '')])
        \<lparr>docs = (\<lambda>p. if p = ''upsells'' then [('' '', [(''visibility'', Str ''DRAFT'')])] else []),
         trace = []\<rparr>
     = (Inr (Obj [(''id'', Str '' ''), (''visibility'', Str ''DRAFT''), (''products'', Arr [])]),
        \<lparr>docs = (\<lambda>p. if p = ''upsells'' then [('' '', [(''visibility'', Str ''DRAFT'')])] else []),
         trace = [GetDoc ''upsells'' '' '']\<rparr>)"
  by (simp add: trim_def isSpace_def getUpsell_def getp_def getOwn_def docRef_def getDoc_def
        truthy_def spread_def)

text \<open>The guarded siblings, for comparison: a blank id or an empty id list returns \<open>null\<close>
  and leaves the store and its trace as they were.\<close>

lemma fetchById_blank:
  "sanitizeSingleItemOptions options = Inr so \<Longrightarrow> sid so = [] \<Longrightarrow>
   fetchById part options db = (Inr Null, db)"
  by (simp add: fetchById_def)

lemma getProductsByIds_no_ids:
  "sanitizeMultiItemOptions options = Inr so \<Longrightarrow> mids so = [] \<Longrightarrow>
   getProductsByIds rt options db = (Inr Null, db)"
  by (simp add: getProductsByIds_def)

section \<open>The page hero singleton\<close>

text \<open>
  C6. \<open>getPageHero\<close> always returns an object. When no document is stored under
  \<open>homepageHero\<close> it writes the default (empty images, title and destination URL,
  visibility \<open>HIDDEN\<close>) and returns it with the id; a second call then returns the same
  object and writes nothing. When a document is stored it is returned with the id
  attached and the store is left as it was.
\<close>

theorem getPageHero_never_null:
  "\<exists>r db'. getPageHero db = (Inr (Obj r), db')
     \<and> (map_of (docs db ''pageHero'') ''homepageHero'' = None \<longrightarrow>
          r = [(''id'', Str ''homepageHero''),
               (''images'', Obj [(''desktop'', Str []), (''mobile'', Str [])]),
               (''title'', Str []),
               (''destinationUrl'', Str []),
               (''visibility'', Str ''HIDDEN'')]
          \<and> map_of (docs db' ''pageHero'') ''homepageHero'' = Some (tl r)
          \<and> trace db' = trace db @ [GetDoc ''pageHero'' ''homepageHero'',
                                     SetDoc ''pageHero'' ''homepageHero'' (tl r)]
          \<and> fst (getPageHero db') = Inr (Obj r)
          \<and> docs (snd (getPageHero db')) = docs db')
     \<and> (\<forall>data. map_of (docs db ''pageHero'') ''homepageHero'' = Some data \<longrightarrow>
          r = spread data [(''id'', Str ''homepageHero'')]
          \<and> docs db' = docs db
          \<and> (distinct (keys data) \<longrightarrow>
                map_of r = [''id'' \<mapsto> Str ''homepageHero''] ++ map_of data))"
proof (cases "map_of (docs db ''pageHero'') ''homepageHero''")
  case None
  then show ?thesis
    by (simp add: getPageHero_def docRef_def getDoc_def setDoc_def defaultPageHero_def
          spread_def AList.update_conv')
next
  case (Some data)
  then show ?thesis
    by (simp add: getPageHero_def docRef_def getDoc_def map_of_spread)
qed

theorem getPageHero_never_null_witness:
  "getPageHero \<lparr>docs = (\<lambda>p. []), trace = []\<rparr>
     = (Inr (Obj [(''id'', Str ''homepageHero''),
                  (''images'', Obj [(''desktop'', Str []), (''mobile'', Str [])]),
                  (''title'', Str []),
                  (''destinationUrl'', Str []),
                  (''visibility'', Str ''HIDDEN'')]),
        snd (getPageHero \<lparr>docs = (\<lambda>p. []), trace = []\<rparr>))
   \<and> fst (getPageHero (snd (getPageHero \<lparr>docs = (\<lambda>p. []), trace = []\<rparr>)))
     = fst (getPageHero \<lparr>docs = (\<lambda>p. []), trace = []\<rparr>)
   \<and> fst (getPageHero
            \<lparr>docs = (\<lambda>p. if p = ''pageHero'' then [(''homepageHero'', [(''title'', Str ''Sale'')])] else []),
             trace = []\<rparr>)
     = Inr (Obj [(''id'', Str ''homepageHero''), (''title'', Str ''Sale'')])"
proof -
  let ?e = "\<lparr>docs = (\<lambda>p. []), trace = []\<rparr>"
  let ?s = "\<lparr>docs = (\<lambda>p. if p = ''pageHero'' then [(''homepageHero'', [(''title'', Str ''Sale'')])] else []),
             trace = []\<rparr>"
  have e: "map_of (docs ?e ''pageHero'') ''homepageHero'' = None" by simp
  have s: "map_of (docs ?s ''pageHero'') ''homepageHero'' = Some [(''title'', Str ''Sale'')]" by simp
  have sp: "spread [(''title'', Str ''Sale'')] [(''id'', Str ''homepageHero'')]
              = [(''id'', Str ''homepageHero''), (''title'', Str ''Sale'')]"
    by (simp add: spread_def)
  from getPageHero_never_null [of ?e] e have 1: ?thesis if "fst (getPageHero ?s)
     = Inr (Obj [(''id'', Str ''homepageHero''), (''title'', Str ''Sale'')])"
    using that by auto
  from getPageHero_never_null [of ?s] have "fst (getPageHero ?s)
     = Inr (Obj [(''id'', Str ''homepageHero''), (''title'', Str ''Sale'')])"
    unfolding s by (auto simp: sp)
  with 1 show ?thesis .
qed

section \<open>Settings reconciliation\<close>

lemma addMissing_snd_mono: "snd st \<Longrightarrow> snd (addMissing ks dflt st)"
  by (induction ks arbitrary: st) auto

lemma dropExtra_spec:
  "map_of (fst (dropExtra ks dflt st)) =
     (\<lambda>k. if k \<in> set ks \<and> \<not> inOp k dflt then None else map_of (fst st) k)
   \<and> snd (dropExtra ks dflt st) = (snd st \<or> (\<exists>k \<in> set ks. \<not> inOp k dflt))
   \<and> ((\<forall>k \<in> set ks. inOp k dflt) \<longrightarrow> dropExtra ks dflt st = st)"
proof (induction ks arbitrary: st)
  case Nil
  then show ?case by simp
next
  case (Cons k ks)
  show ?case
    by (auto simp: Cons.IH AList.delete_conv' fun_eq_iff)
qed

lemma getSettings_absent:
  assumes "map_of (docs db ''settings'') ''defaultSettings'' = None"
  shows "getSettings db =
    (Inr (Obj defaultSettings),
     setDoc (''settings'', ''defaultSettings'') defaultSettings
       (db\<lparr>trace := trace db @ [GetDoc ''settings'' ''defaultSettings'']\<rparr>))"
  using assms by (simp add: getSettings_def docRef_def getDoc_def)

text \<open>Where no stored key bears the name of an \<open>Object.prototype\<close> member, reconciliation
  leaves exactly the default schema's keys, keeps the stored value of each, and the
  write-back happens exactly when the stored key set differed.\<close>

lemma getSettings_reconciles:
  assumes stored: "map_of (docs db ''settings'') ''defaultSettings'' = Some cur"
    and plain: "set (keys cur) \<inter> set objectPrototypeKeys = {}"
  shows "\<exists>r db'. getSettings db = (Inr (Obj r), db')
           \<and> dom (map_of r) = set (keys defaultSettings)
           \<and> map_of r ''categorySection'' =
               (if ''categorySection'' \<in> set (keys cur) then map_of cur ''categorySection''
                else map_of defaultSettings ''categorySection'')
           \<and> (set (keys cur) = set (keys defaultSettings) \<longrightarrow>
                 r = cur \<and> db' = db\<lparr>trace := trace db @ [GetDoc ''settings'' ''defaultSettings'']\<rparr>)
           \<and> (set (keys cur) \<noteq> set (keys defaultSettings) \<longrightarrow>
                 db' = setDoc (''settings'', ''defaultSettings'') r
                         (db\<lparr>trace := trace db @ [GetDoc ''settings'' ''defaultSettings'']\<rparr>))"
proof -
  define st where "st = addMissing (keys defaultSettings) defaultSettings (cur, False)"
  have noproto: "''categorySection'' \<notin> set objectPrototypeKeys"
    by (simp add: objectPrototypeKeys_def)
  have st: "st = (if ''categorySection'' \<in> set (keys cur) then (cur, False)
                  else (AList.update ''categorySection'' (Obj [(''visibility'', Str ''HIDDEN'')]) cur, True))"
    using noproto by (simp add: st_def defaultSettings_def keys_def inOp_def getOwn_def)
  have inD: "inOp k defaultSettings \<longleftrightarrow> k = ''categorySection'' \<or> k \<in> set objectPrototypeKeys" for k
    by (auto simp: inOp_def defaultSettings_def keys_def)
  have keys_st: "set (keys (fst st)) = insert ''categorySection'' (set (keys cur))"
    by (auto simp: st keys_dom AList.update_conv')
  have extra: "(\<exists>k \<in> set (keys (fst st)). \<not> inOp k defaultSettings) \<longleftrightarrow>
                 \<not> set (keys cur) \<subseteq> {''categorySection''}"
    using plain by (auto simp: keys_st inD)
  obtain r nu where r: "dropExtra (keys (fst st)) defaultSettings st = (r, nu)"
    by (cases "dropExtra (keys (fst st)) defaultSettings st")
  have m: "map_of r = (\<lambda>k. if k \<in> set (keys (fst st)) \<and> \<not> inOp k defaultSettings then None
                            else map_of (fst st) k)"
    using dropExtra_spec [of "keys (fst st)" defaultSettings st] unfolding r by simp
  have f: "nu = (snd st \<or> (\<exists>k \<in> set (keys (fst st)). \<not> inOp k defaultSettings))"
    using dropExtra_spec [of "keys (fst st)" defaultSettings st] unfolding r by simp
  have same: "(r, nu) = st" if "\<forall>k \<in> set (keys (fst st)). inOp k defaultSettings"
    using dropExtra_spec [of "keys (fst st)" defaultSettings st] that unfolding r by blast
  have res: "getSettings db = (Inr (Obj r),
      if nu then setDoc (''settings'', ''defaultSettings'') r
                   (db\<lparr>trace := trace db @ [GetDoc ''settings'' ''defaultSettings'']\<rparr>)
      else db\<lparr>trace := trace db @ [GetDoc ''settings'' ''defaultSettings'']\<rparr>)"
    using stored r by (simp add: getSettings_def docRef_def getDoc_def reconcile_def st_def)
  have plain': "k \<notin> set objectPrototypeKeys" if "map_of cur k = Some y" for k y
    using plain that by (auto simp: keys_dom)
  have dom_r: "dom (map_of r) = {''categorySection''}"
    by (auto simp: m keys_st inD keys_dom st AList.update_conv' dest: plain' split: if_splits)
  have val: "map_of r ''categorySection'' =
               (if ''categorySection'' \<in> set (keys cur) then map_of cur ''categorySection''
                else map_of defaultSettings ''categorySection'')"
  proof -
    have inC: "inOp ''categorySection'' defaultSettings" by (simp add: inD)
    have dv: "map_of defaultSettings ''categorySection'' = Some (Obj [(''visibility'', Str ''HIDDEN'')])"
      by (simp add: defaultSettings_def)
    show ?thesis by (simp add: m inC dv st AList.update_conv')
  qed
  have kd: "set (keys defaultSettings) = {''categorySection''}"
    by (simp add: defaultSettings_def keys_def)
  have nu: "nu \<longleftrightarrow> set (keys cur) \<noteq> {''categorySection''}"
    unfolding f extra by (auto simp: st)
  have unchanged: "r = cur" if "set (keys cur) = {''categorySection''}"
  proof -
    have "\<forall>k \<in> set (keys (fst st)). inOp k defaultSettings"
      using that by (simp add: keys_st inD)
    from same [OF this] that show ?thesis by (simp add: st)
  qed
  show ?thesis
    unfolding res kd using dom_r val nu unchanged by auto
qed

text \<open>
  C5. A stored settings document with a key named like an inherited member of every
  object (here \<open>toString\<close>) is returned with that key still present, and nothing is
  written back: the deletion loop tests \<open>key in defaultSettings\<close>, which is true of
  inherited names.
\<close>

theorem getSettings_keeps_inherited_name:
  "getSettings
     \<lparr>docs = (\<lambda>p. if p = ''settings''
                   then [(''defaultSettings'',
                          [(''categorySection'', Obj [(''visibility'', Str ''HIDDEN'')]),
                           (''toString'', Str ''x'')])]
                   else []),
      trace = []\<rparr>
   = (Inr (Obj [(''categorySection'', Obj [(''visibility'', Str ''HIDDEN'')]),
                (''toString'', Str ''x'')]),
      \<lparr>docs = (\<lambda>p. if p = ''settings''
                   then [(''defaultSettings'',
                          [(''categorySection'', Obj [(''visibility'', Str ''HIDDEN'')]),
                           (''toString'', Str ''x'')])]
                   else []),
       trace = [GetDoc ''settings'' ''defaultSettings'']\<rparr>)
   \<and> keys [(''categorySection'', Obj [(''visibility'', Str ''HIDDEN'')]), (''toString'', Str ''x'')]
       \<noteq> keys defaultSettings"
  by (simp add: getSettings_def docRef_def getDoc_def reconcile_def defaultSettings_def keys_def
        inOp_def objectPrototypeKeys_def getOwn_def)

section \<open>Concurrent lookups\<close>

lemma issueAll_spec:
  "issueAll rs db =
     (map (map_sum id (\<lambda>ref. map_of (docs db (fst ref)) (snd ref))) rs,
      db\<lparr>trace := trace db @
             concat (map (\<lambda>r. case r of Inl e \<Rightarrow> [] | Inr ref \<Rightarrow> [GetDoc (fst ref) (snd ref)]) rs)\<rparr>)"
  by (induction rs arbitrary: db) (simp_all add: getDoc_def split: sum.splits)

lemma promiseAll_Inr: "promiseAll (map (\<lambda>x. Inr (g x)) xs) = Inr (map g xs)"
  by (induction xs) simp_all

lemma map2_same: "map2 f xs (map g xs) = map (\<lambda>x. f x (g x)) xs"
  by (induction xs) simp_all

lemma refOk_field: "refOk item \<Longrightarrow> getp item k = Inr (field item k)"
  by (cases item) (simp_all add: refOk_def field_def getp_def)

lemma refOk_itemRef: "refOk item \<Longrightarrow> itemRef item = Inr (''products'', refId item)"
  by (cases item)
     (auto simp: refOk_def itemRef_def getp_def docRef_def refId_def field_def strOf_def
           split: jsval.splits)

lemma upsellItem_resolvable:
  "resolvable db item \<Longrightarrow>
   upsellItem item (Inr (productAt db item)) =
     Inr (case productAt db item of None \<Rightarrow> Null | Some pd \<Rightarrow> snapshotOf item pd)"
  by (cases "productAt db item")
     (simp_all add: resolvable_def upsellItem_def snapshotOf_def productOk_def
        refOk_field not_nullish_field)

lemma filter_not_Null_map:
  "filter (\<lambda>v. v \<noteq> Null)
     (map (\<lambda>item. case productAt db item of None \<Rightarrow> Null | Some pd \<Rightarrow> snapshotOf item pd) items)
   = List.map_filter (\<lambda>item. map_option (snapshotOf item) (productAt db item)) items"
  by (induction items) (auto simp: List.map_filter_simps snapshotOf_def split: option.splits)

lemma resolveUpsell_resolvable:
  assumes items: "getOwn upsellData ''products'' = Arr items"
    and ok: "list_all (resolvable db) items"
  shows "resolveUpsell product upsellData db =
    (Inr (Obj (AList.update ''upsell''
                 (Obj (AList.update ''products''
                         (Arr (List.map_filter (\<lambda>item. map_option (snapshotOf item) (productAt db item)) items))
                         (spread upsellData [])))
                 (spread product []))),
     db\<lparr>trace := trace db @ map (\<lambda>item. GetDoc ''products'' (refId item)) items\<rparr>)"
proof -
  have refs: "map itemRef items = map (\<lambda>item. Inr (''products'', refId item)) items"
    using ok by (intro map_cong) (auto simp: list_all_iff resolvable_def refOk_itemRef)
  have snaps: "fst (issueAll (map itemRef items) db) = map (\<lambda>item. Inr (productAt db item)) items"
    by (simp add: issueAll_spec refs productAt_def comp_def)
  have tr: "snd (issueAll (map itemRef items) db) =
              db\<lparr>trace := trace db @ map (\<lambda>item. GetDoc ''products'' (refId item)) items\<rparr>"
    by (simp add: issueAll_spec refs comp_def)
  have all: "map2 upsellItem items (map (\<lambda>item. Inr (productAt db item)) items)
        = map (\<lambda>item. Inr (case productAt db item of None \<Rightarrow> Null | Some pd \<Rightarrow> snapshotOf item pd)) items"
    unfolding map2_same using ok
    by (intro map_cong) (auto simp: list_all_iff upsellItem_resolvable)
  show ?thesis
    using snaps tr
    by (cases "issueAll (map itemRef items) db")
       (simp add: resolveUpsell_def items all promiseAll_Inr filter_not_Null_map)
qed

section \<open>Projection and single-entity fetch\<close>

lemma selectLoop_pick:
  "''hasOwnProperty'' \<notin> set (keys data) \<Longrightarrow> selectLoop fs data sel = Inr (pick fs data sel)"
  by (induction fs arbitrary: sel) (simp_all add: pick_def hasOwnProperty_def)

lemma getOwn_Some: "k \<in> set (keys data) \<Longrightarrow> Some (getOwn data k) = map_of data k"
  by (auto simp: keys_dom getOwn_def)

lemma map_of_pick_at:
  "map_of (pick fs data sel) k =
     (if k \<in> set fs \<and> k \<in> set (keys data) then map_of data k else map_of sel k)"
  unfolding pick_def
proof (induction fs arbitrary: sel)
  case Nil
  then show ?case by simp
next
  case (Cons f fs)
  show ?case by (simp add: Cons.IH AList.update_conv' getOwn_Some)
qed

lemma map_of_pick: "map_of (pick fs data sel) = map_of sel ++ (map_of data |` set fs)"
proof
  fix k
  show "map_of (pick fs data sel) k = (map_of sel ++ (map_of data |` set fs)) k"
    by (cases "map_of data k")
       (auto simp: map_of_pick_at map_add_def restrict_map_def keys_dom)
qed

lemma distinct_pick: "distinct (keys sel) \<Longrightarrow> distinct (keys (pick fs data sel))"
  unfolding pick_def keys_def
  by (induction fs arbitrary: sel) (auto simp: AList.distinct_update)

lemma project_ok:
  "fs \<noteq> [] \<longrightarrow> ''hasOwnProperty'' \<notin> set (keys data) \<Longrightarrow>
   project fs data = Inr (if fs = [] then data else pick fs data [])"
  by (simp add: project_def selectLoop_pick)

lemma map_of_projected:
  assumes "distinct (keys data)"
  shows "map_of (spread (if fs = [] then data else pick fs data []) acc) = map_of acc ++ requested fs data"
proof (cases "fs = []")
  case True
  with assms show ?thesis by (simp add: map_of_spread requested_def)
next
  case False
  have "distinct (keys (pick fs data []))" by (rule distinct_pick) (simp add: keys_def)
  with False show ?thesis by (simp add: map_of_spread map_of_pick requested_def)
qed

lemma fetchById_present:
  assumes "sanitizeSingleItemOptions options = Inr so" and "sid so \<noteq> []"
    and "map_of (docs db part) (sid so) = Some data"
    and "sfields so \<noteq> [] \<longrightarrow> ''hasOwnProperty'' \<notin> set (keys data)"
  shows "fetchById part options db =
    (Inr (Obj (spread (if sfields so = [] then data else pick (sfields so) data [])
                 [(''id'', Str (sid so))])),
     db\<lparr>trace := trace db @ [GetDoc part (sid so)]\<rparr>)"
  using assms by (simp add: fetchById_def docRef_def getDoc_def project_ok)

lemma fetchById_absent:
  assumes "sanitizeSingleItemOptions options = Inr so" and "sid so \<noteq> []"
    and "map_of (docs db part) (sid so) = None"
  shows "fetchById part options db = (Inr Null, db\<lparr>trace := trace db @ [GetDoc part (sid so)]\<rparr>)"
  using assms by (simp add: fetchById_def docRef_def getDoc_def)

lemma fetchById_docs: "docs (snd (fetchById part options db)) = docs db"
  by (simp add: fetchById_def docRef_def getDoc_def split: sum.splits option.splits)

lemma selectLoop_distinct:
  "selectLoop fs data sel = Inr r \<Longrightarrow> distinct (keys sel) \<Longrightarrow> distinct (keys r)"
  by (induction fs arbitrary: sel)
     (auto simp: keys_def AList.distinct_update split: sum.splits if_splits)

lemma fetchById_cases:
  assumes "fetchById part options db = (Inr v, db1)"
  shows "v = Null \<or> (\<exists>p. v = Obj p)"
  using assms
  by (auto simp: fetchById_def docRef_def getDoc_def split: sum.splits option.splits if_splits)

section \<open>Product with its upsell\<close>

lemma productAt_docs: "docs db' = docs db \<Longrightarrow> productAt db' = productAt db"
  by (simp add: productAt_def fun_eq_iff)

lemma resolvable_docs:
  assumes "docs db' = docs db"
  shows "resolvable db' = resolvable db"
  using productAt_docs [OF assms] by (simp add: resolvable_def fun_eq_iff)

lemma fetchById_distinct:
  assumes "fetchById part options db = (Inr (Obj p), db1)"
  shows "distinct (keys p)"
proof -
  have "distinct (keys [(''id'', v)])" for v :: jsval by (simp add: keys_def)
  with assms show ?thesis
    by (auto simp: fetchById_def docRef_def getDoc_def distinct_spread
             split: sum.splits option.splits if_splits)
qed

lemma getProductWithUpsell_resolved:
  assumes got: "getProduct options db = (Inr (Obj p), db1)"
    and upsell: "getOwn p ''upsell'' = Str u" "u \<noteq> []"
    and stored: "map_of (docs db ''upsells'') u = Some ud"
    and items: "getOwn ud ''products'' = Arr items"
    and ok: "list_all (resolvable db) items"
  shows "fst (getProductWithUpsell options db) =
    Inr (Obj (AList.update ''upsell''
                (Obj (AList.update ''products''
                        (Arr (List.map_filter (\<lambda>item. map_option (snapshotOf item) (productAt db item)) items))
                        (spread ud [])))
                (spread p [])))"
proof -
  have d1: "docs db1 = docs db"
    using got fetchById_docs [of "''products''" options db] by (simp add: getProduct_def)
  let ?db2 = "db1\<lparr>trace := trace db1 @ [GetDoc ''upsells'' u]\<rparr>"
  have d2: "docs ?db2 = docs db" by (simp add: d1)
  have ok2: "list_all (resolvable ?db2) items"
    using ok by (simp add: resolvable_docs [OF d2])
  show ?thesis
    using got upsell stored
    by (simp add: getProductWithUpsell_def truthy_def docRef_def getDoc_def d1
          resolveUpsell_resolvable [OF items ok2] productAt_docs [OF d2])
qed

text \<open>
  C9. \<open>getProductWithUpsell\<close> returns what \<open>getProduct\<close> returns when that is \<open>null\<close> or a
  product without a (truthy) \<open>upsell\<close> field, and the plain product when the referenced
  upsell document is not stored. When the upsell is stored and its items are well-formed
  references, the call returns the product with only its \<open>upsell\<close> entry replaced;
  the resolved \<open>products\<close> list holds one entry for each item whose product document
  exists, in order, and none for the others; no error is raised.
\<close>

theorem getProductWithUpsell_absences:
  assumes got: "getProduct options db = (Inr product, db1)"
  shows "(product = Null \<longrightarrow> getProductWithUpsell options db = (Inr Null, db1))
    \<and> (\<forall>p. product = Obj p \<and> \<not> truthy (getOwn p ''upsell'') \<longrightarrow>
          getProductWithUpsell options db = (Inr product, db1))
    \<and> (\<forall>p u. product = Obj p \<and> getOwn p ''upsell'' = Str u \<and> u \<noteq> []
             \<and> map_of (docs db ''upsells'') u = None \<longrightarrow>
          fst (getProductWithUpsell options db) = Inr product)
    \<and> (\<forall>p u ud items.
          product = Obj p \<and> getOwn p ''upsell'' = Str u \<and> u \<noteq> []
          \<and> map_of (docs db ''upsells'') u = Some ud
          \<and> getOwn ud ''products'' = Arr items \<and> list_all (resolvable db) items \<longrightarrow>
          (\<exists>r ur. fst (getProductWithUpsell options db) = Inr (Obj r)
             \<and> (\<forall>k. k \<noteq> ''upsell'' \<longrightarrow> map_of r k = map_of p k)
             \<and> map_of r ''upsell'' = Some (Obj ur)
             \<and> map_of ur ''products'' =
                 Some (Arr (List.map_filter
                              (\<lambda>item. map_option (snapshotOf item) (productAt db item)) items))))"
proof (intro conjI allI impI)
  assume "product = Null"
  with got show "getProductWithUpsell options db = (Inr Null, db1)"
    by (simp add: getProductWithUpsell_def)
next
  fix p assume "product = Obj p \<and> \<not> truthy (getOwn p ''upsell'')"
  with got show "getProductWithUpsell options db = (Inr product, db1)"
    by (simp add: getProductWithUpsell_def)
next
  fix p u
  assume a: "product = Obj p \<and> getOwn p ''upsell'' = Str u \<and> u \<noteq> []
             \<and> map_of (docs db ''upsells'') u = None"
  have "docs db1 = docs db"
    using got fetchById_docs [of "''products''" options db] by (simp add: getProduct_def)
  with got a show "fst (getProductWithUpsell options db) = Inr product"
    by (simp add: getProductWithUpsell_def truthy_def docRef_def getDoc_def)
next
  fix p u ud items
  assume a: "product = Obj p \<and> getOwn p ''upsell'' = Str u \<and> u \<noteq> []
          \<and> map_of (docs db ''upsells'') u = Some ud
          \<and> getOwn ud ''products'' = Arr items \<and> list_all (resolvable db) items"
  let ?rs = "List.map_filter (\<lambda>item. map_option (snapshotOf item) (productAt db item)) items"
  let ?ur = "AList.update ''products'' (Arr ?rs) (spread ud [])"
  let ?r = "AList.update ''upsell'' (Obj ?ur) (spread p [])"
  have dp: "distinct (keys p)"
    using got a fetchById_distinct [of "''products''" options db p db1]
    by (simp add: getProduct_def)
  have res: "fst (getProductWithUpsell options db) = Inr (Obj ?r)"
    using getProductWithUpsell_resolved [of options db p db1 u ud items] got a by simp
  have "\<forall>k. k \<noteq> ''upsell'' \<longrightarrow> map_of ?r k = map_of p k"
    by (simp add: AList.update_conv' map_of_spread [OF dp])
  moreover have "map_of ?r ''upsell'' = Some (Obj ?ur)" by (simp add: AList.update_conv')
  moreover have "map_of ?ur ''products'' = Some (Arr ?rs)" by (simp add: AList.update_conv')
  ultimately show "\<exists>r ur. fst (getProductWithUpsell options db) = Inr (Obj r)
             \<and> (\<forall>k. k \<noteq> ''upsell'' \<longrightarrow> map_of r k = map_of p k)
             \<and> map_of r ''upsell'' = Some (Obj ur)
             \<and> map_of ur ''products'' = Some (Arr ?rs)"
    using res by blast
qed

lemma catalog_parts:
  "docs catalog ''products'' = [(''P'', shirt), (''A'', cap), (''Q'', plain), (''R'', orphan)]"
  "docs catalog ''upsells'' = [(''U'', pair_offer)]"
  "docs catalog ''collections'' = [(''S'', summer), (''W'', winter)]"
  "trace catalog = []"
  by (simp_all add: catalog_def)

lemma sanitizeSingle_id_only:
  "sanitizeSingleItemOptions (Obj [(''id'', Str s)]) = Inr \<lparr>sid = trim s, sfields = []\<rparr>"
  by (simp add: sanitizeSingleItemOptions_def getp_def getOwn_def filterStrings_def)

theorem getProductWithUpsell_absences_witness:
  "fst (getProductWithUpsell (Obj [(''id'', Str ''Z'')]) catalog) = Inr Null
   \<and> fst (getProductWithUpsell (Obj [(''id'', Str ''Q'')]) catalog) = Inr (Obj ((''id'', Str ''Q'') # plain))
   \<and> fst (getProductWithUpsell (Obj [(''id'', Str ''R'')]) catalog) = Inr (Obj ((''id'', Str ''R'') # orphan))
   \<and> (\<exists>r ur. fst (getProductWithUpsell (Obj [(''id'', Str ''P'')]) catalog) = Inr (Obj r)
         \<and> map_of r ''name'' = Some (Str ''Shirt'')
         \<and> map_of r ''upsell'' = Some (Obj ur)
         \<and> map_of ur ''products'' =
              Some (Arr [Obj [(''index'', Num 0), (''name'', Str ''Old''), (''id'', Str ''A''),
                              (''slug'', Str ''new-slug''), (''mainImage'', Str ''new.png''),
                              (''basePrice'', Num 2)]]))"
proof -
  have tr: "trim ''Z'' = ''Z''" "trim ''Q'' = ''Q''" "trim ''R'' = ''R''" "trim ''P'' = ''P''"
    by (simp_all add: trim_def isSpace_def)
  let ?t = "\<lambda>i. catalog\<lparr>trace := [GetDoc ''products'' i]\<rparr>"
  have gZ: "getProduct (Obj [(''id'', Str ''Z'')]) catalog = (Inr Null, ?t ''Z'')"
    by (simp add: getProduct_def fetchById_def sanitizeSingle_id_only tr docRef_def getDoc_def
          catalog_parts)
  have gQ: "getProduct (Obj [(''id'', Str ''Q'')]) catalog = (Inr (Obj ((''id'', Str ''Q'') # plain)), ?t ''Q'')"
    by (simp add: getProduct_def fetchById_def sanitizeSingle_id_only tr docRef_def getDoc_def
          catalog_parts project_def spread_def plain_def)
  have gR: "getProduct (Obj [(''id'', Str ''R'')]) catalog = (Inr (Obj ((''id'', Str ''R'') # orphan)), ?t ''R'')"
    by (simp add: getProduct_def fetchById_def sanitizeSingle_id_only tr docRef_def getDoc_def
          catalog_parts project_def spread_def orphan_def)
  have gP: "getProduct (Obj [(''id'', Str ''P'')]) catalog = (Inr (Obj shirt), ?t ''P'')"
    by (simp add: getProduct_def fetchById_def sanitizeSingle_id_only tr docRef_def getDoc_def
          catalog_parts project_def spread_def shirt_def)
  have 1: "fst (getProductWithUpsell (Obj [(''id'', Str ''Z'')]) catalog) = Inr Null"
    using getProductWithUpsell_absences [OF gZ] by simp
  have "\<not> truthy (getOwn ((''id'', Str ''Q'') # plain) ''upsell'')"
    by (simp add: truthy_def getOwn_def plain_def)
  then have 2: "fst (getProductWithUpsell (Obj [(''id'', Str ''Q'')]) catalog)
                 = Inr (Obj ((''id'', Str ''Q'') # plain))"
    using getProductWithUpsell_absences [OF gQ] by simp
  have "getOwn ((''id'', Str ''R'') # orphan) ''upsell'' = Str ''gone''"
       "map_of (docs catalog ''upsells'') ''gone'' = None"
    by (simp_all add: getOwn_def orphan_def catalog_parts)
  then have 3: "fst (getProductWithUpsell (Obj [(''id'', Str ''R'')]) catalog)
                 = Inr (Obj ((''id'', Str ''R'') # orphan))"
    using getProductWithUpsell_absences [OF gR] by simp
  let ?b = "Obj [(''index'', Num 1), (''id'', Str ''B''), (''name'', Str ''Gone''),
                 (''slug'', Str ''gone''), (''mainImage'', Str ''gone.png''), (''basePrice'', Num 5)]"
  let ?a = "Obj [(''index'', Num 0), (''id'', Str ''A''), (''name'', Str ''Old''),
                 (''slug'', Str ''old-slug''), (''mainImage'', Str ''old.png''), (''basePrice'', Num 1)]"
  have pb: "productAt catalog ?b = None" and pa: "productAt catalog ?a = Some cap"
    by (simp_all add: productAt_def refId_def field_def getp_def getOwn_def strOf_def catalog_parts)
  have h: "getOwn shirt ''upsell'' = Str ''U''" "''U'' \<noteq> []"
      "map_of (docs catalog ''upsells'') ''U'' = Some pair_offer"
      "getOwn pair_offer ''products'' = Arr [?b, ?a]"
    by (simp_all add: getOwn_def shirt_def catalog_parts pair_offer_def)
  have ok: "list_all (resolvable catalog) [?b, ?a]"
    by (simp add: resolvable_def pa pb) (simp add: refOk_def getOwn_def productOk_def nullish_def cap_def)
  have snap: "List.map_filter (\<lambda>item. map_option (snapshotOf item) (productAt catalog item)) [?b, ?a]
      = [Obj [(''index'', Num 0), (''name'', Str ''Old''), (''id'', Str ''A''),
              (''slug'', Str ''new-slug''), (''mainImage'', Str ''new.png''),
              (''basePrice'', Num 2)]]"
    by (simp add: List.map_filter_simps pa pb) (simp add: snapshotOf_def field_def getp_def getOwn_def cap_def)
  have nm: "map_of shirt ''name'' = Some (Str ''Shirt'')" by (simp add: shirt_def)
  have H: "Obj shirt = Obj shirt \<and> getOwn shirt ''upsell'' = Str ''U'' \<and> ''U'' \<noteq> []
          \<and> map_of (docs catalog ''upsells'') ''U'' = Some pair_offer
          \<and> getOwn pair_offer ''products'' = Arr [?b, ?a] \<and> list_all (resolvable catalog) [?b, ?a]"
    using h ok by simp
  note A = getProductWithUpsell_absences [OF gP, THEN conjunct2, THEN conjunct2, THEN conjunct2]
  from A [THEN spec, THEN spec, THEN spec, THEN spec, THEN mp, OF H]
  obtain r ur where r: "fst (getProductWithUpsell (Obj [(''id'', Str ''P'')]) catalog) = Inr (Obj r)"
      "\<forall>k. k \<noteq> ''upsell'' \<longrightarrow> map_of r k = map_of shirt k"
      "map_of r ''upsell'' = Some (Obj ur)"
      "map_of ur ''products'' =
         Some (Arr (List.map_filter (\<lambda>item. map_option (snapshotOf item) (productAt catalog item)) [?b, ?a]))"
    by blast
  have "map_of r ''name'' = Some (Str ''Shirt'')" using r(2) nm by simp
  with r(1,3,4) have 4: "\<exists>r ur. fst (getProductWithUpsell (Obj [(''id'', Str ''P'')]) catalog) = Inr (Obj r)
         \<and> map_of r ''name'' = Some (Str ''Shirt'')
         \<and> map_of r ''upsell'' = Some (Obj ur)
         \<and> map_of ur ''products'' =
              Some (Arr [Obj [(''index'', Num 0), (''name'', Str ''Old''), (''id'', Str ''A''),
                              (''slug'', Str ''new-slug''), (''mainImage'', Str ''new.png''),
                              (''basePrice'', Num 2)]])"
    unfolding snap by blast
  from 1 2 3 4 show ?thesis by blast
qed

section \<open>Where the resolved snapshot fields come from\<close>

lemma snapshotOf_fields:
  "field (snapshotOf item pd) ''index'' = field item ''index''"
  "field (snapshotOf item pd) ''name'' = field item ''name''"
  "field (snapshotOf item pd) ''id'' = getOwn pd ''id''"
  "field (snapshotOf item pd) ''slug'' = getOwn pd ''slug''"
  "field (snapshotOf item pd) ''mainImage'' = field (getOwn pd ''images'') ''main''"
  "field (snapshotOf item pd) ''basePrice'' = field (getOwn pd ''pricing'') ''basePrice''"
  by (simp_all add: snapshotOf_def field_def getp_def getOwn_def)

lemma map_filter_snapshots:
  "list_all2 (\<lambda>item e. \<exists>pd. productAt db item = Some pd \<and> e = snapshotOf item pd)
     (filter (\<lambda>item. productAt db item \<noteq> None) items)
     (List.map_filter (\<lambda>item. map_option (snapshotOf item) (productAt db item)) items)"
  by (induction items) (auto simp: List.map_filter_simps)

text \<open>
  C4 (as amended). In the resolved upsell of \<open>getProductWithUpsell\<close>, the entries of
  \<open>products\<close> correspond, in order, to the upsell's items whose product document is stored.
  Each entry takes \<open>id\<close>, \<open>slug\<close>, \<open>mainImage\<close> (the product's \<open>images.main\<close>) and
  \<open>basePrice\<close> (the product's \<open>pricing.basePrice\<close>) from the product document as stored
  at the time of the call, and takes \<open>index\<close> and \<open>name\<close> from the item stored inside the
  upsell document.
\<close>

theorem getProductWithUpsell_snapshot_sources:
  assumes got: "getProduct options db = (Inr (Obj p), db1)"
    and upsell: "getOwn p ''upsell'' = Str u" "u \<noteq> []"
    and stored: "map_of (docs db ''upsells'') u = Some ud"
    and items: "getOwn ud ''products'' = Arr items"
    and ok: "list_all (resolvable db) items"
  shows "\<exists>r ur rs. fst (getProductWithUpsell options db) = Inr (Obj r)
     \<and> map_of r ''upsell'' = Some (Obj ur)
     \<and> map_of ur ''products'' = Some (Arr rs)
     \<and> list_all2 (\<lambda>item e. \<exists>pd. productAt db item = Some pd
            \<and> field e ''id'' = getOwn pd ''id''
            \<and> field e ''slug'' = getOwn pd ''slug''
            \<and> field e ''mainImage'' = field (getOwn pd ''images'') ''main''
            \<and> field e ''basePrice'' = field (getOwn pd ''pricing'') ''basePrice''
            \<and> field e ''index'' = field item ''index''
            \<and> field e ''name'' = field item ''name'')
          (filter (\<lambda>item. productAt db item \<noteq> None) items) rs"
proof -
  let ?rs = "List.map_filter (\<lambda>item. map_option (snapshotOf item) (productAt db item)) items"
  let ?ur = "AList.update ''products'' (Arr ?rs) (spread ud [])"
  let ?r = "AList.update ''upsell'' (Obj ?ur) (spread p [])"
  have res: "fst (getProductWithUpsell options db) = Inr (Obj ?r)"
    by (rule getProductWithUpsell_resolved [OF got upsell stored items ok])
  have 1: "map_of ?r ''upsell'' = Some (Obj ?ur)" by (simp add: AList.update_conv')
  have 2: "map_of ?ur ''products'' = Some (Arr ?rs)" by (simp add: AList.update_conv')
  have 3: "list_all2 (\<lambda>item e. \<exists>pd. productAt db item = Some pd
            \<and> field e ''id'' = getOwn pd ''id''
            \<and> field e ''slug'' = getOwn pd ''slug''
            \<and> field e ''mainImage'' = field (getOwn pd ''images'') ''main''
            \<and> field e ''basePrice'' = field (getOwn pd ''pricing'') ''basePrice''
            \<and> field e ''index'' = field item ''index''
            \<and> field e ''name'' = field item ''name'')
          (filter (\<lambda>item. productAt db item \<noteq> None) items) ?rs"
    by (rule list_all2_mono [OF map_filter_snapshots]) (auto simp: snapshotOf_fields)
  from res 1 2 3 show ?thesis by blast
qed

theorem getProductWithUpsell_snapshot_sources_witness:
  "\<exists>r ur e. fst (getProductWithUpsell (Obj [(''id'', Str ''P'')]) catalog) = Inr (Obj r)
     \<and> map_of r ''upsell'' = Some (Obj ur)
     \<and> map_of ur ''products'' = Some (Arr [e])
     \<and> field e ''id'' = Str ''A''
     \<and> field e ''slug'' = Str ''new-slug''
     \<and> field e ''mainImage'' = Str ''new.png''
     \<and> field e ''basePrice'' = Num 2
     \<and> field e ''index'' = Num 0
     \<and> field e ''name'' = Str ''Old''"
proof -
  let ?b = "Obj [(''index'', Num 1), (''id'', Str ''B''), (''name'', Str ''Gone''),
                 (''slug'', Str ''gone''), (''mainImage'', Str ''gone.png''), (''basePrice'', Num 5)]"
  let ?a = "Obj [(''index'', Num 0), (''id'', Str ''A''), (''name'', Str ''Old''),
                 (''slug'', Str ''old-slug''), (''mainImage'', Str ''old.png''), (''basePrice'', Num 1)]"
  have gP: "getProduct (Obj [(''id'', Str ''P'')]) catalog
              = (Inr (Obj shirt), catalog\<lparr>trace := [GetDoc ''products'' ''P'']\<rparr>)"
    by (simp add: getProduct_def fetchById_def sanitizeSingle_id_only docRef_def getDoc_def
          catalog_parts project_def spread_def shirt_def trim_def isSpace_def)
  have pb: "productAt catalog ?b = None" and pa: "productAt catalog ?a = Some cap"
    by (simp_all add: productAt_def refId_def field_def getp_def getOwn_def strOf_def catalog_parts)
  have h: "getOwn shirt ''upsell'' = Str ''U''" "''U'' \<noteq> []"
      "map_of (docs catalog ''upsells'') ''U'' = Some pair_offer"
      "getOwn pair_offer ''products'' = Arr [?b, ?a]"
    by (simp_all add: getOwn_def shirt_def catalog_parts pair_offer_def)
  have ok: "list_all (resolvable catalog) [?b, ?a]"
    by (simp add: resolvable_def pa pb) (simp add: refOk_def getOwn_def productOk_def nullish_def cap_def)
  have flt: "filter (\<lambda>item. productAt catalog item \<noteq> None) [?b, ?a] = [?a]"
    by (simp add: pa pb)
  from getProductWithUpsell_snapshot_sources [OF gP h ok]
  obtain r ur e where r: "fst (getProductWithUpsell (Obj [(''id'', Str ''P'')]) catalog) = Inr (Obj r)"
      "map_of r ''upsell'' = Some (Obj ur)" "map_of ur ''products'' = Some (Arr [e])"
    and e: "field e ''id'' = getOwn cap ''id''"
      "field e ''slug'' = getOwn cap ''slug''"
      "field e ''mainImage'' = field (getOwn cap ''images'') ''main''"
      "field e ''basePrice'' = field (getOwn cap ''pricing'') ''basePrice''"
      "field e ''index'' = field ?a ''index''"
      "field e ''name'' = field ?a ''name''"
    unfolding flt by (auto simp: list_all2_Cons1 pa)
  have v: "getOwn cap ''id'' = Str ''A''" "getOwn cap ''slug'' = Str ''new-slug''"
      "field (getOwn cap ''images'') ''main'' = Str ''new.png''"
      "field (getOwn cap ''pricing'') ''basePrice'' = Num 2"
      "field ?a ''index'' = Num 0" "field ?a ''name'' = Str ''Old''"
    by (simp_all add: cap_def getOwn_def field_def getp_def)
  from r e show ?thesis unfolding v by blast
qed

text \<open>
  C4 as stated fails for \<open>name\<close>: product \<open>A\<close> is stored with the name \<open>New\<close>, the upsell's
  item for it carries the name \<open>Old\<close>, and the resolved entry says \<open>Old\<close>.
\<close>

theorem getProductWithUpsell_name_from_upsell:
  "getOwn cap ''name'' = Str ''New''
   \<and> fst (getProductWithUpsell (Obj [(''id'', Str ''P'')]) catalog) =
     Inr (Obj [(''id'', Str ''P''), (''name'', Str ''Shirt''), (''slug'', Str ''shirt''),
               (''upsell'',
                Obj [(''visibility'', Str ''PUBLISHED''), (''updatedAt'', Str ''2024-01-05''),
                     (''products'',
                      Arr [Obj [(''index'', Num 0), (''name'', Str ''Old''), (''id'', Str ''A''),
                                (''slug'', Str ''new-slug''), (''mainImage'', Str ''new.png''),
                                (''basePrice'', Num 2)]])]),
               (''images'', Obj [(''main'', Str ''p.png'')]),
               (''pricing'', Obj [(''basePrice'', Num 10)]),
               (''updatedAt'', Str ''2024-01-02''), (''visibility'', Str ''PUBLISHED'')])"
  by (simp add: getProductWithUpsell_def getProduct_def fetchById_def sanitizeSingle_id_only
        docRef_def getDoc_def catalog_parts project_def trim_def isSpace_def
        truthy_def resolveUpsell_def itemRef_def upsellItem_def getp_def getOwn_def
        spread_def shirt_def cap_def pair_offer_def)

section \<open>Sorting is a rearrangement\<close>

lemma mset_insertBy: "mset (insertBy cmp x xs) = add_mset x (mset xs)"
  by (induction xs) simp_all

lemma mset_arraySort: "mset (arraySort cmp xs) = mset xs"
  unfolding arraySort_def by (induction xs) (simp_all add: mset_insertBy)

lemma insertBy_map:
  "insertBy cmp (f x) (map f ys) = map f (insertBy (\<lambda>a b. cmp (f a) (f b)) x ys)"
  by (induction ys) simp_all

lemma arraySort_map:
  "arraySort cmp (map f xs) = map f (arraySort (\<lambda>a b. cmp (f a) (f b)) xs)"
  unfolding arraySort_def by (induction xs) (simp_all add: insertBy_map)

lemma arraySort_rows:
  "\<exists>ds. mset ds = mset xs \<and> arraySort cmp (map f xs) = map f ds"
  using arraySort_map [of cmp f xs] mset_arraySort by blast

lemma sortItems_rows:
  "\<exists>ds. mset ds = mset xs \<and> sortItems rt (map f xs) key isDate = map f ds"
  unfolding sortItems_def by (rule arraySort_rows)

section \<open>The list fetches on well-formed documents\<close>

lemma mapE_Inr: "(\<And>x. x \<in> set xs \<Longrightarrow> f x = Inr (g x)) \<Longrightarrow> mapE f xs = Inr (map g xs)"
  by (induction xs) simp_all

lemma productRow_plain:
  "fs \<noteq> [] \<longrightarrow> ''hasOwnProperty'' \<notin> set (keys (snd d)) \<Longrightarrow>
   productRow fs d = Inr (productRowOf fs d)"
  by (simp add: productRow_def productRowOf_def project_ok)

lemma productList_plain:
  assumes "snapshot \<noteq> []"
    and "\<And>d. d \<in> set snapshot \<Longrightarrow> fs \<noteq> [] \<longrightarrow> ''hasOwnProperty'' \<notin> set (keys (snd d))"
  shows "productList rt fs (snapshot, db1) =
    (Inr (Arr (map Obj (sortItems rt (map (productRowOf fs) snapshot) ''updatedAt'' True))), db1)"
  using assms by (simp add: productList_def mapE_Inr [where g = "productRowOf fs"] productRow_plain)

lemma map_of_productRowOf:
  assumes "distinct (keys (snd d))"
  shows "map_of (productRowOf fs d) =
     ([''id'' \<mapsto> Str (fst d)] ++ requested fs (snd d))
       (''updatedAt'' \<mapsto> getOwn (snd d) ''updatedAt'', ''visibility'' \<mapsto> getOwn (snd d) ''visibility'')"
  by (simp add: productRowOf_def AList.update_conv' map_of_projected [OF assms])

lemma storedRefs_cases:
  assumes "storedRefs data = Some refs"
  shows "(getOwn data ''products'' = Arr refs \<and> list_all refOk refs)
       \<or> (\<not> truthy (getOwn data ''products'') \<and> refs = [])"
  using assms by (auto simp: storedRefs_def truthy_def split: jsval.splits if_splits)

lemma mergeRef_refOk:
  "refOk item \<Longrightarrow> mergeRef item (Inr (productAt db item)) = Inr (expandOf db item)"
  by (simp add: mergeRef_def expandOf_def refOk_field)

lemma expand_all:
  assumes ok: "list_all refOk refs"
  shows "issueAll (map itemRef refs) db =
           (map (\<lambda>item. Inr (productAt db item)) refs,
            db\<lparr>trace := trace db @ map (\<lambda>item. GetDoc ''products'' (refId item)) refs\<rparr>)"
    and "promiseAll (map2 mergeRef refs (map (\<lambda>item. Inr (productAt db item)) refs))
           = Inr (map (expandOf db) refs)"
proof -
  have refs: "map itemRef refs = map (\<lambda>item. Inr (''products'', refId item)) refs"
    using ok by (intro map_cong) (auto simp: list_all_iff refOk_itemRef)
  show "issueAll (map itemRef refs) db =
           (map (\<lambda>item. Inr (productAt db item)) refs,
            db\<lparr>trace := trace db @ map (\<lambda>item. GetDoc ''products'' (refId item)) refs\<rparr>)"
    by (simp add: issueAll_spec refs productAt_def comp_def)
  have "map2 mergeRef refs (map (\<lambda>item. Inr (productAt db item)) refs)
          = map (\<lambda>item. Inr (expandOf db item)) refs"
    unfolding map2_same using ok by (intro map_cong) (auto simp: list_all_iff mergeRef_refOk)
  then show "promiseAll (map2 mergeRef refs (map (\<lambda>item. Inr (productAt db item)) refs))
           = Inr (map (expandOf db) refs)"
    by (simp add: promiseAll_Inr)
qed

lemma collectionRow_plain:
  assumes shadow: "''hasOwnProperty'' \<notin> set (keys (snd d))"
    and refs: "''products'' \<in> set fs \<longrightarrow> storedRefs (snd d) \<noteq> None"
  shows "fst (collectionRow fs d db) = Inr (collectionRowOf db fs d)
       \<and> docs (snd (collectionRow fs d db)) = docs db"
proof (cases "''products'' \<in> set fs")
  case False
  then show ?thesis
    by (simp add: collectionRow_def collectionRowOf_def selectLoop_pick [OF shadow])
next
  case True
  with refs obtain rs where rs: "storedRefs (snd d) = Some rs" by auto
  then have ro: "refsOf (snd d) = rs" by (simp add: refsOf_def)
  from storedRefs_cases [OF rs] show ?thesis
  proof
    assume a: "getOwn (snd d) ''products'' = Arr rs \<and> list_all refOk rs"
    then have t: "truthy (getOwn (snd d) ''products'')" by (simp add: truthy_def)
    from a have ok: "list_all refOk rs" by simp
    show ?thesis
      using True a t
      by (simp add: collectionRow_def collectionRowOf_def selectLoop_pick [OF shadow] ro
            expand_all [OF ok])
  next
    assume a: "\<not> truthy (getOwn (snd d) ''products'') \<and> rs = []"
    then show ?thesis
      using True
      by (simp add: collectionRow_def collectionRowOf_def selectLoop_pick [OF shadow] ro)
  qed
qed

lemma expandOf_docs:
  assumes "docs db' = docs db"
  shows "expandOf db' = expandOf db"
  by (intro ext) (simp add: expandOf_def productAt_docs [OF assms])

lemma collectionRowOf_docs:
  assumes "docs db' = docs db"
  shows "collectionRowOf db' = collectionRowOf db"
  by (intro ext) (simp add: collectionRowOf_def expandOf_docs [OF assms])

lemma collectAll_plain:
  assumes "\<And>d. d \<in> set ds \<Longrightarrow> ''hasOwnProperty'' \<notin> set (keys (snd d))
              \<and> (''products'' \<in> set fs \<longrightarrow> storedRefs (snd d) \<noteq> None)"
  shows "fst (collectAll (collectionRow fs) ds db) = map (\<lambda>d. Inr (collectionRowOf db fs d)) ds
       \<and> docs (snd (collectAll (collectionRow fs) ds db)) = docs db"
  using assms
proof (induction ds arbitrary: db)
  case Nil
  then show ?case by simp
next
  case (Cons d ds)
  obtain r db1 where r: "collectionRow fs d db = (r, db1)" by (cases "collectionRow fs d db")
  have "''hasOwnProperty'' \<notin> set (keys (snd d))"
       "''products'' \<in> set fs \<longrightarrow> storedRefs (snd d) \<noteq> None"
    using Cons.prems [of d] by simp_all
  from collectionRow_plain [OF this, of db] r
  have r1: "r = Inr (collectionRowOf db fs d)" and d1: "docs db1 = docs db" by simp_all
  have ih: "fst (collectAll (collectionRow fs) ds db1) = map (\<lambda>d. Inr (collectionRowOf db1 fs d)) ds
       \<and> docs (snd (collectAll (collectionRow fs) ds db1)) = docs db1"
    by (rule Cons.IH) (simp add: Cons.prems)
  show ?case
    using ih r r1 d1
    by (cases "collectAll (collectionRow fs) ds db1") (simp add: collectionRowOf_docs [OF d1])
qed

lemma getDocs_docs: "docs (snd (getDocs part fs db)) = docs db"
  by (simp add: getDocs_def)

lemma getCollections_plain:
  assumes so: "sanitizeBaseOptions (if options = Undefined then Obj [] else options) = Inr so"
    and snap: "fst (getDocs ''collections'' (visibilityFilter (mvisibility so)) db) = snapshot"
    and ne: "snapshot \<noteq> []"
    and ok: "\<And>d. d \<in> set snapshot \<Longrightarrow> ''hasOwnProperty'' \<notin> set (keys (snd d))
              \<and> (''products'' \<in> set (mfields so) \<longrightarrow> storedRefs (snd d) \<noteq> None)"
  shows "fst (getCollections rt options db) =
    Inr (Arr (map Obj (sortItems rt (map (collectionRowOf db (mfields so)) snapshot) ''index'' False)))"
proof -
  obtain db1 where g: "getDocs ''collections'' (visibilityFilter (mvisibility so)) db = (snapshot, db1)"
    using snap by (cases "getDocs ''collections'' (visibilityFilter (mvisibility so)) db") simp
  have d1: "docs db1 = docs db"
    using getDocs_docs [of "''collections''" "visibilityFilter (mvisibility so)" db] g by simp
  obtain rs db2 where c: "collectAll (collectionRow (mfields so)) snapshot db1 = (rs, db2)"
    by (cases "collectAll (collectionRow (mfields so)) snapshot db1")
  have rs: "rs = map (\<lambda>d. Inr (collectionRowOf db (mfields so) d)) snapshot"
    using collectAll_plain [of snapshot "mfields so" db1, OF ok] c
    by (simp add: collectionRowOf_docs [OF d1])
  show ?thesis
    using so g ne c
    by (simp add: getCollections_def rs promiseAll_Inr)
qed

lemma list_all2_pick: "list_all2 P xs ys \<Longrightarrow> x \<in> set xs \<Longrightarrow> \<exists>y \<in> set ys. P x y"
  by (induction rule: list_all2_induct) auto

lemma list_all2_map_same: "(\<And>x. x \<in> set xs \<Longrightarrow> P x (f x)) \<Longrightarrow> list_all2 P xs (map f xs)"
  by (induction xs) simp_all

lemma getOwn_update_other: "k \<noteq> k' \<Longrightarrow> getOwn (AList.update k' v kvs) k = getOwn kvs k"
  by (simp add: getOwn_def AList.update_conv')

lemma getOwn_update_same: "getOwn (AList.update k v kvs) k = v"
  by (simp add: getOwn_def AList.update_conv')

lemma collectionRowOf_products:
  assumes "''products'' \<in> set fs"
  shows "getOwn (collectionRowOf db fs d) ''products'' = Arr (map (expandOf db) (refsOf (snd d)))"
proof -
  let ?sel = "AList.update ''products'' (Arr (map (expandOf db) (refsOf (snd d)))) (pick fs (snd d) [])"
  have "distinct (keys (pick fs (snd d) []))" by (rule distinct_pick) (simp add: keys_def)
  then have "distinct (keys ?sel)" by (simp add: keys_def AList.distinct_update)
  then have "map_of (spread ?sel [(''id'', Str (fst d))]) ''products''
               = Some (Arr (map (expandOf db) (refsOf (snd d))))"
    by (simp add: map_of_spread AList.update_conv')
  then have "getOwn (spread ?sel [(''id'', Str (fst d))]) ''products''
               = Arr (map (expandOf db) (refsOf (snd d)))"
    by (simp add: getOwn_def)
  with assms show ?thesis
    by (simp add: collectionRowOf_def carried_def getOwn_update_other)
qed

lemma expandOf_cases:
  "(productAt db ref = None \<longrightarrow>
      expandOf db ref = Obj [(''id'', field ref ''id''), (''index'', field ref ''index'')])
   \<and> (\<forall>pd. productAt db ref = Some pd \<and> distinct (keys pd) \<longrightarrow>
         (\<exists>kvs. expandOf db ref = Obj kvs
            \<and> map_of kvs = (map_of pd)(''id'' \<mapsto> field ref ''id'', ''index'' \<mapsto> field ref ''index'')))"
  by (auto simp: expandOf_def spread_def AList.update_conv' map_of_spread [unfolded spread_def])

section \<open>Expansion of collection products\<close>

text \<open>
  C10. When \<open>products\<close> is among the sanitized fields, \<open>getCollections\<close> returns one row
  per stored collection (in sorted order), and the \<open>products\<close> entry of a row holds one
  entry per stored reference, in the stored order. For a reference whose product document
  is not stored the entry is exactly the reference's \<open>id\<close> and \<open>index\<close>; for a reference
  whose product is stored the entry is the whole product document with \<open>id\<close> and \<open>index\<close>
  set from the reference.
\<close>

theorem getCollections_expands_references:
  assumes so: "sanitizeBaseOptions (if options = Undefined then Obj [] else options) = Inr so"
    and req: "''products'' \<in> set (mfields so)"
    and snap: "fst (getDocs ''collections'' (visibilityFilter (mvisibility so)) db) = snapshot"
    and ne: "snapshot \<noteq> []"
    and ok: "list_all (\<lambda>d. ''hasOwnProperty'' \<notin> set (keys (snd d)) \<and> storedRefs (snd d) \<noteq> None) snapshot"
  shows "\<exists>rows ds. fst (getCollections rt options db) = Inr (Arr (map Obj rows))
      \<and> mset ds = mset snapshot
      \<and> list_all2 (\<lambda>d row. \<exists>es. getOwn row ''products'' = Arr es
           \<and> list_all2 (\<lambda>ref e.
                 (productAt db ref = None \<longrightarrow>
                    e = Obj [(''id'', field ref ''id''), (''index'', field ref ''index'')])
               \<and> (\<forall>pd. productAt db ref = Some pd \<and> distinct (keys pd) \<longrightarrow>
                     (\<exists>kvs. e = Obj kvs
                        \<and> map_of kvs = (map_of pd)(''id'' \<mapsto> field ref ''id'',
                                                     ''index'' \<mapsto> field ref ''index''))))
               (refsOf (snd d)) es) ds rows"
proof -
  let ?row = "collectionRowOf db (mfields so)"
  have res: "fst (getCollections rt options db) =
      Inr (Arr (map Obj (sortItems rt (map ?row snapshot) ''index'' False)))"
    using ok by (intro getCollections_plain [OF so snap ne]) (auto simp: list_all_iff)
  obtain ds where ds: "mset ds = mset snapshot"
      "sortItems rt (map ?row snapshot) ''index'' False = map ?row ds"
    using sortItems_rows [of snapshot rt ?row "''index''" False] by blast
  have "list_all2 (\<lambda>d row. \<exists>es. getOwn row ''products'' = Arr es
           \<and> list_all2 (\<lambda>ref e.
                 (productAt db ref = None \<longrightarrow>
                    e = Obj [(''id'', field ref ''id''), (''index'', field ref ''index'')])
               \<and> (\<forall>pd. productAt db ref = Some pd \<and> distinct (keys pd) \<longrightarrow>
                     (\<exists>kvs. e = Obj kvs
                        \<and> map_of kvs = (map_of pd)(''id'' \<mapsto> field ref ''id'',
                                                     ''index'' \<mapsto> field ref ''index''))))
               (refsOf (snd d)) es) ds (map ?row ds)"
  proof (rule list_all2_map_same)
    fix d :: "string \<times> obj"
    have "list_all2 (\<lambda>ref e.
                 (productAt db ref = None \<longrightarrow>
                    e = Obj [(''id'', field ref ''id''), (''index'', field ref ''index'')])
               \<and> (\<forall>pd. productAt db ref = Some pd \<and> distinct (keys pd) \<longrightarrow>
                     (\<exists>kvs. e = Obj kvs
                        \<and> map_of kvs = (map_of pd)(''id'' \<mapsto> field ref ''id'',
                                                     ''index'' \<mapsto> field ref ''index''))))
               (refsOf (snd d)) (map (expandOf db) (refsOf (snd d)))"
      by (rule list_all2_map_same) (rule expandOf_cases)
    then show "\<exists>es. getOwn (?row d) ''products'' = Arr es
           \<and> list_all2 (\<lambda>ref e.
                 (productAt db ref = None \<longrightarrow>
                    e = Obj [(''id'', field ref ''id''), (''index'', field ref ''index'')])
               \<and> (\<forall>pd. productAt db ref = Some pd \<and> distinct (keys pd) \<longrightarrow>
                     (\<exists>kvs. e = Obj kvs
                        \<and> map_of kvs = (map_of pd)(''id'' \<mapsto> field ref ''id'',
                                                     ''index'' \<mapsto> field ref ''index''))))
               (refsOf (snd d)) es"
      unfolding collectionRowOf_products [OF req] by blast
  qed
  with res ds show ?thesis by (metis (no_types, lifting))
qed

lemma sanitizeBase_fields_only:
  "sanitizeBaseOptions (Obj [(''fields'', Arr fs)]) =
     Inr \<lparr>mids = [], mfields = filterStrings (Arr fs), mvisibility = Undefined\<rparr>"
  by (simp add: sanitizeBaseOptions_def getp_def getOwn_def)

lemma getDocs_all: "fst (getDocs part [] db) = docs db part"
  by (simp add: getDocs_def)

theorem getCollections_expands_references_witness:
  "\<exists>rows row kvs.
      fst (getCollections clock (Obj [(''fields'', Arr [Str ''products''])]) catalog)
        = Inr (Arr (map Obj rows))
    \<and> row \<in> set rows
    \<and> getOwn row ''products'' = Arr [Obj [(''id'', Str ''B''), (''index'', Num 0)], Obj kvs]
    \<and> map_of kvs ''name'' = Some (Str ''New'')
    \<and> map_of kvs ''id'' = Some (Str ''A'')
    \<and> map_of kvs ''index'' = Some (Num 1)"
proof -
  let ?o = "Obj [(''fields'', Arr [Str ''products''])]"
  let ?so = "\<lparr>mids = [], mfields = [''products''], mvisibility = Undefined\<rparr>"
  let ?b = "Obj [(''id'', Str ''B''), (''index'', Num 0)]"
  let ?a = "Obj [(''id'', Str ''A''), (''index'', Num 1)]"
  let ?snap = "[(''S'', summer), (''W'', winter)]"
  have so: "sanitizeBaseOptions (if ?o = Undefined then Obj [] else ?o) = Inr ?so"
    by (simp add: sanitizeBase_fields_only filterStrings_def nonBlank_def strOf_def trim_def isSpace_def)
  have req: "''products'' \<in> set (mfields ?so)" by simp
  have snap: "fst (getDocs ''collections'' (visibilityFilter (mvisibility ?so)) catalog) = ?snap"
    by (simp add: visibilityFilter_def truthy_def getDocs_all catalog_parts)
  have ne: "?snap \<noteq> []" by simp
  have refs: "storedRefs summer = Some [?b, ?a]" "storedRefs winter = Some []"
    by (simp_all add: storedRefs_def summer_def winter_def getOwn_def refOk_def)
  have ok: "list_all (\<lambda>d. ''hasOwnProperty'' \<notin> set (keys (snd d)) \<and> storedRefs (snd d) \<noteq> None) ?snap"
    by (simp add: refs) (simp add: keys_def summer_def winter_def)
  have ro: "refsOf summer = [?b, ?a]" by (simp add: refsOf_def refs)
  have pb: "productAt catalog ?b = None" and pa: "productAt catalog ?a = Some cap"
    by (simp_all add: productAt_def refId_def field_def getp_def getOwn_def strOf_def catalog_parts)
  have dc: "distinct (keys cap)" by (simp add: keys_def cap_def)
  have fl: "field ?b ''id'' = Str ''B''" "field ?b ''index'' = Num 0"
      "field ?a ''id'' = Str ''A''" "field ?a ''index'' = Num 1"
    by (simp_all add: field_def getp_def getOwn_def)
  from getCollections_expands_references [OF so req snap ne ok, of clock]
  obtain rows ds where rows: "fst (getCollections clock ?o catalog) = Inr (Arr (map Obj rows))"
    and ds: "mset ds = mset ?snap"
    and all: "list_all2 (\<lambda>d row. \<exists>es. getOwn row ''products'' = Arr es
           \<and> list_all2 (\<lambda>ref e.
                 (productAt catalog ref = None \<longrightarrow>
                    e = Obj [(''id'', field ref ''id''), (''index'', field ref ''index'')])
               \<and> (\<forall>pd. productAt catalog ref = Some pd \<and> distinct (keys pd) \<longrightarrow>
                     (\<exists>kvs. e = Obj kvs
                        \<and> map_of kvs = (map_of pd)(''id'' \<mapsto> field ref ''id'',
                                                     ''index'' \<mapsto> field ref ''index''))))
               (refsOf (snd d)) es) ds rows"
    by blast
  have "(''S'', summer) \<in> set ds"
    using ds by (metis list.set_intros(1) set_mset_mset)
  from list_all2_pick [OF all this]
  obtain row es where row: "row \<in> set rows" "getOwn row ''products'' = Arr es"
    and es: "list_all2 (\<lambda>ref e.
                 (productAt catalog ref = None \<longrightarrow>
                    e = Obj [(''id'', field ref ''id''), (''index'', field ref ''index'')])
               \<and> (\<forall>pd. productAt catalog ref = Some pd \<and> distinct (keys pd) \<longrightarrow>
                     (\<exists>kvs. e = Obj kvs
                        \<and> map_of kvs = (map_of pd)(''id'' \<mapsto> field ref ''id'',
                                                     ''index'' \<mapsto> field ref ''index''))))
               [?b, ?a] es"
    unfolding snd_conv ro by blast
  from es obtain eb ea where e: "es = [eb, ea]"
      "eb = Obj [(''id'', field ?b ''id''), (''index'', field ?b ''index'')]"
      "\<exists>kvs. ea = Obj kvs
          \<and> map_of kvs = (map_of cap)(''id'' \<mapsto> field ?a ''id'', ''index'' \<mapsto> field ?a ''index'')"
    using pa pb dc by (auto simp: list_all2_Cons1)
  then obtain kvs where kvs: "ea = Obj kvs"
      "map_of kvs = (map_of cap)(''id'' \<mapsto> Str ''A'', ''index'' \<mapsto> Num 1)"
    unfolding fl by blast
  have "map_of kvs ''name'' = Some (Str ''New'')" "map_of kvs ''id'' = Some (Str ''A'')"
       "map_of kvs ''index'' = Some (Num 1)"
    by (simp_all add: kvs(2) cap_def)
  with rows row e kvs(1) show ?thesis unfolding fl by blast
qed

section \<open>Sorting by a key\<close>

lemma insertBy_insort:
  assumes "\<And>y. y \<in> set ys \<Longrightarrow> (cmp x y \<le> 0) = (key x \<le> key y)"
  shows "insertBy cmp x ys = insort_key key x ys"
  using assms by (induction ys) simp_all

lemma arraySort_sort_key:
  assumes "\<And>x y. x \<in> set xs \<Longrightarrow> y \<in> set xs \<Longrightarrow> (cmp x y \<le> 0) = (key x \<le> key y)"
  shows "arraySort cmp xs = sort_key key xs"
  using assms
proof (induction xs)
  case Nil
  then show ?case by (simp add: arraySort_def)
next
  case (Cons x xs)
  have ih: "arraySort cmp xs = sort_key key xs" by (rule Cons.IH) (simp add: Cons.prems)
  have "insertBy cmp x (sort_key key xs) = insort_key key x (sort_key key xs)"
    by (rule insertBy_insort) (simp add: Cons.prems)
  with ih show ?case by (simp add: arraySort_def sort_key_def)
qed

lemma sortItems_newest_first:
  assumes "\<And>x. x \<in> set items \<Longrightarrow> dateTime rt (getOwn x ''updatedAt'') \<noteq> None"
  shows "sortItems rt items ''updatedAt'' True = sort_key (\<lambda>x. - timeOf rt x) items"
  unfolding sortItems_def
proof (simp, rule arraySort_sort_key)
  fix x y assume "x \<in> set items" "y \<in> set items"
  then obtain a b where "dateTime rt (getOwn x ''updatedAt'') = Some a"
      "dateTime rt (getOwn y ''updatedAt'') = Some b"
    using assms by (metis not_None_eq)
  then show "(cmpDiff (dateTime rt (getOwn y ''updatedAt'')) (dateTime rt (getOwn x ''updatedAt'')) \<le> 0)
      = (- timeOf rt x \<le> - timeOf rt y)"
    by (simp add: cmpDiff_def timeOf_def)
qed

lemma arraySort_by_index:
  assumes "\<And>x. x \<in> set items \<Longrightarrow> toNumber rt (getOwn x ''index'') \<noteq> None"
  shows "arraySort (\<lambda>a b. cmpDiff (toNumber rt (getOwn a ''index'')) (toNumber rt (getOwn b ''index''))) items
           = sort_key (\<lambda>x. indexOf rt (Obj x)) items"
proof (rule arraySort_sort_key)
  fix x y assume "x \<in> set items" "y \<in> set items"
  then obtain a b where "toNumber rt (getOwn x ''index'') = Some a"
      "toNumber rt (getOwn y ''index'') = Some b"
    using assms by (metis not_None_eq)
  then show "(cmpDiff (toNumber rt (getOwn x ''index'')) (toNumber rt (getOwn y ''index'')) \<le> 0)
      = (indexOf rt (Obj x) \<le> indexOf rt (Obj y))"
    by (simp add: cmpDiff_def indexOf_def field_def getp_def)
qed

lemma sortItems_by_index:
  assumes "\<And>x. x \<in> set items \<Longrightarrow> toNumber rt (getOwn x ''index'') \<noteq> None"
  shows "sortItems rt items ''index'' False = sort_key (\<lambda>x. indexOf rt (Obj x)) items"
  unfolding sortItems_def using arraySort_by_index [OF assms] by simp

lemma newest_first_sorted:
  "sorted_wrt (\<lambda>a b. timeOf rt b \<le> timeOf rt a) (sort_key (\<lambda>x. - timeOf rt x) items)"
  using sorted_sort_key [of "\<lambda>x. - timeOf rt x" items] by (simp add: sorted_map)

lemma by_index_sorted:
  "sorted_wrt (\<lambda>a b. indexOf rt (Obj a) \<le> indexOf rt (Obj b)) (sort_key (\<lambda>x. indexOf rt (Obj x)) items)"
  using sorted_sort_key [of "\<lambda>x. indexOf rt (Obj x)" items] by (simp add: sorted_map)

lemma insertByE_total:
  assumes "\<And>y. y \<in> set ys \<Longrightarrow> cmp x y = Inr (c x y)"
  shows "insertByE cmp x ys = Inr (insertBy c x ys)"
  using assms by (induction ys) simp_all

lemma set_insertBy: "set (insertBy c x ys) = insert x (set ys)"
  by (induction ys) auto

lemma set_arraySort: "set (arraySort c xs) = set xs"
  using mset_arraySort [of c xs] by (metis set_mset_mset)

lemma sortByE_total:
  assumes "\<And>x y. x \<in> set xs \<Longrightarrow> y \<in> set xs \<Longrightarrow> cmp x y = Inr (c x y)"
  shows "sortByE cmp xs = Inr (arraySort c xs)"
  using assms
proof (induction xs)
  case Nil
  then show ?case by (simp add: arraySort_def)
next
  case (Cons x xs)
  have ih: "sortByE cmp xs = Inr (arraySort c xs)" by (rule Cons.IH) (simp add: Cons.prems)
  have "insertByE cmp x (arraySort c xs) = Inr (insertBy c x (arraySort c xs))"
    by (rule insertByE_total) (simp add: Cons.prems set_arraySort)
  with ih show ?case by (simp add: arraySort_def)
qed

lemma indexed_field: "indexed rt v \<Longrightarrow> getp v ''index'' = Inr (field v ''index'')"
  by (cases v) (simp_all add: indexed_def field_def getp_def)

lemma indexed_number: "indexed rt v \<Longrightarrow> toNumber rt (field v ''index'') \<noteq> None"
  by (cases v) (simp_all add: indexed_def field_def getp_def)

lemma arraySortE_by_index:
  assumes "list_all (indexed rt) ps"
  shows "arraySortE (byIndex rt) ps = Inr (sort_key (indexOf rt) ps)"
proof -
  have defined: "filter (\<lambda>v. v \<noteq> Undefined) ps = ps" "filter (\<lambda>v. v = Undefined) ps = []"
    using assms by (auto simp: list_all_iff indexed_def filter_id_conv filter_empty_conv)
  let ?c = "\<lambda>a b. cmpDiff (toNumber rt (field a ''index'')) (toNumber rt (field b ''index''))"
  have "sortByE (byIndex rt) ps = Inr (arraySort ?c ps)"
  proof (rule sortByE_total)
    fix x y assume "x \<in> set ps" "y \<in> set ps"
    with assms have "indexed rt x" "indexed rt y" by (auto simp: list_all_iff)
    then show "byIndex rt x y = Inr (?c x y)"
      by (simp add: byIndex_def indexed_field)
  qed
  moreover have "arraySort ?c ps = sort_key (indexOf rt) ps"
  proof (rule arraySort_sort_key)
    fix x y assume "x \<in> set ps" "y \<in> set ps"
    with assms have "toNumber rt (field x ''index'') \<noteq> None" "toNumber rt (field y ''index'') \<noteq> None"
      by (auto simp: list_all_iff indexed_number)
    then show "(?c x y \<le> 0) = (indexOf rt x \<le> indexOf rt y)"
      by (auto simp: cmpDiff_def indexOf_def)
  qed
  ultimately show ?thesis by (simp add: arraySortE_def defined)
qed

section \<open>Ordered results\<close>

lemma productRowOf_updatedAt: "getOwn (productRowOf fs d) ''updatedAt'' = getOwn (snd d) ''updatedAt''"
  by (simp add: productRowOf_def getOwn_update_other getOwn_update_same)

lemma collectionRowOf_index: "getOwn (collectionRowOf db fs d) ''index'' = getOwn (snd d) ''index''"
  by (simp add: collectionRowOf_def carried_def getOwn_update_other getOwn_update_same)

lemma withId_other:
  "distinct (keys (snd d)) \<Longrightarrow> k \<noteq> ''id'' \<Longrightarrow> getOwn (withId d) k = getOwn (snd d) k"
  by (simp add: withId_def getOwn_def map_of_spread map_add_def split: option.splits)

lemma timeOf_productRowOf: "timeOf rt (productRowOf fs d) = timeOf rt (snd d)"
  by (simp add: timeOf_def productRowOf_updatedAt)

lemma timeOf_withId: "distinct (keys (snd d)) \<Longrightarrow> timeOf rt (withId d) = timeOf rt (snd d)"
  by (simp add: timeOf_def withId_other)

lemma indexOf_Obj: "indexOf rt (Obj kvs) = (case toNumber rt (getOwn kvs ''index'') of Some n \<Rightarrow> n | None \<Rightarrow> 0)"
  by (simp add: indexOf_def field_def getp_def)

lemma indexOf_collectionRowOf: "indexOf rt (Obj (collectionRowOf db fs d)) = indexOf rt (Obj (snd d))"
  by (simp add: indexOf_Obj collectionRowOf_index)

lemma indexOf_withId:
  "distinct (keys (snd d)) \<Longrightarrow> indexOf rt (Obj (withId d)) = indexOf rt (Obj (snd d))"
  by (simp add: indexOf_Obj withId_other)

lemma productList_sorted:
  assumes ne: "snapshot \<noteq> []"
    and ok: "list_all (\<lambda>d. dated rt (snd d)) snapshot"
  shows "\<exists>rows. fst (productList rt fs (snapshot, db1)) = Inr (Arr (map Obj rows))
     \<and> mset (map (timeOf rt) rows) = mset (map (\<lambda>d. timeOf rt (snd d)) snapshot)
     \<and> sorted_wrt (\<lambda>a b. timeOf rt b \<le> timeOf rt a) rows"
proof -
  let ?xs = "map (productRowOf fs) snapshot"
  have res: "productList rt fs (snapshot, db1) =
      (Inr (Arr (map Obj (sortItems rt ?xs ''updatedAt'' True))), db1)"
    using ok by (intro productList_plain [OF ne]) (auto simp: list_all_iff dated_def plainDoc_def)
  have "sortItems rt ?xs ''updatedAt'' True = sort_key (\<lambda>x. - timeOf rt x) ?xs"
    using ok by (intro sortItems_newest_first)
      (auto simp: list_all_iff dated_def productRowOf_updatedAt)
  moreover have "mset (map (timeOf rt) (sort_key (\<lambda>x. - timeOf rt x) ?xs))
      = mset (map (\<lambda>d. timeOf rt (snd d)) snapshot)"
    by (simp add: image_mset.compositionality comp_def timeOf_productRowOf)
  ultimately show ?thesis using res newest_first_sorted [of rt ?xs] by auto
qed

lemma getProducts_sorted:
  assumes so: "sanitizeBaseOptions (if options = Undefined then Obj [] else options) = Inr so"
    and snap: "fst (getDocs ''products'' (visibilityFilter (mvisibility so)) db) = snapshot"
    and ne: "snapshot \<noteq> []"
    and ok: "list_all (\<lambda>d. dated rt (snd d)) snapshot"
  shows "\<exists>rows. fst (getProducts rt options db) = Inr (Arr (map Obj rows))
     \<and> mset (map (timeOf rt) rows) = mset (map (\<lambda>d. timeOf rt (snd d)) snapshot)
     \<and> sorted_wrt (\<lambda>a b. timeOf rt b \<le> timeOf rt a) rows"
proof -
  obtain db1 where g: "getDocs ''products'' (visibilityFilter (mvisibility so)) db = (snapshot, db1)"
    using snap by (cases "getDocs ''products'' (visibilityFilter (mvisibility so)) db") simp
  show ?thesis
    using productList_sorted [OF ne ok, of "mfields so" db1] so g by (simp add: getProducts_def)
qed

lemma getProductsByIds_sorted:
  assumes so: "sanitizeMultiItemOptions options = Inr so"
    and ids: "mids so \<noteq> []"
    and snap: "fst (getDocs ''products'' (WhereNameIn (mids so) # visibilityFilter (mvisibility so)) db) = snapshot"
    and ne: "snapshot \<noteq> []"
    and ok: "list_all (\<lambda>d. dated rt (snd d)) snapshot"
  shows "\<exists>rows. fst (getProductsByIds rt options db) = Inr (Arr (map Obj rows))
     \<and> mset (map (timeOf rt) rows) = mset (map (\<lambda>d. timeOf rt (snd d)) snapshot)
     \<and> sorted_wrt (\<lambda>a b. timeOf rt b \<le> timeOf rt a) rows"
proof -
  obtain db1 where g: "getDocs ''products'' (WhereNameIn (mids so) # visibilityFilter (mvisibility so)) db
      = (snapshot, db1)"
    using snap
    by (cases "getDocs ''products'' (WhereNameIn (mids so) # visibilityFilter (mvisibility so)) db") simp
  show ?thesis
    using productList_sorted [OF ne ok, of "mfields so" db1] so ids g
    by (simp add: getProductsByIds_def)
qed

lemma getUpsells_sorted:
  assumes ok: "list_all (\<lambda>d. dated rt (snd d)) (docs db ''upsells'')"
  shows "\<exists>rows. fst (getUpsells rt db) = Inr (Arr (map Obj rows))
     \<and> mset (map (timeOf rt) rows) = mset (map (\<lambda>d. timeOf rt (snd d)) (docs db ''upsells''))
     \<and> sorted_wrt (\<lambda>a b. timeOf rt b \<le> timeOf rt a) rows"
proof -
  let ?snap = "docs db ''upsells''"
  let ?xs = "map withId ?snap"
  have d: "distinct (keys (snd d))" if "d \<in> set ?snap" for d
    using ok that by (auto simp: list_all_iff dated_def plainDoc_def)
  have res: "fst (getUpsells rt db) = Inr (Arr (map Obj (sortItems rt ?xs ''updatedAt'' True)))"
    by (simp add: getUpsells_def getDocs_def)
  have "sortItems rt ?xs ''updatedAt'' True = sort_key (\<lambda>x. - timeOf rt x) ?xs"
  proof (intro sortItems_newest_first)
    fix x assume "x \<in> set ?xs"
    then obtain e where e: "e \<in> set ?snap" "x = withId e" by auto
    with ok have "dateTime rt (getOwn (snd e) ''updatedAt'') \<noteq> None"
      by (auto simp: list_all_iff dated_def)
    with e d [of e] show "dateTime rt (getOwn x ''updatedAt'') \<noteq> None"
      by (simp add: withId_other)
  qed
  moreover have "mset (map (timeOf rt) (sort_key (\<lambda>x. - timeOf rt x) ?xs))
      = mset (map (\<lambda>d. timeOf rt (snd d)) ?snap)"
  proof -
    have a: "map (timeOf rt) ?xs = map (\<lambda>d. timeOf rt (snd d)) ?snap"
      by (simp add: timeOf_withId d)
    have "mset (map (timeOf rt) (sort_key (\<lambda>x. - timeOf rt x) ?xs)) = mset (map (timeOf rt) ?xs)"
      by (simp only: mset_map mset_sort)
    then show ?thesis unfolding a .
  qed
  ultimately show ?thesis using res newest_first_sorted [of rt ?xs] by auto
qed

lemma getCollections_sorted:
  assumes so: "sanitizeBaseOptions (if options = Undefined then Obj [] else options) = Inr so"
    and snap: "fst (getDocs ''collections'' (visibilityFilter (mvisibility so)) db) = snapshot"
    and ne: "snapshot \<noteq> []"
    and ok: "list_all (\<lambda>d. plainDoc (snd d) \<and> indexed rt (Obj (snd d)) \<and> storedRefs (snd d) \<noteq> None) snapshot"
  shows "\<exists>rows. fst (getCollections rt options db) = Inr (Arr (map Obj rows))
     \<and> mset (map (\<lambda>r. indexOf rt (Obj r)) rows) = mset (map (\<lambda>d. indexOf rt (Obj (snd d))) snapshot)
     \<and> sorted_wrt (\<lambda>a b. indexOf rt (Obj a) \<le> indexOf rt (Obj b)) rows"
proof -
  let ?xs = "map (collectionRowOf db (mfields so)) snapshot"
  have res: "fst (getCollections rt options db) = Inr (Arr (map Obj (sortItems rt ?xs ''index'' False)))"
    using ok by (intro getCollections_plain [OF so snap ne]) (auto simp: list_all_iff plainDoc_def)
  have "sortItems rt ?xs ''index'' False = sort_key (\<lambda>x. indexOf rt (Obj x)) ?xs"
    using ok by (intro sortItems_by_index)
      (auto simp: list_all_iff indexed_def collectionRowOf_index)
  moreover have "mset (map (\<lambda>r. indexOf rt (Obj r)) (sort_key (\<lambda>x. indexOf rt (Obj x)) ?xs))
      = mset (map (\<lambda>d. indexOf rt (Obj (snd d))) snapshot)"
    by (simp add: image_mset.compositionality comp_def indexOf_collectionRowOf)
  ultimately show ?thesis using res by_index_sorted [of rt ?xs] by auto
qed

lemma getCategories_sorted:
  assumes ne: "docs db ''categories'' \<noteq> []"
    and ok: "list_all (\<lambda>d. plainDoc (snd d) \<and> indexed rt (Obj (snd d))) (docs db ''categories'')"
  shows "\<exists>rows. fst (getCategories rt db) = Inr (Arr (map Obj rows))
     \<and> mset (map (\<lambda>r. indexOf rt (Obj r)) rows)
         = mset (map (\<lambda>d. indexOf rt (Obj (snd d))) (docs db ''categories''))
     \<and> sorted_wrt (\<lambda>a b. indexOf rt (Obj a) \<le> indexOf rt (Obj b)) rows"
proof -
  let ?snap = "docs db ''categories''"
  let ?xs = "map withId ?snap"
  let ?c = "\<lambda>a b. cmpDiff (toNumber rt (getOwn a ''index'')) (toNumber rt (getOwn b ''index''))"
  have d: "distinct (keys (snd d))" if "d \<in> set ?snap" for d
    using ok that by (auto simp: list_all_iff plainDoc_def)
  have res: "fst (getCategories rt db) = Inr (Arr (map Obj (arraySort ?c ?xs)))"
    using ne by (simp add: getCategories_def getDocs_def)
  have "arraySort ?c ?xs = sort_key (\<lambda>x. indexOf rt (Obj x)) ?xs"
  proof (intro arraySort_by_index)
    fix x assume "x \<in> set ?xs"
    then obtain e where e: "e \<in> set ?snap" "x = withId e" by auto
    with ok have "toNumber rt (getOwn (snd e) ''index'') \<noteq> None"
      by (auto simp: list_all_iff indexed_def)
    with e d [of e] show "toNumber rt (getOwn x ''index'') \<noteq> None"
      by (simp add: withId_other)
  qed
  moreover have "mset (map (\<lambda>r. indexOf rt (Obj r)) (sort_key (\<lambda>x. indexOf rt (Obj x)) ?xs))
      = mset (map (\<lambda>d. indexOf rt (Obj (snd d))) ?snap)"
  proof -
    have a: "map (\<lambda>r. indexOf rt (Obj r)) ?xs = map (\<lambda>d. indexOf rt (Obj (snd d))) ?snap"
      by (simp add: indexOf_withId d)
    have "mset (map (\<lambda>r. indexOf rt (Obj r)) (sort_key (\<lambda>x. indexOf rt (Obj x)) ?xs))
        = mset (map (\<lambda>r. indexOf rt (Obj r)) ?xs)"
      by (simp only: mset_map mset_sort)
    then show ?thesis unfolding a .
  qed
  ultimately show ?thesis using res by_index_sorted [of rt ?xs] by auto
qed

lemma getUpsell_sorted:
  assumes i: "getp options ''id'' = Inr (Str i)" "i \<noteq> []"
    and stored: "map_of (docs db ''upsells'') i = Some data"
    and ps: "getOwn data ''products'' = Arr ps"
    and ok: "list_all (indexed rt) ps"
  shows "\<exists>r sorted. fst (getUpsell rt options db) = Inr (Obj r)
     \<and> getOwn r ''products'' = Arr sorted
     \<and> mset sorted = mset ps
     \<and> sorted_wrt (\<lambda>a b. indexOf rt a \<le> indexOf rt b) sorted
     \<and> (\<forall>k. filter (\<lambda>e. indexOf rt e = k) sorted = filter (\<lambda>e. indexOf rt e = k) ps)"
proof -
  let ?s = "sort_key (indexOf rt) ps"
  have "fst (getUpsell rt options db) =
      Inr (Obj (AList.update ''products'' (Arr ?s) (spread data [(''id'', Str i)])))"
    using i stored ps
    by (simp add: getUpsell_def docRef_def getDoc_def truthy_def spreadIterable_def
          arraySortE_by_index [OF ok])
  moreover have "sorted_wrt (\<lambda>a b. indexOf rt a \<le> indexOf rt b) ?s"
    using sorted_sort_key [of "indexOf rt" ps] by (simp add: sorted_map)
  moreover have "\<forall>k. filter (\<lambda>e. indexOf rt e = k) ?s = filter (\<lambda>e. indexOf rt e = k) ps"
    by (simp add: sort_key_stable)
  ultimately show ?thesis by (auto simp: getOwn_update_same)
qed

text \<open>
  C7. On stored documents whose sort key is readable (\<open>updatedAt\<close> a date, \<open>index\<close> a
  number) every list result is ordered: \<open>getProducts\<close>, \<open>getProductsByIds\<close> and
  \<open>getUpsells\<close> return their rows newest first by \<open>updatedAt\<close>; \<open>getCollections\<close> and
  \<open>getCategories\<close> return theirs by ascending \<open>index\<close>; and \<open>getUpsell\<close> returns its
  \<open>products\<close> by ascending \<open>index\<close>, entries of equal index keeping their stored order.
  In each case the result is a rearrangement of what the store returned.
\<close>

theorem list_results_are_sorted:
  "(\<forall>so snapshot.
      sanitizeBaseOptions (if options = Undefined then Obj [] else options) = Inr so
      \<and> fst (getDocs ''products'' (visibilityFilter (mvisibility so)) db) = snapshot
      \<and> snapshot \<noteq> [] \<and> list_all (\<lambda>d. dated rt (snd d)) snapshot \<longrightarrow>
      (\<exists>rows. fst (getProducts rt options db) = Inr (Arr (map Obj rows))
         \<and> mset (map (timeOf rt) rows) = mset (map (\<lambda>d. timeOf rt (snd d)) snapshot)
         \<and> sorted_wrt (\<lambda>a b. timeOf rt b \<le> timeOf rt a) rows))
   \<and> (\<forall>so snapshot.
      sanitizeMultiItemOptions options = Inr so \<and> mids so \<noteq> []
      \<and> fst (getDocs ''products'' (WhereNameIn (mids so) # visibilityFilter (mvisibility so)) db) = snapshot
      \<and> snapshot \<noteq> [] \<and> list_all (\<lambda>d. dated rt (snd d)) snapshot \<longrightarrow>
      (\<exists>rows. fst (getProductsByIds rt options db) = Inr (Arr (map Obj rows))
         \<and> mset (map (timeOf rt) rows) = mset (map (\<lambda>d. timeOf rt (snd d)) snapshot)
         \<and> sorted_wrt (\<lambda>a b. timeOf rt b \<le> timeOf rt a) rows))
   \<and> (list_all (\<lambda>d. dated rt (snd d)) (docs db ''upsells'') \<longrightarrow>
      (\<exists>rows. fst (getUpsells rt db) = Inr (Arr (map Obj rows))
         \<and> mset (map (timeOf rt) rows) = mset (map (\<lambda>d. timeOf rt (snd d)) (docs db ''upsells''))
         \<and> sorted_wrt (\<lambda>a b. timeOf rt b \<le> timeOf rt a) rows))
   \<and> (\<forall>so snapshot.
      sanitizeBaseOptions (if options = Undefined then Obj [] else options) = Inr so
      \<and> fst (getDocs ''collections'' (visibilityFilter (mvisibility so)) db) = snapshot
      \<and> snapshot \<noteq> []
      \<and> list_all (\<lambda>d. plainDoc (snd d) \<and> indexed rt (Obj (snd d)) \<and> storedRefs (snd d) \<noteq> None) snapshot \<longrightarrow>
      (\<exists>rows. fst (getCollections rt options db) = Inr (Arr (map Obj rows))
         \<and> mset (map (\<lambda>r. indexOf rt (Obj r)) rows) = mset (map (\<lambda>d. indexOf rt (Obj (snd d))) snapshot)
         \<and> sorted_wrt (\<lambda>a b. indexOf rt (Obj a) \<le> indexOf rt (Obj b)) rows))
   \<and> (docs db ''categories'' \<noteq> []
      \<and> list_all (\<lambda>d. plainDoc (snd d) \<and> indexed rt (Obj (snd d))) (docs db ''categories'') \<longrightarrow>
      (\<exists>rows. fst (getCategories rt db) = Inr (Arr (map Obj rows))
         \<and> mset (map (\<lambda>r. indexOf rt (Obj r)) rows)
             = mset (map (\<lambda>d. indexOf rt (Obj (snd d))) (docs db ''categories''))
         \<and> sorted_wrt (\<lambda>a b. indexOf rt (Obj a) \<le> indexOf rt (Obj b)) rows))
   \<and> (\<forall>i data ps.
      getp options ''id'' = Inr (Str i) \<and> i \<noteq> []
      \<and> map_of (docs db ''upsells'') i = Some data
      \<and> getOwn data ''products'' = Arr ps \<and> list_all (indexed rt) ps \<longrightarrow>
      (\<exists>r sorted. fst (getUpsell rt options db) = Inr (Obj r)
         \<and> getOwn r ''products'' = Arr sorted
         \<and> mset sorted = mset ps
         \<and> sorted_wrt (\<lambda>a b. indexOf rt a \<le> indexOf rt b) sorted
         \<and> (\<forall>k. filter (\<lambda>e. indexOf rt e = k) sorted = filter (\<lambda>e. indexOf rt e = k) ps)))"
proof (intro conjI allI impI)
  fix so snapshot
  assume "sanitizeBaseOptions (if options = Undefined then Obj [] else options) = Inr so
      \<and> fst (getDocs ''products'' (visibilityFilter (mvisibility so)) db) = snapshot
      \<and> snapshot \<noteq> [] \<and> list_all (\<lambda>d. dated rt (snd d)) snapshot"
  then show "\<exists>rows. fst (getProducts rt options db) = Inr (Arr (map Obj rows))
         \<and> mset (map (timeOf rt) rows) = mset (map (\<lambda>d. timeOf rt (snd d)) snapshot)
         \<and> sorted_wrt (\<lambda>a b. timeOf rt b \<le> timeOf rt a) rows"
    by (elim conjE) (rule getProducts_sorted)
next
  fix so snapshot
  assume "sanitizeMultiItemOptions options = Inr so \<and> mids so \<noteq> []
      \<and> fst (getDocs ''products'' (WhereNameIn (mids so) # visibilityFilter (mvisibility so)) db) = snapshot
      \<and> snapshot \<noteq> [] \<and> list_all (\<lambda>d. dated rt (snd d)) snapshot"
  then show "\<exists>rows. fst (getProductsByIds rt options db) = Inr (Arr (map Obj rows))
         \<and> mset (map (timeOf rt) rows) = mset (map (\<lambda>d. timeOf rt (snd d)) snapshot)
         \<and> sorted_wrt (\<lambda>a b. timeOf rt b \<le> timeOf rt a) rows"
    by (elim conjE) (rule getProductsByIds_sorted)
next
  assume "list_all (\<lambda>d. dated rt (snd d)) (docs db ''upsells'')"
  then show "\<exists>rows. fst (getUpsells rt db) = Inr (Arr (map Obj rows))
         \<and> mset (map (timeOf rt) rows) = mset (map (\<lambda>d. timeOf rt (snd d)) (docs db ''upsells''))
         \<and> sorted_wrt (\<lambda>a b. timeOf rt b \<le> timeOf rt a) rows"
    by (rule getUpsells_sorted)
next
  fix so snapshot
  assume "sanitizeBaseOptions (if options = Undefined then Obj [] else options) = Inr so
      \<and> fst (getDocs ''collections'' (visibilityFilter (mvisibility so)) db) = snapshot
      \<and> snapshot \<noteq> []
      \<and> list_all (\<lambda>d. plainDoc (snd d) \<and> indexed rt (Obj (snd d)) \<and> storedRefs (snd d) \<noteq> None) snapshot"
  then show "\<exists>rows. fst (getCollections rt options db) = Inr (Arr (map Obj rows))
         \<and> mset (map (\<lambda>r. indexOf rt (Obj r)) rows) = mset (map (\<lambda>d. indexOf rt (Obj (snd d))) snapshot)
         \<and> sorted_wrt (\<lambda>a b. indexOf rt (Obj a) \<le> indexOf rt (Obj b)) rows"
    by (elim conjE) (rule getCollections_sorted)
next
  assume "docs db ''categories'' \<noteq> []
      \<and> list_all (\<lambda>d. plainDoc (snd d) \<and> indexed rt (Obj (snd d))) (docs db ''categories'')"
  then show "\<exists>rows. fst (getCategories rt db) = Inr (Arr (map Obj rows))
         \<and> mset (map (\<lambda>r. indexOf rt (Obj r)) rows)
             = mset (map (\<lambda>d. indexOf rt (Obj (snd d))) (docs db ''categories''))
         \<and> sorted_wrt (\<lambda>a b. indexOf rt (Obj a) \<le> indexOf rt (Obj b)) rows"
    by (elim conjE) (rule getCategories_sorted)
next
  fix i data ps
  assume "getp options ''id'' = Inr (Str i) \<and> i \<noteq> []
      \<and> map_of (docs db ''upsells'') i = Some data
      \<and> getOwn data ''products'' = Arr ps \<and> list_all (indexed rt) ps"
  then show "\<exists>r sorted. fst (getUpsell rt options db) = Inr (Obj r)
         \<and> getOwn r ''products'' = Arr sorted
         \<and> mset sorted = mset ps
         \<and> sorted_wrt (\<lambda>a b. indexOf rt a \<le> indexOf rt b) sorted
         \<and> (\<forall>k. filter (\<lambda>e. indexOf rt e = k) sorted = filter (\<lambda>e. indexOf rt e = k) ps)"
    by (elim conjE) (rule getUpsell_sorted)
qed

lemma newest_first_unique:
  assumes "sorted_wrt (\<lambda>a b. f b \<le> f a) rows" and "mset (map f rows) = mset ys"
  shows "map f rows = rev (sort (ys :: int list))"
proof -
  have "sorted (rev (map f rows))"
    using assms(1) by (simp add: rev_map sorted_map sorted_wrt_rev)
  moreover have "mset (rev (map f rows)) = mset ys" using assms(2) by simp
  ultimately have "sort ys = rev (map f rows)" by (rule properties_for_sort [rotated])
  then show ?thesis by simp
qed

lemma ascending_unique:
  assumes "sorted_wrt (\<lambda>a b. f a \<le> f b) rows" and "mset (map f rows) = mset ys"
  shows "map f rows = sort (ys :: int list)"
proof -
  have "sorted (map f rows)" using assms(1) by (simp add: sorted_map)
  with assms(2) have "sort ys = map f rows" by (rule properties_for_sort)
  then show ?thesis by simp
qed

lemma catalog_categories:
  "docs catalog ''categories'' =
     [(''c2'', [(''index'', Num 2), (''name'', Str ''Hats'')]),
      (''c1'', [(''index'', Num 1), (''name'', Str ''Shirts'')])]"
  by (simp add: catalog_def)

lemma clock_reads:
  "dated clock shirt" "dated clock cap" "dated clock plain" "dated clock pair_offer"
  "timeOf clock shirt = 2" "timeOf clock cap = 3" "timeOf clock plain = 1" "timeOf clock pair_offer = 5"
  by (simp_all add: dated_def plainDoc_def timeOf_def keys_def getOwn_def clock_def
        shirt_def cap_def plain_def pair_offer_def)

theorem list_results_are_sorted_witness:
  "(\<exists>rows. fst (getProducts clock (Obj [(''visibility'', Str ''PUBLISHED'')]) catalog)
              = Inr (Arr (map Obj rows))
        \<and> map (timeOf clock) rows = [3, 2])
   \<and> (\<exists>rows. fst (getProductsByIds clock (Obj [(''ids'', Arr [Str ''Q'', Str ''A'', Str ''P''])]) catalog)
              = Inr (Arr (map Obj rows))
        \<and> map (timeOf clock) rows = [3, 2, 1])
   \<and> (\<exists>rows. fst (getUpsells clock catalog) = Inr (Arr (map Obj rows))
        \<and> map (timeOf clock) rows = [5])
   \<and> (\<exists>rows. fst (getCollections clock Undefined catalog) = Inr (Arr (map Obj rows))
        \<and> map (\<lambda>r. indexOf clock (Obj r)) rows = [1, 2])
   \<and> (\<exists>rows. fst (getCategories clock catalog) = Inr (Arr (map Obj rows))
        \<and> map (\<lambda>r. indexOf clock (Obj r)) rows = [1, 2])
   \<and> (\<exists>r sorted. fst (getUpsell clock (Obj [(''id'', Str ''U'')]) catalog) = Inr (Obj r)
        \<and> getOwn r ''products'' = Arr sorted
        \<and> map (indexOf clock) sorted = [0, 1])"
proof -
  let ?o1 = "Obj [(''visibility'', Str ''PUBLISHED'')]"
  let ?o2 = "Obj [(''ids'', Arr [Str ''Q'', Str ''A'', Str ''P''])]"
  let ?o6 = "Obj [(''id'', Str ''U'')]"
  let ?b = "Obj [(''index'', Num 1), (''id'', Str ''B''), (''name'', Str ''Gone''),
                 (''slug'', Str ''gone''), (''mainImage'', Str ''gone.png''), (''basePrice'', Num 5)]"
  let ?a = "Obj [(''index'', Num 0), (''id'', Str ''A''), (''name'', Str ''Old''),
                 (''slug'', Str ''old-slug''), (''mainImage'', Str ''old.png''), (''basePrice'', Num 1)]"
  note T = list_results_are_sorted
  \<comment> \<open>products by visibility\<close>
  let ?so1 = "\<lparr>mids = [], mfields = [], mvisibility = Str ''PUBLISHED''\<rparr>"
  have h1: "sanitizeBaseOptions (if ?o1 = Undefined then Obj [] else ?o1) = Inr ?so1
      \<and> fst (getDocs ''products'' (visibilityFilter (mvisibility ?so1)) catalog) = [(''P'', shirt), (''A'', cap)]
      \<and> [(''P'', shirt), (''A'', cap)] \<noteq> []
      \<and> list_all (\<lambda>d. dated clock (snd d)) [(''P'', shirt), (''A'', cap)]"
    by (simp add: sanitizeBaseOptions_def getp_def getOwn_def filterStrings_def visibilityFilter_def
          truthy_def getDocs_def catalog_parts clock_reads)
       (simp add: shirt_def cap_def plain_def orphan_def)
  from T [of ?o1 catalog clock, THEN conjunct1, THEN spec, THEN spec, THEN mp, OF h1]
  obtain rows1 where r1: "fst (getProducts clock ?o1 catalog) = Inr (Arr (map Obj rows1))"
      "mset (map (timeOf clock) rows1) = mset [2, 3]"
      "sorted_wrt (\<lambda>a b. timeOf clock b \<le> timeOf clock a) rows1"
    by (auto simp: clock_reads)
  have 1: "map (timeOf clock) rows1 = [3, 2]"
    using newest_first_unique [OF r1(3) r1(2)] by simp
  \<comment> \<open>products by ids\<close>
  let ?so2 = "\<lparr>mids = [''Q'', ''A'', ''P''], mfields = [], mvisibility = Undefined\<rparr>"
  let ?s2 = "[(''P'', shirt), (''A'', cap), (''Q'', plain)]"
  have h2: "sanitizeMultiItemOptions ?o2 = Inr ?so2 \<and> mids ?so2 \<noteq> []
      \<and> fst (getDocs ''products'' (WhereNameIn (mids ?so2) # visibilityFilter (mvisibility ?so2)) catalog) = ?s2
      \<and> ?s2 \<noteq> [] \<and> list_all (\<lambda>d. dated clock (snd d)) ?s2"
    by (simp add: sanitizeMulti_Obj getOwn_def filterStrings_def nonBlank_def strOf_def
          trim_def isSpace_def visibilityFilter_def truthy_def getDocs_def catalog_parts clock_reads)
  from T [of ?o2 catalog clock, THEN conjunct2, THEN conjunct1, THEN spec, THEN spec, THEN mp, OF h2]
  obtain rows2 where r2: "fst (getProductsByIds clock ?o2 catalog) = Inr (Arr (map Obj rows2))"
      "mset (map (timeOf clock) rows2) = mset [2, 3, 1]"
      "sorted_wrt (\<lambda>a b. timeOf clock b \<le> timeOf clock a) rows2"
    by (auto simp: clock_reads)
  have 2: "map (timeOf clock) rows2 = [3, 2, 1]"
    using newest_first_unique [OF r2(3) r2(2)] by simp
  \<comment> \<open>upsells\<close>
  have h3: "list_all (\<lambda>d. dated clock (snd d)) (docs catalog ''upsells'')"
    by (simp add: catalog_parts clock_reads)
  from T [of Undefined catalog clock, THEN conjunct2, THEN conjunct2, THEN conjunct1, THEN mp, OF h3]
  obtain rows3 where r3: "fst (getUpsells clock catalog) = Inr (Arr (map Obj rows3))"
      "mset (map (timeOf clock) rows3) = mset [5]"
      "sorted_wrt (\<lambda>a b. timeOf clock b \<le> timeOf clock a) rows3"
    by (auto simp: clock_reads catalog_parts)
  have 3: "map (timeOf clock) rows3 = [5]"
    using newest_first_unique [OF r3(3) r3(2)] by simp
  \<comment> \<open>collections\<close>
  let ?so4 = "\<lparr>mids = [], mfields = [], mvisibility = Undefined\<rparr>"
  let ?s4 = "[(''S'', summer), (''W'', winter)]"
  have ix: "indexOf clock (Obj summer) = 2" "indexOf clock (Obj winter) = 1"
    by (simp_all add: indexOf_Obj toNumber_def getOwn_def summer_def winter_def)
  have h4: "sanitizeBaseOptions (if Undefined = Undefined then Obj [] else Undefined) = Inr ?so4
      \<and> fst (getDocs ''collections'' (visibilityFilter (mvisibility ?so4)) catalog) = ?s4
      \<and> ?s4 \<noteq> []
      \<and> list_all (\<lambda>d. plainDoc (snd d) \<and> indexed clock (Obj (snd d)) \<and> storedRefs (snd d) \<noteq> None) ?s4"
    by (simp add: sanitizeBaseOptions_def getp_def getOwn_def filterStrings_def visibilityFilter_def
          truthy_def getDocs_def catalog_parts)
       (simp add: plainDoc_def indexed_def storedRefs_def toNumber_def keys_def getOwn_def refOk_def
          summer_def winter_def)
  from T [of Undefined catalog clock, THEN conjunct2, THEN conjunct2, THEN conjunct2, THEN conjunct1,
          THEN spec, THEN spec, THEN mp, OF h4]
  obtain rows4 where r4: "fst (getCollections clock Undefined catalog) = Inr (Arr (map Obj rows4))"
      "mset (map (\<lambda>r. indexOf clock (Obj r)) rows4) = mset [2, 1]"
      "sorted_wrt (\<lambda>a b. indexOf clock (Obj a) \<le> indexOf clock (Obj b)) rows4"
    by (auto simp: ix)
  have 4: "map (\<lambda>r. indexOf clock (Obj r)) rows4 = [1, 2]"
    using ascending_unique [OF r4(3) r4(2)] by simp
  \<comment> \<open>categories\<close>
  have h5: "docs catalog ''categories'' \<noteq> []
      \<and> list_all (\<lambda>d. plainDoc (snd d) \<and> indexed clock (Obj (snd d))) (docs catalog ''categories'')"
    by (simp add: catalog_categories plainDoc_def indexed_def toNumber_def keys_def getOwn_def)
  from T [of Undefined catalog clock, THEN conjunct2, THEN conjunct2, THEN conjunct2, THEN conjunct2,
          THEN conjunct1, THEN mp, OF h5]
  obtain rows5 where r5: "fst (getCategories clock catalog) = Inr (Arr (map Obj rows5))"
      "mset (map (\<lambda>r. indexOf clock (Obj r)) rows5) = mset [2, 1]"
      "sorted_wrt (\<lambda>a b. indexOf clock (Obj a) \<le> indexOf clock (Obj b)) rows5"
    by (auto simp: catalog_categories indexOf_Obj toNumber_def getOwn_def)
  have 5: "map (\<lambda>r. indexOf clock (Obj r)) rows5 = [1, 2]"
    using ascending_unique [OF r5(3) r5(2)] by simp
  \<comment> \<open>one upsell\<close>
  have h6: "getp ?o6 ''id'' = Inr (Str ''U'') \<and> ''U'' \<noteq> []
      \<and> map_of (docs catalog ''upsells'') ''U'' = Some pair_offer
      \<and> getOwn pair_offer ''products'' = Arr [?b, ?a] \<and> list_all (indexed clock) [?b, ?a]"
    by (simp add: getp_def getOwn_def catalog_parts pair_offer_def indexed_def toNumber_def)
  from T [of ?o6 catalog clock, THEN conjunct2, THEN conjunct2, THEN conjunct2, THEN conjunct2,
          THEN conjunct2, THEN spec, THEN spec, THEN spec, THEN mp, OF h6]
  obtain r sorted where r6: "fst (getUpsell clock ?o6 catalog) = Inr (Obj r)"
      "getOwn r ''products'' = Arr sorted"
      "mset sorted = mset [?b, ?a]"
      "sorted_wrt (\<lambda>a b. indexOf clock a \<le> indexOf clock b) sorted"
    by blast
  have "mset (map (indexOf clock) sorted) = mset [1, 0]"
    using arg_cong [OF r6(3), of "image_mset (indexOf clock)"]
    by (simp add: indexOf_Obj toNumber_def getOwn_def)
  from ascending_unique [OF r6(4) this] have 6: "map (indexOf clock) sorted = [0, 1]" by simp
  have e1: "\<exists>rows. fst (getProducts clock ?o1 catalog) = Inr (Arr (map Obj rows))
        \<and> map (timeOf clock) rows = [3, 2]"
    by (rule exI [of _ rows1]) (intro conjI r1(1) 1)
  have e2: "\<exists>rows. fst (getProductsByIds clock ?o2 catalog) = Inr (Arr (map Obj rows))
        \<and> map (timeOf clock) rows = [3, 2, 1]"
    by (rule exI [of _ rows2]) (intro conjI r2(1) 2)
  have e3: "\<exists>rows. fst (getUpsells clock catalog) = Inr (Arr (map Obj rows))
        \<and> map (timeOf clock) rows = [5]"
    by (rule exI [of _ rows3]) (intro conjI r3(1) 3)
  have e4: "\<exists>rows. fst (getCollections clock Undefined catalog) = Inr (Arr (map Obj rows))
        \<and> map (\<lambda>r. indexOf clock (Obj r)) rows = [1, 2]"
    by (rule exI [of _ rows4]) (intro conjI r4(1) 4)
  have e5: "\<exists>rows. fst (getCategories clock catalog) = Inr (Arr (map Obj rows))
        \<and> map (\<lambda>r. indexOf clock (Obj r)) rows = [1, 2]"
    by (rule exI [of _ rows5]) (intro conjI r5(1) 5)
  have e6: "\<exists>r sorted. fst (getUpsell clock ?o6 catalog) = Inr (Obj r)
        \<and> getOwn r ''products'' = Arr sorted
        \<and> map (indexOf clock) sorted = [0, 1]"
    by (rule exI [of _ r], rule exI [of _ sorted]) (intro conjI r6(1) r6(2) 6)
  show ?thesis by (intro conjI e1 e2 e3 e4 e5 e6)
qed

section \<open>Projection of present documents\<close>

lemma mset_plain:
  assumes "mset ds = mset snapshot" and "list_all P snapshot" and "d \<in> set ds"
  shows "P d"
  using assms by (metis list_all_iff set_mset_mset)

lemma productList_rows:
  assumes ne: "snapshot \<noteq> []"
    and ok: "list_all (\<lambda>d. plainDoc (snd d)) snapshot"
  shows "\<exists>rows ds. fst (productList rt fs (snapshot, db1)) = Inr (Arr (map Obj rows))
     \<and> mset ds = mset snapshot
     \<and> list_all2 (\<lambda>d r. map_of r =
          ([''id'' \<mapsto> Str (fst d)] ++ requested fs (snd d))
            (''updatedAt'' \<mapsto> getOwn (snd d) ''updatedAt'',
             ''visibility'' \<mapsto> getOwn (snd d) ''visibility'')) ds rows"
proof -
  let ?xs = "map (productRowOf fs) snapshot"
  have res: "productList rt fs (snapshot, db1) =
      (Inr (Arr (map Obj (sortItems rt ?xs ''updatedAt'' True))), db1)"
    using ok by (intro productList_plain [OF ne]) (auto simp: list_all_iff plainDoc_def)
  obtain ds where ds: "mset ds = mset snapshot"
      "sortItems rt ?xs ''updatedAt'' True = map (productRowOf fs) ds"
    using sortItems_rows [of snapshot rt "productRowOf fs" "''updatedAt''" True] by blast
  have "list_all2 (\<lambda>d r. map_of r =
          ([''id'' \<mapsto> Str (fst d)] ++ requested fs (snd d))
            (''updatedAt'' \<mapsto> getOwn (snd d) ''updatedAt'',
             ''visibility'' \<mapsto> getOwn (snd d) ''visibility'')) ds (map (productRowOf fs) ds)"
  proof (rule list_all2_map_same)
    fix d :: "string \<times> obj" assume "d \<in> set ds"
    from mset_plain [OF ds(1) ok this] have "distinct (keys (snd d))" by (simp add: plainDoc_def)
    then show "map_of (productRowOf fs d) =
          ([''id'' \<mapsto> Str (fst d)] ++ requested fs (snd d))
            (''updatedAt'' \<mapsto> getOwn (snd d) ''updatedAt'',
             ''visibility'' \<mapsto> getOwn (snd d) ''visibility'')"
      by (rule map_of_productRowOf)
  qed
  with res ds show ?thesis by (metis (no_types, lifting) fst_conv)
qed

lemma fetchById_projection:
  assumes so: "sanitizeSingleItemOptions options = Inr so" and i: "sid so \<noteq> []"
    and stored: "map_of (docs db part) (sid so) = Some data"
    and plain: "plainDoc data"
  shows "\<exists>r. fst (fetchById part options db) = Inr (Obj r)
     \<and> map_of r = [''id'' \<mapsto> Str (sid so)] ++ requested (sfields so) data"
proof -
  from plain have d: "distinct (keys data)" and s: "''hasOwnProperty'' \<notin> set (keys data)"
    by (simp_all add: plainDoc_def)
  have "fst (fetchById part options db) =
      Inr (Obj (spread (if sfields so = [] then data else pick (sfields so) data [])
                 [(''id'', Str (sid so))]))"
    using fetchById_present [OF so i stored] s by simp
  moreover have "map_of (spread (if sfields so = [] then data else pick (sfields so) data [])
                 [(''id'', Str (sid so))]) = [''id'' \<mapsto> Str (sid so)] ++ requested (sfields so) data"
    using map_of_projected [OF d, of "sfields so" "[(''id'', Str (sid so))]"] by simp
  ultimately show ?thesis by blast
qed

lemma map_of_collectionRowOf:
  assumes fs: "fs \<noteq> []" and other: "''products'' \<in> set fs \<longrightarrow> k \<noteq> ''products''"
  shows "map_of (collectionRowOf db fs d) k =
     (([''id'' \<mapsto> Str (fst d)] ++ requested fs (snd d))
        (''updatedAt'' \<mapsto> getOwn (snd d) ''updatedAt'',
         ''index'' \<mapsto> getOwn (snd d) ''index'',
         ''visibility'' \<mapsto> getOwn (snd d) ''visibility'',
         ''collectionType'' \<mapsto> getOwn (snd d) ''collectionType'')) k"
proof -
  let ?p = "pick fs (snd d) []"
  let ?sel = "if ''products'' \<in> set fs
        then AList.update ''products'' (Arr (map (expandOf db) (refsOf (snd d)))) ?p else ?p"
  have dp: "distinct (keys ?p)" by (rule distinct_pick) (simp add: keys_def)
  then have ds: "distinct (keys ?sel)" by (simp add: keys_def AList.distinct_update)
  have sel: "map_of ?sel k = (map_of (snd d) |` set fs) k"
    using other by (auto simp: AList.update_conv' map_of_pick restrict_map_def)
  have "map_of (spread ?sel [(''id'', Str (fst d))]) k
          = ([''id'' \<mapsto> Str (fst d)] ++ (map_of (snd d) |` set fs)) k"
    by (simp add: map_of_spread [OF ds] map_add_def sel)
  then show ?thesis
    using fs by (simp add: collectionRowOf_def carried_def AList.update_conv' requested_def)
qed

lemma map_of_collectionRowOf_products:
  assumes "''products'' \<in> set fs"
  shows "map_of (collectionRowOf db fs d) ''products'' = Some (Arr (map (expandOf db) (refsOf (snd d))))"
proof -
  let ?sel = "AList.update ''products'' (Arr (map (expandOf db) (refsOf (snd d)))) (pick fs (snd d) [])"
  have "distinct (keys (pick fs (snd d) []))" by (rule distinct_pick) (simp add: keys_def)
  then have "distinct (keys ?sel)" by (simp add: keys_def AList.distinct_update)
  then have "map_of (spread ?sel [(''id'', Str (fst d))]) ''products''
               = Some (Arr (map (expandOf db) (refsOf (snd d))))"
    by (simp add: map_of_spread AList.update_conv')
  with assms show ?thesis
    by (simp add: collectionRowOf_def carried_def AList.update_conv')
qed

lemma getCollections_rows:
  assumes so: "sanitizeBaseOptions (if options = Undefined then Obj [] else options) = Inr so"
    and fs: "mfields so \<noteq> []"
    and snap: "fst (getDocs ''collections'' (visibilityFilter (mvisibility so)) db) = snapshot"
    and ne: "snapshot \<noteq> []"
    and ok: "list_all (\<lambda>d. plainDoc (snd d) \<and> storedRefs (snd d) \<noteq> None) snapshot"
  shows "\<exists>rows ds. fst (getCollections rt options db) = Inr (Arr (map Obj rows))
     \<and> mset ds = mset snapshot
     \<and> list_all2 (\<lambda>d r.
            (\<forall>k. (''products'' \<in> set (mfields so) \<longrightarrow> k \<noteq> ''products'') \<longrightarrow>
               map_of r k =
                 (([''id'' \<mapsto> Str (fst d)] ++ requested (mfields so) (snd d))
                    (''updatedAt'' \<mapsto> getOwn (snd d) ''updatedAt'',
                     ''index'' \<mapsto> getOwn (snd d) ''index'',
                     ''visibility'' \<mapsto> getOwn (snd d) ''visibility'',
                     ''collectionType'' \<mapsto> getOwn (snd d) ''collectionType'')) k)
          \<and> (''products'' \<in> set (mfields so) \<longrightarrow>
               (\<exists>es. map_of r ''products'' = Some (Arr es)
                  \<and> list_all2 (\<lambda>ref e.
                    (productAt db ref = None \<longrightarrow>
                       e = Obj [(''id'', field ref ''id''), (''index'', field ref ''index'')])
                  \<and> (\<forall>pd. productAt db ref = Some pd \<and> distinct (keys pd) \<longrightarrow>
                        (\<exists>kvs. e = Obj kvs
                           \<and> map_of kvs = (map_of pd)(''id'' \<mapsto> field ref ''id'',
                                                        ''index'' \<mapsto> field ref ''index''))))
                  (refsOf (snd d)) es))) ds rows"
proof -
  let ?row = "collectionRowOf db (mfields so)"
  have res: "fst (getCollections rt options db) =
      Inr (Arr (map Obj (sortItems rt (map ?row snapshot) ''index'' False)))"
    using ok by (intro getCollections_plain [OF so snap ne]) (auto simp: list_all_iff plainDoc_def)
  obtain ds where ds: "mset ds = mset snapshot"
      "sortItems rt (map ?row snapshot) ''index'' False = map ?row ds"
    using sortItems_rows [of snapshot rt ?row "''index''" False] by blast
  have "list_all2 (\<lambda>d r.
            (\<forall>k. (''products'' \<in> set (mfields so) \<longrightarrow> k \<noteq> ''products'') \<longrightarrow>
               map_of r k =
                 (([''id'' \<mapsto> Str (fst d)] ++ requested (mfields so) (snd d))
                    (''updatedAt'' \<mapsto> getOwn (snd d) ''updatedAt'',
                     ''index'' \<mapsto> getOwn (snd d) ''index'',
                     ''visibility'' \<mapsto> getOwn (snd d) ''visibility'',
                     ''collectionType'' \<mapsto> getOwn (snd d) ''collectionType'')) k)
          \<and> (''products'' \<in> set (mfields so) \<longrightarrow>
               (\<exists>es. map_of r ''products'' = Some (Arr es)
                  \<and> list_all2 (\<lambda>ref e.
                    (productAt db ref = None \<longrightarrow>
                       e = Obj [(''id'', field ref ''id''), (''index'', field ref ''index'')])
                  \<and> (\<forall>pd. productAt db ref = Some pd \<and> distinct (keys pd) \<longrightarrow>
                        (\<exists>kvs. e = Obj kvs
                           \<and> map_of kvs = (map_of pd)(''id'' \<mapsto> field ref ''id'',
                                                        ''index'' \<mapsto> field ref ''index''))))
                  (refsOf (snd d)) es))) ds (map ?row ds)"
  proof (rule list_all2_map_same, intro conjI allI impI)
    fix d :: "string \<times> obj" and k
    assume "''products'' \<in> set (mfields so) \<longrightarrow> k \<noteq> ''products''"
    then show "map_of (?row d) k =
                 (([''id'' \<mapsto> Str (fst d)] ++ requested (mfields so) (snd d))
                    (''updatedAt'' \<mapsto> getOwn (snd d) ''updatedAt'',
                     ''index'' \<mapsto> getOwn (snd d) ''index'',
                     ''visibility'' \<mapsto> getOwn (snd d) ''visibility'',
                     ''collectionType'' \<mapsto> getOwn (snd d) ''collectionType'')) k"
      by (rule map_of_collectionRowOf [OF fs])
  next
    fix d :: "string \<times> obj"
    assume req: "''products'' \<in> set (mfields so)"
    have "list_all2 (\<lambda>ref e.
                    (productAt db ref = None \<longrightarrow>
                       e = Obj [(''id'', field ref ''id''), (''index'', field ref ''index'')])
                  \<and> (\<forall>pd. productAt db ref = Some pd \<and> distinct (keys pd) \<longrightarrow>
                        (\<exists>kvs. e = Obj kvs
                           \<and> map_of kvs = (map_of pd)(''id'' \<mapsto> field ref ''id'',
                                                        ''index'' \<mapsto> field ref ''index''))))
                  (refsOf (snd d)) (map (expandOf db) (refsOf (snd d)))"
      by (rule list_all2_map_same) (rule expandOf_cases)
    with map_of_collectionRowOf_products [OF req, of db d]
    show "\<exists>es. map_of (?row d) ''products'' = Some (Arr es)
                  \<and> list_all2 (\<lambda>ref e.
                    (productAt db ref = None \<longrightarrow>
                       e = Obj [(''id'', field ref ''id''), (''index'', field ref ''index'')])
                  \<and> (\<forall>pd. productAt db ref = Some pd \<and> distinct (keys pd) \<longrightarrow>
                        (\<exists>kvs. e = Obj kvs
                           \<and> map_of kvs = (map_of pd)(''id'' \<mapsto> field ref ''id'',
                                                        ''index'' \<mapsto> field ref ''index''))))
                  (refsOf (snd d)) es"
      by blast
  qed
  with res ds show ?thesis by (metis (no_types, lifting))
qed

text \<open>
  C1 (as amended). On present, plain stored documents:
  \<^item> \<open>getProduct\<close> and \<open>getCollection\<close> return the requested fields that exist on the stored
    document, or the whole stored document when no field is requested, together with \<open>id\<close>:
    the document id, unless the selected part of the document has a field \<open>id\<close> of its own,
    whose stored value then stands;
  \<^item> each row of \<open>getProducts\<close> and \<open>getProductsByIds\<close> holds the same and, in addition and
    whether requested or not, \<open>updatedAt\<close> and \<open>visibility\<close> with their stored values
    (\<open>undefined\<close> where not stored);
  \<^item> each row of \<open>getCollections\<close>, for a non-empty list of requested fields, holds \<open>id\<close> as
    above, the requested fields that exist, and in addition \<open>updatedAt\<close>, \<open>index\<close>,
    \<open>visibility\<close> and \<open>collectionType\<close> with their stored values; when \<open>products\<close> is
    requested its entry is the expanded reference list instead of the stored value: one
    entry per stored reference, in stored order, holding exactly the reference's \<open>id\<close> and
    \<open>index\<close> when the product is not stored, and the whole stored product with \<open>id\<close> and
    \<open>index\<close> set from the reference when it is.
\<close>

theorem projection_of_present_documents:
  "(\<forall>so data.
      sanitizeSingleItemOptions options = Inr so \<and> sid so \<noteq> []
      \<and> map_of (docs db ''products'') (sid so) = Some data \<and> plainDoc data \<longrightarrow>
      (\<exists>r. fst (getProduct options db) = Inr (Obj r)
         \<and> map_of r = [''id'' \<mapsto> Str (sid so)] ++ requested (sfields so) data))
   \<and> (\<forall>so data.
      sanitizeSingleItemOptions options = Inr so \<and> sid so \<noteq> []
      \<and> map_of (docs db ''collections'') (sid so) = Some data \<and> plainDoc data \<longrightarrow>
      (\<exists>r. fst (getCollection options db) = Inr (Obj r)
         \<and> map_of r = [''id'' \<mapsto> Str (sid so)] ++ requested (sfields so) data))
   \<and> (\<forall>so snapshot.
      sanitizeBaseOptions (if options = Undefined then Obj [] else options) = Inr so
      \<and> fst (getDocs ''products'' (visibilityFilter (mvisibility so)) db) = snapshot
      \<and> snapshot \<noteq> [] \<and> list_all (\<lambda>d. plainDoc (snd d)) snapshot \<longrightarrow>
      (\<exists>rows ds. fst (getProducts rt options db) = Inr (Arr (map Obj rows))
         \<and> mset ds = mset snapshot
         \<and> list_all2 (\<lambda>d r. map_of r =
              ([''id'' \<mapsto> Str (fst d)] ++ requested (mfields so) (snd d))
                (''updatedAt'' \<mapsto> getOwn (snd d) ''updatedAt'',
                 ''visibility'' \<mapsto> getOwn (snd d) ''visibility'')) ds rows))
   \<and> (\<forall>so snapshot.
      sanitizeMultiItemOptions options = Inr so \<and> mids so \<noteq> []
      \<and> fst (getDocs ''products'' (WhereNameIn (mids so) # visibilityFilter (mvisibility so)) db) = snapshot
      \<and> snapshot \<noteq> [] \<and> list_all (\<lambda>d. plainDoc (snd d)) snapshot \<longrightarrow>
      (\<exists>rows ds. fst (getProductsByIds rt options db) = Inr (Arr (map Obj rows))
         \<and> mset ds = mset snapshot
         \<and> list_all2 (\<lambda>d r. map_of r =
              ([''id'' \<mapsto> Str (fst d)] ++ requested (mfields so) (snd d))
                (''updatedAt'' \<mapsto> getOwn (snd d) ''updatedAt'',
                 ''visibility'' \<mapsto> getOwn (snd d) ''visibility'')) ds rows))
   \<and> (\<forall>so snapshot.
      sanitizeBaseOptions (if options = Undefined then Obj [] else options) = Inr so
      \<and> mfields so \<noteq> []
      \<and> fst (getDocs ''collections'' (visibilityFilter (mvisibility so)) db) = snapshot
      \<and> snapshot \<noteq> []
      \<and> list_all (\<lambda>d. plainDoc (snd d) \<and> storedRefs (snd d) \<noteq> None) snapshot \<longrightarrow>
      (\<exists>rows ds. fst (getCollections rt options db) = Inr (Arr (map Obj rows))
         \<and> mset ds = mset snapshot
         \<and> list_all2 (\<lambda>d r.
            (\<forall>k. (''products'' \<in> set (mfields so) \<longrightarrow> k \<noteq> ''products'') \<longrightarrow>
               map_of r k =
                 (([''id'' \<mapsto> Str (fst d)] ++ requested (mfields so) (snd d))
                    (''updatedAt'' \<mapsto> getOwn (snd d) ''updatedAt'',
                     ''index'' \<mapsto> getOwn (snd d) ''index'',
                     ''visibility'' \<mapsto> getOwn (snd d) ''visibility'',
                     ''collectionType'' \<mapsto> getOwn (snd d) ''collectionType'')) k)
          \<and> (''products'' \<in> set (mfields so) \<longrightarrow>
               (\<exists>es. map_of r ''products'' = Some (Arr es)
                  \<and> list_all2 (\<lambda>ref e.
                    (productAt db ref = None \<longrightarrow>
                       e = Obj [(''id'', field ref ''id''), (''index'', field ref ''index'')])
                  \<and> (\<forall>pd. productAt db ref = Some pd \<and> distinct (keys pd) \<longrightarrow>
                        (\<exists>kvs. e = Obj kvs
                           \<and> map_of kvs = (map_of pd)(''id'' \<mapsto> field ref ''id'',
                                                        ''index'' \<mapsto> field ref ''index''))))
                  (refsOf (snd d)) es))) ds rows))"
proof (intro conjI allI impI)
  fix so data
  assume "sanitizeSingleItemOptions options = Inr so \<and> sid so \<noteq> []
      \<and> map_of (docs db ''products'') (sid so) = Some data \<and> plainDoc data"
  then show "\<exists>r. fst (getProduct options db) = Inr (Obj r)
         \<and> map_of r = [''id'' \<mapsto> Str (sid so)] ++ requested (sfields so) data"
    unfolding getProduct_def by (elim conjE) (rule fetchById_projection)
next
  fix so data
  assume "sanitizeSingleItemOptions options = Inr so \<and> sid so \<noteq> []
      \<and> map_of (docs db ''collections'') (sid so) = Some data \<and> plainDoc data"
  then show "\<exists>r. fst (getCollection options db) = Inr (Obj r)
         \<and> map_of r = [''id'' \<mapsto> Str (sid so)] ++ requested (sfields so) data"
    unfolding getCollection_def by (elim conjE) (rule fetchById_projection)
next
  fix so snapshot
  assume a: "sanitizeBaseOptions (if options = Undefined then Obj [] else options) = Inr so
      \<and> fst (getDocs ''products'' (visibilityFilter (mvisibility so)) db) = snapshot
      \<and> snapshot \<noteq> [] \<and> list_all (\<lambda>d. plainDoc (snd d)) snapshot"
  then obtain db1 where g: "getDocs ''products'' (visibilityFilter (mvisibility so)) db = (snapshot, db1)"
    by (cases "getDocs ''products'' (visibilityFilter (mvisibility so)) db") auto
  from a have ne: "snapshot \<noteq> []" and ok: "list_all (\<lambda>d. plainDoc (snd d)) snapshot" by simp_all
  show "\<exists>rows ds. fst (getProducts rt options db) = Inr (Arr (map Obj rows))
         \<and> mset ds = mset snapshot
         \<and> list_all2 (\<lambda>d r. map_of r =
              ([''id'' \<mapsto> Str (fst d)] ++ requested (mfields so) (snd d))
                (''updatedAt'' \<mapsto> getOwn (snd d) ''updatedAt'',
                 ''visibility'' \<mapsto> getOwn (snd d) ''visibility'')) ds rows"
    using productList_rows [OF ne ok, of rt "mfields so" db1] a g by (simp add: getProducts_def)
next
  fix so snapshot
  assume a: "sanitizeMultiItemOptions options = Inr so \<and> mids so \<noteq> []
      \<and> fst (getDocs ''products'' (WhereNameIn (mids so) # visibilityFilter (mvisibility so)) db) = snapshot
      \<and> snapshot \<noteq> [] \<and> list_all (\<lambda>d. plainDoc (snd d)) snapshot"
  then obtain db1 where g:
    "getDocs ''products'' (WhereNameIn (mids so) # visibilityFilter (mvisibility so)) db = (snapshot, db1)"
    by (cases "getDocs ''products'' (WhereNameIn (mids so) # visibilityFilter (mvisibility so)) db") auto
  from a have ne: "snapshot \<noteq> []" and ok: "list_all (\<lambda>d. plainDoc (snd d)) snapshot" by simp_all
  show "\<exists>rows ds. fst (getProductsByIds rt options db) = Inr (Arr (map Obj rows))
         \<and> mset ds = mset snapshot
         \<and> list_all2 (\<lambda>d r. map_of r =
              ([''id'' \<mapsto> Str (fst d)] ++ requested (mfields so) (snd d))
                (''updatedAt'' \<mapsto> getOwn (snd d) ''updatedAt'',
                 ''visibility'' \<mapsto> getOwn (snd d) ''visibility'')) ds rows"
    using productList_rows [OF ne ok, of rt "mfields so" db1] a g by (simp add: getProductsByIds_def)
next
  fix so snapshot
  assume "sanitizeBaseOptions (if options = Undefined then Obj [] else options) = Inr so
      \<and> mfields so \<noteq> []
      \<and> fst (getDocs ''collections'' (visibilityFilter (mvisibility so)) db) = snapshot
      \<and> snapshot \<noteq> []
      \<and> list_all (\<lambda>d. plainDoc (snd d) \<and> storedRefs (snd d) \<noteq> None) snapshot"
  then show "\<exists>rows ds. fst (getCollections rt options db) = Inr (Arr (map Obj rows))
         \<and> mset ds = mset snapshot
         \<and> list_all2 (\<lambda>d r.
            (\<forall>k. (''products'' \<in> set (mfields so) \<longrightarrow> k \<noteq> ''products'') \<longrightarrow>
               map_of r k =
                 (([''id'' \<mapsto> Str (fst d)] ++ requested (mfields so) (snd d))
                    (''updatedAt'' \<mapsto> getOwn (snd d) ''updatedAt'',
                     ''index'' \<mapsto> getOwn (snd d) ''index'',
                     ''visibility'' \<mapsto> getOwn (snd d) ''visibility'',
                     ''collectionType'' \<mapsto> getOwn (snd d) ''collectionType'')) k)
          \<and> (''products'' \<in> set (mfields so) \<longrightarrow>
               (\<exists>es. map_of r ''products'' = Some (Arr es)
                  \<and> list_all2 (\<lambda>ref e.
                    (productAt db ref = None \<longrightarrow>
                       e = Obj [(''id'', field ref ''id''), (''index'', field ref ''index'')])
                  \<and> (\<forall>pd. productAt db ref = Some pd \<and> distinct (keys pd) \<longrightarrow>
                        (\<exists>kvs. e = Obj kvs
                           \<and> map_of kvs = (map_of pd)(''id'' \<mapsto> field ref ''id'',
                                                        ''index'' \<mapsto> field ref ''index''))))
                  (refsOf (snd d)) es))) ds rows"
    by (elim conjE) (rule getCollections_rows)
qed

text \<open>
  C1 as stated fails on the list fetches: asked for \<open>name\<close> only, \<open>getProductsByIds\<close>
  returns a row that also holds \<open>updatedAt\<close> and \<open>visibility\<close>.
\<close>

theorem getProductsByIds_carries_unrequested_fields:
  "fst (getProductsByIds clock
          (Obj [(''ids'', Arr [Str ''A'']), (''fields'', Arr [Str ''name''])]) catalog)
     = Inr (Arr [Obj [(''id'', Str ''A''), (''name'', Str ''New''),
                      (''updatedAt'', Str ''2024-01-03''), (''visibility'', Str ''PUBLISHED'')]])
   \<and> ''updatedAt'' \<in> set (keys [(''id'', Str ''A''), (''name'', Str ''New''),
                 (''updatedAt'', Str ''2024-01-03''), (''visibility'', Str ''PUBLISHED'')])
   \<and> ''updatedAt'' \<notin> insert ''id'' (set [''name''])"
  by (simp add: getProductsByIds_def sanitizeMulti_Obj getOwn_def filterStrings_def nonBlank_def
        strOf_def trim_def isSpace_def visibilityFilter_def truthy_def getDocs_def catalog_parts
        productList_def productRow_def project_def hasOwnProperty_def keys_def spread_def
        sortItems_def arraySort_def cap_def)

text \<open>Without requested fields \<open>getCollections\<close> returns only the id and the four carried
  fields of each collection (its callback has no branch for the empty list).\<close>

lemma getCollections_without_fields:
  "fst (getCollections clock (Obj [(''visibility'', Str ''HIDDEN'')]) catalog)
     = Inr (Arr [Obj [(''id'', Str ''W''), (''updatedAt'', Str ''2024-01-06''), (''index'', Num 1),
                      (''visibility'', Str ''HIDDEN''), (''collectionType'', Str ''BANNER'')]])"
  by (simp add: getCollections_def sanitizeBaseOptions_def getp_def getOwn_def filterStrings_def
        visibilityFilter_def truthy_def getDocs_def catalog_parts collectionRow_def carried_def
        spread_def sortItems_def arraySort_def summer_def winter_def)

lemma catalog_plain: "plainDoc shirt" "plainDoc cap" "plainDoc plain" "plainDoc winter" "plainDoc summer"
  by (simp_all add: plainDoc_def keys_def shirt_def cap_def plain_def winter_def summer_def)

lemma single_row:
  assumes "mset ds = mset [d]" and "list_all2 P ds rows"
  obtains r where "rows = [r]" and "P d r"
proof -
  from assms(1) have "ds = [d]" by simp
  with assms(2) show ?thesis using that by (auto simp: list_all2_Cons1)
qed

theorem projection_of_present_documents_witness:
  "(\<exists>r. fst (getProduct (Obj [(''id'', Str ''P''), (''fields'', Arr [Str ''name'', Str ''nope''])]) catalog)
            = Inr (Obj r)
        \<and> map_of r ''id'' = Some (Str ''P'') \<and> map_of r ''name'' = Some (Str ''Shirt'')
        \<and> map_of r ''nope'' = None \<and> map_of r ''slug'' = None)
   \<and> (\<exists>r. fst (getCollection (Obj [(''id'', Str ''W'')]) catalog) = Inr (Obj r)
        \<and> map_of r ''id'' = Some (Str ''W'') \<and> map_of r ''title'' = Some (Str ''Winter'')
        \<and> map_of r ''index'' = Some (Num 1))
   \<and> (\<exists>r. fst (getProducts clock
                   (Obj [(''fields'', Arr [Str ''name'']), (''visibility'', Str ''DRAFT'')]) catalog)
            = Inr (Arr [Obj r])
        \<and> map_of r ''id'' = Some (Str ''Q'') \<and> map_of r ''name'' = Some (Str ''Plain'')
        \<and> map_of r ''updatedAt'' = Some (Str ''2024-01-01'')
        \<and> map_of r ''visibility'' = Some (Str ''DRAFT''))
   \<and> (\<exists>r. fst (getProductsByIds clock
                   (Obj [(''ids'', Arr [Str ''A'']), (''fields'', Arr [Str ''name''])]) catalog)
            = Inr (Arr [Obj r])
        \<and> map_of r ''id'' = Some (Str ''A'') \<and> map_of r ''name'' = Some (Str ''New'')
        \<and> map_of r ''slug'' = None
        \<and> map_of r ''updatedAt'' = Some (Str ''2024-01-03''))
   \<and> (\<exists>r kvs. fst (getCollections clock
                   (Obj [(''fields'', Arr [Str ''title'', Str ''products'']),
                         (''visibility'', Str ''PUBLISHED'')]) catalog)
            = Inr (Arr [Obj r])
        \<and> map_of r ''id'' = Some (Str ''S'') \<and> map_of r ''title'' = Some (Str ''Summer'')
        \<and> map_of r ''index'' = Some (Num 2)
        \<and> map_of r ''collectionType'' = Some (Str ''FEATURED'')
        \<and> map_of r ''products'' = Some (Arr [Obj [(''id'', Str ''B''), (''index'', Num 0)], Obj kvs])
        \<and> map_of kvs ''id'' = Some (Str ''A'') \<and> map_of kvs ''index'' = Some (Num 1)
        \<and> map_of kvs ''name'' = Some (Str ''New''))"
proof -
  let ?o1 = "Obj [(''id'', Str ''P''), (''fields'', Arr [Str ''name'', Str ''nope''])]"
  let ?o2 = "Obj [(''id'', Str ''W'')]"
  let ?o3 = "Obj [(''fields'', Arr [Str ''name'']), (''visibility'', Str ''DRAFT'')]"
  let ?o4 = "Obj [(''ids'', Arr [Str ''A'']), (''fields'', Arr [Str ''name''])]"
  let ?o5 = "Obj [(''fields'', Arr [Str ''title'', Str ''products'']), (''visibility'', Str ''PUBLISHED'')]"
  note T = projection_of_present_documents
  have tr: "trim ''P'' = ''P''" "trim ''W'' = ''W''" "trim ''name'' = ''name''"
      "trim ''nope'' = ''nope''" "trim ''A'' = ''A''" "trim ''title'' = ''title''"
    by (simp_all add: trim_def isSpace_def)
  \<comment> \<open>one product, two fields requested\<close>
  let ?so1 = "\<lparr>sid = ''P'', sfields = [''name'', ''nope'']\<rparr>"
  have h1: "sanitizeSingleItemOptions ?o1 = Inr ?so1 \<and> sid ?so1 \<noteq> []
      \<and> map_of (docs catalog ''products'') (sid ?so1) = Some shirt \<and> plainDoc shirt"
    by (simp add: sanitizeSingleItemOptions_def getp_def getOwn_def filterStrings_def nonBlank_def
          strOf_def tr catalog_parts catalog_plain)
  from T [of ?o1 catalog, THEN conjunct1, THEN spec, THEN spec, THEN mp, OF h1]
  obtain r1 where r1: "fst (getProduct ?o1 catalog) = Inr (Obj r1)"
      "map_of r1 = [''id'' \<mapsto> Str ''P''] ++ requested [''name'', ''nope''] shirt"
    by auto
  have e1: "\<exists>r. fst (getProduct ?o1 catalog) = Inr (Obj r)
        \<and> map_of r ''id'' = Some (Str ''P'') \<and> map_of r ''name'' = Some (Str ''Shirt'')
        \<and> map_of r ''nope'' = None \<and> map_of r ''slug'' = None"
    by (rule exI [of _ r1]) (simp add: r1 requested_def restrict_map_def map_add_def shirt_def)
  \<comment> \<open>one collection, no field requested\<close>
  let ?so2 = "\<lparr>sid = ''W'', sfields = []\<rparr>"
  have h2: "sanitizeSingleItemOptions ?o2 = Inr ?so2 \<and> sid ?so2 \<noteq> []
      \<and> map_of (docs catalog ''collections'') (sid ?so2) = Some winter \<and> plainDoc winter"
    by (simp add: sanitizeSingle_id_only tr catalog_parts catalog_plain)
  from T [of ?o2 catalog, THEN conjunct2, THEN conjunct1, THEN spec, THEN spec, THEN mp, OF h2]
  obtain r2 where r2: "fst (getCollection ?o2 catalog) = Inr (Obj r2)"
      "map_of r2 = [''id'' \<mapsto> Str ''W''] ++ requested [] winter"
    by auto
  have e2: "\<exists>r. fst (getCollection ?o2 catalog) = Inr (Obj r)
        \<and> map_of r ''id'' = Some (Str ''W'') \<and> map_of r ''title'' = Some (Str ''Winter'')
        \<and> map_of r ''index'' = Some (Num 1)"
    by (rule exI [of _ r2]) (simp add: r2 requested_def map_add_def winter_def)
  \<comment> \<open>products by visibility\<close>
  let ?so3 = "\<lparr>mids = [], mfields = [''name''], mvisibility = Str ''DRAFT''\<rparr>"
  have h3: "sanitizeBaseOptions (if ?o3 = Undefined then Obj [] else ?o3) = Inr ?so3
      \<and> fst (getDocs ''products'' (visibilityFilter (mvisibility ?so3)) catalog) = [(''Q'', plain)]
      \<and> [(''Q'', plain)] \<noteq> [] \<and> list_all (\<lambda>d. plainDoc (snd d)) [(''Q'', plain)]"
    by (simp add: sanitizeBaseOptions_def getp_def getOwn_def filterStrings_def nonBlank_def
          strOf_def tr visibilityFilter_def truthy_def getDocs_def catalog_parts catalog_plain)
       (simp add: shirt_def cap_def plain_def orphan_def)
  from T [of ?o3 catalog clock, THEN conjunct2, THEN conjunct2, THEN conjunct1,
          THEN spec, THEN spec, THEN mp, OF h3]
  obtain rows3 ds3 where r3: "fst (getProducts clock ?o3 catalog) = Inr (Arr (map Obj rows3))"
      "mset ds3 = mset [(''Q'', plain)]"
      "list_all2 (\<lambda>d r. map_of r =
              ([''id'' \<mapsto> Str (fst d)] ++ requested [''name''] (snd d))
                (''updatedAt'' \<mapsto> getOwn (snd d) ''updatedAt'',
                 ''visibility'' \<mapsto> getOwn (snd d) ''visibility'')) ds3 rows3"
    by auto
  from single_row [OF r3(2,3)] obtain q where q: "rows3 = [q]"
      "map_of q = ([''id'' \<mapsto> Str ''Q''] ++ requested [''name''] plain)
                (''updatedAt'' \<mapsto> getOwn plain ''updatedAt'',
                 ''visibility'' \<mapsto> getOwn plain ''visibility'')"
    by auto
  have e3: "\<exists>r. fst (getProducts clock ?o3 catalog) = Inr (Arr [Obj r])
        \<and> map_of r ''id'' = Some (Str ''Q'') \<and> map_of r ''name'' = Some (Str ''Plain'')
        \<and> map_of r ''updatedAt'' = Some (Str ''2024-01-01'')
        \<and> map_of r ''visibility'' = Some (Str ''DRAFT'')"
    using r3(1) unfolding q(1)
    by (intro exI [of _ q]) (simp add: q(2) requested_def restrict_map_def map_add_def getOwn_def plain_def)
  \<comment> \<open>products by ids\<close>
  let ?so4 = "\<lparr>mids = [''A''], mfields = [''name''], mvisibility = Undefined\<rparr>"
  have h4: "sanitizeMultiItemOptions ?o4 = Inr ?so4 \<and> mids ?so4 \<noteq> []
      \<and> fst (getDocs ''products'' (WhereNameIn (mids ?so4) # visibilityFilter (mvisibility ?so4)) catalog)
          = [(''A'', cap)]
      \<and> [(''A'', cap)] \<noteq> [] \<and> list_all (\<lambda>d. plainDoc (snd d)) [(''A'', cap)]"
    by (simp add: sanitizeMulti_Obj getOwn_def filterStrings_def nonBlank_def strOf_def tr
          visibilityFilter_def truthy_def getDocs_def catalog_parts catalog_plain)
  from T [of ?o4 catalog clock, THEN conjunct2, THEN conjunct2, THEN conjunct2, THEN conjunct1,
          THEN spec, THEN spec, THEN mp, OF h4]
  obtain rows4 ds4 where r4: "fst (getProductsByIds clock ?o4 catalog) = Inr (Arr (map Obj rows4))"
      "mset ds4 = mset [(''A'', cap)]"
      "list_all2 (\<lambda>d r. map_of r =
              ([''id'' \<mapsto> Str (fst d)] ++ requested [''name''] (snd d))
                (''updatedAt'' \<mapsto> getOwn (snd d) ''updatedAt'',
                 ''visibility'' \<mapsto> getOwn (snd d) ''visibility'')) ds4 rows4"
    by auto
  from single_row [OF r4(2,3)] obtain c where c: "rows4 = [c]"
      "map_of c = ([''id'' \<mapsto> Str ''A''] ++ requested [''name''] cap)
                (''updatedAt'' \<mapsto> getOwn cap ''updatedAt'',
                 ''visibility'' \<mapsto> getOwn cap ''visibility'')"
    by auto
  have e4: "\<exists>r. fst (getProductsByIds clock ?o4 catalog) = Inr (Arr [Obj r])
        \<and> map_of r ''id'' = Some (Str ''A'') \<and> map_of r ''name'' = Some (Str ''New'')
        \<and> map_of r ''slug'' = None
        \<and> map_of r ''updatedAt'' = Some (Str ''2024-01-03'')"
    using r4(1) unfolding c(1)
    by (intro exI [of _ c]) (simp add: c(2) requested_def restrict_map_def map_add_def getOwn_def cap_def)
  \<comment> \<open>collections, with the products expanded\<close>
  let ?so5 = "\<lparr>mids = [], mfields = [''title'', ''products''], mvisibility = Str ''PUBLISHED''\<rparr>"
  let ?rb = "Obj [(''id'', Str ''B''), (''index'', Num 0)]"
  let ?ra = "Obj [(''id'', Str ''A''), (''index'', Num 1)]"
  let ?Q = "\<lambda>ref e.
                    (productAt catalog ref = None \<longrightarrow>
                       e = Obj [(''id'', field ref ''id''), (''index'', field ref ''index'')])
                  \<and> (\<forall>pd. productAt catalog ref = Some pd \<and> distinct (keys pd) \<longrightarrow>
                        (\<exists>kvs. e = Obj kvs
                           \<and> map_of kvs = (map_of pd)(''id'' \<mapsto> field ref ''id'',
                                                        ''index'' \<mapsto> field ref ''index'')))"
  let ?F = "\<lambda>d. (([''id'' \<mapsto> Str (fst d)] ++ requested (mfields ?so5) (snd d))
                    (''updatedAt'' \<mapsto> getOwn (snd d) ''updatedAt'',
                     ''index'' \<mapsto> getOwn (snd d) ''index'',
                     ''visibility'' \<mapsto> getOwn (snd d) ''visibility'',
                     ''collectionType'' \<mapsto> getOwn (snd d) ''collectionType''))"
  let ?P = "\<lambda>d r.
            (\<forall>k. (''products'' \<in> set (mfields ?so5) \<longrightarrow> k \<noteq> ''products'') \<longrightarrow> map_of r k = ?F d k)
          \<and> (''products'' \<in> set (mfields ?so5) \<longrightarrow>
               (\<exists>es. map_of r ''products'' = Some (Arr es) \<and> list_all2 ?Q (refsOf (snd d)) es))"
  have tp: "trim ''products'' = ''products''" by (simp add: trim_def isSpace_def)
  have refs: "storedRefs summer = Some [?rb, ?ra]"
    by (simp add: storedRefs_def summer_def getOwn_def refOk_def)
  have h5: "sanitizeBaseOptions (if ?o5 = Undefined then Obj [] else ?o5) = Inr ?so5
      \<and> mfields ?so5 \<noteq> []
      \<and> fst (getDocs ''collections'' (visibilityFilter (mvisibility ?so5)) catalog) = [(''S'', summer)]
      \<and> [(''S'', summer)] \<noteq> []
      \<and> list_all (\<lambda>d. plainDoc (snd d) \<and> storedRefs (snd d) \<noteq> None) [(''S'', summer)]"
    by (simp add: sanitizeBaseOptions_def getp_def getOwn_def filterStrings_def nonBlank_def
          strOf_def tr tp visibilityFilter_def truthy_def getDocs_def catalog_parts catalog_plain refs)
       (simp add: summer_def winter_def)
  have "\<exists>rows ds. fst (getCollections clock ?o5 catalog) = Inr (Arr (map Obj rows))
         \<and> mset ds = mset [(''S'', summer)] \<and> list_all2 ?P ds rows"
    by (rule T [of ?o5 catalog clock, THEN conjunct2, THEN conjunct2, THEN conjunct2, THEN conjunct2,
          THEN spec, THEN spec, THEN mp, OF h5])
  then obtain rows5 where "\<exists>ds. fst (getCollections clock ?o5 catalog) = Inr (Arr (map Obj rows5))
         \<and> mset ds = mset [(''S'', summer)] \<and> list_all2 ?P ds rows5" ..
  then obtain ds5 where r5: "fst (getCollections clock ?o5 catalog) = Inr (Arr (map Obj rows5))
         \<and> mset ds5 = mset [(''S'', summer)] \<and> list_all2 ?P ds5 rows5" ..
  obtain w where w: "rows5 = [w]" and pw: "?P (''S'', summer) w"
    by (rule single_row [OF r5 [THEN conjunct2, THEN conjunct1] r5 [THEN conjunct2, THEN conjunct2]])
  have req: "''products'' \<in> set (mfields ?so5)" by simp
  have other: "map_of w k = ?F (''S'', summer) k" if "k \<noteq> ''products''" for k
    using pw [THEN conjunct1, THEN spec, of k] that by blast
  have vals: "map_of w ''id'' = Some (Str ''S'')" "map_of w ''title'' = Some (Str ''Summer'')"
      "map_of w ''index'' = Some (Num 2)" "map_of w ''collectionType'' = Some (Str ''FEATURED'')"
    by (simp_all add: other requested_def restrict_map_def map_add_def getOwn_def summer_def)
  from pw [THEN conjunct2, THEN mp, OF req]
  obtain es where es: "map_of w ''products'' = Some (Arr es)" "list_all2 ?Q (refsOf summer) es"
    by auto
  have ro: "refsOf summer = [?rb, ?ra]" by (simp add: refsOf_def refs)
  have pb: "productAt catalog ?rb = None" and pa: "productAt catalog ?ra = Some cap"
    by (simp_all add: productAt_def refId_def field_def getp_def getOwn_def strOf_def catalog_parts)
  have dc: "distinct (keys cap)" by (simp add: keys_def cap_def)
  have fl: "field ?rb ''id'' = Str ''B''" "field ?rb ''index'' = Num 0"
      "field ?ra ''id'' = Str ''A''" "field ?ra ''index'' = Num 1"
    by (simp_all add: field_def getp_def getOwn_def)
  from es(2) obtain eb ea where e: "es = [eb, ea]"
      "eb = Obj [(''id'', field ?rb ''id''), (''index'', field ?rb ''index'')]"
      "\<exists>kvs. ea = Obj kvs
          \<and> map_of kvs = (map_of cap)(''id'' \<mapsto> field ?ra ''id'', ''index'' \<mapsto> field ?ra ''index'')"
    unfolding ro using pa pb dc by (auto simp: list_all2_Cons1)
  then obtain kvs where kvs: "ea = Obj kvs"
      "map_of kvs = (map_of cap)(''id'' \<mapsto> Str ''A'', ''index'' \<mapsto> Num 1)"
    unfolding fl by blast
  have kv: "map_of kvs ''id'' = Some (Str ''A'')" "map_of kvs ''index'' = Some (Num 1)"
      "map_of kvs ''name'' = Some (Str ''New'')"
    by (simp_all add: kvs(2) cap_def)
  have pr: "map_of w ''products'' = Some (Arr [Obj [(''id'', Str ''B''), (''index'', Num 0)], Obj kvs])"
    using es(1) e(1,2) kvs(1) unfolding fl by simp
  have g5: "fst (getCollections clock ?o5 catalog) = Inr (Arr [Obj w])"
    using r5 [THEN conjunct1] unfolding w by simp
  have e5: "\<exists>r kvs. fst (getCollections clock ?o5 catalog) = Inr (Arr [Obj r])
        \<and> map_of r ''id'' = Some (Str ''S'') \<and> map_of r ''title'' = Some (Str ''Summer'')
        \<and> map_of r ''index'' = Some (Num 2)
        \<and> map_of r ''collectionType'' = Some (Str ''FEATURED'')
        \<and> map_of r ''products'' = Some (Arr [Obj [(''id'', Str ''B''), (''index'', Num 0)], Obj kvs])
        \<and> map_of kvs ''id'' = Some (Str ''A'') \<and> map_of kvs ''index'' = Some (Num 1)
        \<and> map_of kvs ''name'' = Some (Str ''New'')"
    by (rule exI [of _ w], rule exI [of _ kvs]) (intro conjI g5 vals pr kv)
  show ?thesis by (intro conjI e1 e2 e3 e4 e5)
qed

end
